(* ===== verification/GoPrelude.thy ===== *)
theory GoPrelude
  imports Main "HOL-Library.AList" "HOL-Library.Word"
begin

text \<open>
  The part of Go and of its standard library that the components share: errors, time and
  durations, the functions of package strings the code calls, maps as association lists, and
  the state of an HTTP response writer.

  A Go string is a byte sequence, so it is a \<^typ>\<open>string\<close> (an Isabelle \<^typ>\<open>char\<close> is one byte).
  A Go map is an association list with distinct keys: its order stands for the (unspecified)
  iteration order, and the theorems hold for every order.
\<close>

section \<open>Errors\<close>

text \<open>
  An error value: a package-level sentinel (compared by identity, named here by its text), a
  leaf built on the spot, or a wrapping error as \<^verbatim>\<open>fmt.Errorf("...: %w", err)\<close> builds it.
\<close>

datatype goerr = Sentinel string | Plain string | Wrap string goerr

type_synonym 'a result = "goerr + 'a"

fun err_text :: "goerr \<Rightarrow> string" where
  "err_text (Sentinel m) = m"
| "err_text (Plain m) = m"
| "err_text (Wrap m e) = m @ '': '' @ err_text e"

text \<open>\<^verbatim>\<open>errors.Is\<close>: the sentinel occurs in the chain of wrapped errors.\<close>

fun errors_is :: "goerr \<Rightarrow> string \<Rightarrow> bool" where
  "errors_is (Sentinel m) t = (m = t)"
| "errors_is (Plain m) t = False"
| "errors_is (Wrap m e) t = errors_is e t"

definition bind_res :: "'a result \<Rightarrow> ('a \<Rightarrow> 'b result) \<Rightarrow> 'b result" where
  "bind_res r f = (case r of Inl e \<Rightarrow> Inl e | Inr x \<Rightarrow> f x)"

section \<open>Time\<close>

text \<open>
  A \<^verbatim>\<open>time.Time\<close> is the number of nanoseconds since Go's zero time (1 January of year 1, UTC), so
  \<^verbatim>\<open>IsZero\<close> is equality with 0. A \<^verbatim>\<open>time.Duration\<close> is an \<^verbatim>\<open>int64\<close> number of nanoseconds: its
  arithmetic wraps (\<open>wrap64\<close>), and \<^verbatim>\<open>Time.Sub\<close> saturates.
\<close>

type_synonym gotime = int
type_synonym duration = int

definition wrap64 :: "int \<Rightarrow> int" where
  "wrap64 x = (x + 2 ^ 63) mod 2 ^ 64 - 2 ^ 63"

definition in_int64 :: "int \<Rightarrow> bool" where
  "in_int64 x = (- (2 ^ 63) \<le> x \<and> x < 2 ^ 63)"

definition time_Nanosecond :: duration where "time_Nanosecond = 1"
definition time_Second :: duration where "time_Second = 1000000000"
definition time_Minute :: duration where "time_Minute = 60 * time_Second"
definition time_Hour :: duration where "time_Hour = 60 * time_Minute"

definition time_IsZero :: "gotime \<Rightarrow> bool" where "time_IsZero t = (t = 0)"
definition time_After :: "gotime \<Rightarrow> gotime \<Rightarrow> bool" where "time_After t u = (t > u)"
definition time_Before :: "gotime \<Rightarrow> gotime \<Rightarrow> bool" where "time_Before t u = (t < u)"
definition time_Add :: "gotime \<Rightarrow> duration \<Rightarrow> gotime" where "time_Add t d = t + d"

definition time_Sub :: "gotime \<Rightarrow> gotime \<Rightarrow> duration" where
  "time_Sub t u = max (- (2 ^ 63)) (min (2 ^ 63 - 1) (t - u))"

text \<open>\<^verbatim>\<open>Time.Unix\<close> and \<^verbatim>\<open>time.Unix(sec, 0)\<close>: the epoch is 62135596800 seconds after the zero time.\<close>

definition time_Unix :: "gotime \<Rightarrow> int" where
  "time_Unix t = t div 1000000000 - 62135596800"

definition time_of_Unix :: "int \<Rightarrow> gotime" where
  "time_of_Unix s = (s + 62135596800) * 1000000000"

named_theorems time_defs \<open>definitions of times and durations\<close>

declare time_IsZero_def [time_defs] time_After_def [time_defs] time_Before_def [time_defs] time_Add_def [time_defs]
  time_Sub_def [time_defs] time_Second_def [time_defs] time_Minute_def [time_defs] time_Hour_def [time_defs]

lemma wrap64_id [simp]: "in_int64 x \<Longrightarrow> wrap64 x = x"
  by (simp add: wrap64_def in_int64_def)

lemma wrap64_range: "in_int64 (wrap64 x)"
proof -
  have "0 \<le> (x + 2 ^ 63) mod 2 ^ 64 \<and> (x + 2 ^ 63) mod 2 ^ 64 < 2 ^ 64" by simp
  then show ?thesis by (simp add: wrap64_def in_int64_def)
qed

lemma time_Unix_of_Unix [simp]: "time_Unix (time_of_Unix s) = s"
  by (simp add: time_Unix_def time_of_Unix_def)

lemma time_of_Unix_le: "time_of_Unix (time_Unix t) \<le> t"
proof -
  have "t div 1000000000 * 1000000000 \<le> t"
    by (metis div_mult_mod_eq le_add_same_cancel1 pos_mod_sign zero_less_numeral)
  then show ?thesis by (simp add: time_Unix_def time_of_Unix_def)
qed

lemma time_of_Unix_gt: "t - time_Second < time_of_Unix (time_Unix t)"
  unfolding time_Unix_def time_of_Unix_def time_Second_def by presburger

section \<open>Package strings\<close>

definition go_HasPrefix :: "string \<Rightarrow> string \<Rightarrow> bool" where
  "go_HasPrefix s p = (take (length p) s = p)"

definition go_HasSuffix :: "string \<Rightarrow> string \<Rightarrow> bool" where
  "go_HasSuffix s p = go_HasPrefix (rev s) (rev p)"

fun go_Contains :: "string \<Rightarrow> string \<Rightarrow> bool" where
  "go_Contains s p =
     (go_HasPrefix s p \<or> (case s of [] \<Rightarrow> False | _ # s' \<Rightarrow> go_Contains s' p))"

definition go_CutPrefix :: "string \<Rightarrow> string \<Rightarrow> string option" where
  "go_CutPrefix s p = (if go_HasPrefix s p then Some (drop (length p) s) else None)"

text \<open>
  \<^verbatim>\<open>strings.Cut(s, sep)\<close> for a one-byte separator: the parts before and after its first
  occurrence, or \<^term>\<open>None\<close> when the separator is absent.
\<close>

fun go_Cut :: "string \<Rightarrow> char \<Rightarrow> (string \<times> string) option" where
  "go_Cut [] sep = None"
| "go_Cut (c # s) sep =
     (if c = sep then Some ([], s)
      else (case go_Cut s sep of None \<Rightarrow> None | Some (a, b) \<Rightarrow> Some (c # a, b)))"

text \<open>\<^verbatim>\<open>strings.Split(s, sep)\<close> for a one-byte separator, and \<^verbatim>\<open>strings.Join\<close>.\<close>

fun go_Split :: "string \<Rightarrow> char \<Rightarrow> string list" where
  "go_Split [] sep = [[]]"
| "go_Split (c # s) sep =
     (if c = sep then [] # go_Split s sep
      else (case go_Split s sep of [] \<Rightarrow> [[c]] | x # xs \<Rightarrow> (c # x) # xs))"

fun go_Join :: "string list \<Rightarrow> string \<Rightarrow> string" where
  "go_Join [] sep = []"
| "go_Join [x] sep = x"
| "go_Join (x # y # ys) sep = x @ sep @ go_Join (y # ys) sep"

text \<open>\<^verbatim>\<open>strings.TrimRight(s, cutset)\<close> and \<^verbatim>\<open>strings.TrimLeft\<close> for a one-byte cutset.\<close>

definition go_TrimRight :: "string \<Rightarrow> char \<Rightarrow> string" where
  "go_TrimRight s c = rev (dropWhile (\<lambda>x. x = c) (rev s))"

text \<open>
  White space is \<^verbatim>\<open>unicode.IsSpace\<close>: the UTF-8 encodings of its runes. A string starts (ends)
  with a space rune exactly when one of these byte sequences is a prefix (suffix) of it, because
  none of them starts with a continuation byte.
\<close>

definition space_encs :: "string list" where
  "space_encs =
     map (\<lambda>n. [char_of (n :: nat)]) [9, 10, 11, 12, 13, 32] @
     map (map (char_of :: nat \<Rightarrow> char))
       ([[194, 133], [194, 160], [225, 154, 128],
         [226, 128, 168], [226, 128, 169], [226, 128, 175], [226, 129, 159], [227, 128, 128]] @
        map (\<lambda>n. [226, 128, n]) [128, 129, 130, 131, 132, 133, 134, 135, 136, 137, 138])"

lemma space_encs_code [code]:
  "space_encs =
     [[CHR 0x09], [CHR 0x0A], [CHR 0x0B], [CHR 0x0C], [CHR 0x0D],
      [CHR 0x20], [CHR 0xC2, CHR 0x85], [CHR 0xC2, CHR 0xA0], [CHR 0xE1, CHR 0x9A, CHR 0x80], [CHR 0xE2, CHR 0x80, CHR 0xA8],
      [CHR 0xE2, CHR 0x80, CHR 0xA9], [CHR 0xE2, CHR 0x80, CHR 0xAF], [CHR 0xE2, CHR 0x81, CHR 0x9F], [CHR 0xE3, CHR 0x80, CHR 0x80], [CHR 0xE2, CHR 0x80, CHR 0x80],
      [CHR 0xE2, CHR 0x80, CHR 0x81], [CHR 0xE2, CHR 0x80, CHR 0x82], [CHR 0xE2, CHR 0x80, CHR 0x83], [CHR 0xE2, CHR 0x80, CHR 0x84], [CHR 0xE2, CHR 0x80, CHR 0x85],
      [CHR 0xE2, CHR 0x80, CHR 0x86], [CHR 0xE2, CHR 0x80, CHR 0x87], [CHR 0xE2, CHR 0x80, CHR 0x88], [CHR 0xE2, CHR 0x80, CHR 0x89], [CHR 0xE2, CHR 0x80, CHR 0x8A]]"
  by (simp add: space_encs_def char_of_def bit_numeral_simps bit_0)

definition find_enc :: "string list \<Rightarrow> string \<Rightarrow> string option" where
  "find_enc encs s = List.find (\<lambda>e. e \<noteq> [] \<and> go_HasPrefix s e) encs"

function (sequential) trim_encs :: "string list \<Rightarrow> string \<Rightarrow> string" where
  "trim_encs encs s =
     (case find_enc encs s of None \<Rightarrow> s | Some e \<Rightarrow> trim_encs encs (drop (length e) s))"
  by pat_completeness auto

lemma find_enc_Some:
  "find_enc encs s = Some e \<Longrightarrow> e \<in> set encs \<and> e \<noteq> [] \<and> (\<exists>r. s = e @ r)"
  by (auto simp: find_enc_def go_HasPrefix_def find_Some_iff)
     (metis append_take_drop_id)+

lemma find_enc_None:
  "find_enc encs s = None \<longleftrightarrow> (\<forall>e \<in> set encs. e \<noteq> [] \<longrightarrow> \<not> (\<exists>r. s = e @ r))"
  by (auto simp: find_enc_def go_HasPrefix_def find_None_iff)
     (metis append_take_drop_id)

termination trim_encs
proof (relation "measure (\<lambda>(encs, s). length s)", goal_cases)
  case (2 encs s e)
  then obtain r where "e \<noteq> []" "s = e @ r" using find_enc_Some by blast
  then show ?case by (cases e) auto
qed simp

declare trim_encs.simps [simp del] go_Contains.simps [simp del]

definition go_TrimSpace :: "string \<Rightarrow> string" where
  "go_TrimSpace s =
     rev (trim_encs (map rev space_encs) (rev (trim_encs space_encs s)))"

text \<open>
  \<^verbatim>\<open>strings.Fields\<close>: split around runs of white space. Scanning byte by byte between spaces is
  exact, since no space encoding starts inside another rune.
\<close>

function (sequential) fields_aux :: "string \<Rightarrow> string \<Rightarrow> string list" where
  "fields_aux cur s =
     (case find_enc space_encs s of
        Some e \<Rightarrow> (if cur = [] then [] else [rev cur]) @ fields_aux [] (drop (length e) s)
      | None \<Rightarrow>
          (case s of
             [] \<Rightarrow> (if cur = [] then [] else [rev cur])
           | c # s' \<Rightarrow> fields_aux (c # cur) s'))"
  by pat_completeness auto

termination fields_aux
proof (relation "measure (\<lambda>(cur, s). length s)", goal_cases)
  case (3 cur s e)
  then obtain r where "e \<noteq> []" "s = e @ r" using find_enc_Some by blast
  then show ?case by (cases e) auto
qed simp_all

declare fields_aux.simps [simp del]

definition go_Fields :: "string \<Rightarrow> string list" where
  "go_Fields s = fields_aux [] s"

text \<open>
  \<^verbatim>\<open>strings.ToLower\<close> and \<^verbatim>\<open>strings.EqualFold\<close> on ASCII letters; other bytes are left as they are.
\<close>

definition lower_char :: "char \<Rightarrow> char" where
  "lower_char c =
     (let n = of_char c :: nat in if 65 \<le> n \<and> n \<le> 90 then char_of (n + 32) else c)"

definition go_ToLower :: "string \<Rightarrow> string" where
  "go_ToLower s = map lower_char s"

definition go_EqualFold :: "string \<Rightarrow> string \<Rightarrow> bool" where
  "go_EqualFold s t = (go_ToLower s = go_ToLower t)"

subsection \<open>Facts about the string functions\<close>

lemma go_HasPrefix_iff: "go_HasPrefix s p \<longleftrightarrow> (\<exists>r. s = p @ r)"
  unfolding go_HasPrefix_def by (metis append_eq_conv_conj append_take_drop_id)

lemma go_HasPrefix_append [simp]: "go_HasPrefix (p @ r) p"
  by (simp add: go_HasPrefix_def)

lemma go_Contains_iff: "go_Contains s p \<longleftrightarrow> (\<exists>a b. s = a @ p @ b)"
proof (induction s)
  case Nil
  then show ?case by (subst go_Contains.simps) (auto simp: go_HasPrefix_iff)
next
  case (Cons c s)
  have "(\<exists>a b. c # s = a @ p @ b) \<longleftrightarrow> (\<exists>b. c # s = p @ b) \<or> (\<exists>a b. s = a @ p @ b)"
    by (metis (no_types, opaque_lifting) append_Cons append_Nil append_eq_Cons_conv)
  with Cons show ?case by (subst go_Contains.simps) (auto simp: go_HasPrefix_iff)
qed

lemma go_Split_not_Nil [simp]: "go_Split s c \<noteq> []"
  by (cases s) (auto split: list.splits)

lemma go_Split_no_sep: "x \<in> set (go_Split s c) \<Longrightarrow> c \<notin> set x"
proof (induction s arbitrary: x)
  case Nil
  then show ?case by simp
next
  case (Cons a s)
  show ?case
  proof (cases "go_Split s c")
    case Nil
    then show ?thesis by simp
  next
    case (Cons y ys)
    with Cons.prems Cons.IH show ?thesis by (auto split: if_splits)
  qed
qed

lemma go_Split_single: "c \<notin> set s \<Longrightarrow> go_Split s c = [s]"
  by (induction s) auto

lemma go_Split_append: "c \<notin> set a \<Longrightarrow> go_Split (a @ c # s) c = a # go_Split s c"
  by (induction a) auto

lemma length_go_Split: "length (go_Split s c) = Suc (count_list s c)"
  by (induction s) (auto split: list.splits)

lemma go_Cut_append: "c \<notin> set a \<Longrightarrow> go_Cut (a @ c # s) c = Some (a, s)"
  by (induction a) auto

lemma go_Cut_Some: "go_Cut s c = Some (a, b) \<Longrightarrow> s = a @ c # b \<and> c \<notin> set a"
  by (induction s arbitrary: a b) (auto split: if_splits option.splits)

lemma go_Cut_None: "go_Cut s c = None \<longleftrightarrow> c \<notin> set s"
  by (induction s) (auto split: option.splits)

lemma go_Join_Split: "go_Join (go_Split s c) [c] = s"
proof (induction s)
  case Nil
  then show ?case by simp
next
  case (Cons a s)
  obtain y ys where ys: "go_Split s c = y # ys" by (cases "go_Split s c") auto
  with Cons show ?case by (cases ys) auto
qed

lemma find_enc_prefix_None:
  "find_enc encs (a @ b) = None \<Longrightarrow> find_enc encs a = None"
  by (auto simp: find_enc_None)

lemma trim_encs_no_enc: "find_enc encs (trim_encs encs s) = None"
  by (induction encs s rule: trim_encs.induct)
     (subst trim_encs.simps, simp split: option.split)

lemma trim_encs_id: "find_enc encs s = None \<Longrightarrow> trim_encs encs s = s"
  by (subst trim_encs.simps) simp

lemma trim_encs_suffix: "\<exists>p. s = p @ trim_encs encs s"
proof (induction encs s rule: trim_encs.induct)
  case (1 encs s)
  show ?case
  proof (cases "find_enc encs s")
    case None
    then show ?thesis by (simp add: trim_encs_id)
  next
    case (Some e)
    then obtain r where r: "s = e @ r" using find_enc_Some by blast
    with 1 Some obtain p where "r = p @ trim_encs encs r" by auto
    with Some r have "s = (e @ p) @ trim_encs encs s"
      by (subst trim_encs.simps) simp
    then show ?thesis by blast
  qed
qed

lemma go_TrimSpace_infix: "\<exists>a b. s = a @ go_TrimSpace s @ b"
proof -
  obtain p where p: "s = p @ trim_encs space_encs s" using trim_encs_suffix by blast
  obtain q where "rev (trim_encs space_encs s) = q @ rev (go_TrimSpace s)"
    using trim_encs_suffix [of "rev (trim_encs space_encs s)" "map rev space_encs"]
    by (auto simp: go_TrimSpace_def)
  then have "trim_encs space_encs s = go_TrimSpace s @ rev q"
    by (metis rev_append rev_rev_ident)
  with p show ?thesis by metis
qed

lemma set_go_TrimSpace: "set (go_TrimSpace s) \<subseteq> set s"
  by (metis go_TrimSpace_infix le_sup_iff set_append subset_refl sup.cobounded1 sup_commute
      UnCI subsetI)

lemma length_go_TrimSpace: "length (go_TrimSpace s) \<le> length s"
proof -
  obtain a b where "s = a @ go_TrimSpace s @ b" using go_TrimSpace_infix by blast
  then have "length s = length a + length (go_TrimSpace s) + length b"
    by (metis length_append add.assoc)
  then show ?thesis by simp
qed

lemma go_TrimSpace_idem [simp]: "go_TrimSpace (go_TrimSpace s) = go_TrimSpace s"
proof -
  let ?l = "trim_encs space_encs s"
  let ?t = "go_TrimSpace s"
  obtain q where "rev ?l = q @ rev ?t"
    using trim_encs_suffix [of "rev ?l" "map rev space_encs"] by (auto simp: go_TrimSpace_def)
  then have "?l = ?t @ rev q" by (metis rev_append rev_rev_ident)
  then have "find_enc space_encs ?t = None"
    by (metis find_enc_prefix_None trim_encs_no_enc)
  moreover have "find_enc (map rev space_encs) (rev ?t) = None"
    by (simp add: go_TrimSpace_def trim_encs_no_enc)
  ultimately show ?thesis
    by (subst go_TrimSpace_def) (simp add: trim_encs_id)
qed

lemma go_TrimSpace_Nil [simp]: "go_TrimSpace [] = []"
  using length_go_TrimSpace [of "[]"] by simp

lemma fields_aux_nonempty: "x \<in> set (fields_aux cur s) \<Longrightarrow> x \<noteq> []"
proof (induction cur s rule: fields_aux.induct)
  case (1 cur s)
  show ?case
  proof (cases "find_enc space_encs s")
    case None
    with 1 show ?thesis
      by (cases s) (auto simp: fields_aux.simps [of cur "[]"] fields_aux.simps [of cur "_ # _"] split: if_splits)
  next
    case (Some e)
    with 1 show ?thesis
      by (auto simp: fields_aux.simps [of cur s] split: if_splits)
  qed
qed

lemma go_Fields_nonempty: "x \<in> set (go_Fields s) \<Longrightarrow> x \<noteq> []"
  by (simp add: go_Fields_def fields_aux_nonempty)

text \<open>On printable ASCII the white-space functions reduce to single characters.\<close>

definition graph_char :: "char \<Rightarrow> bool" where
  "graph_char c = (33 \<le> (of_char c :: nat) \<and> (of_char c :: nat) \<le> 126)"

lemma space_encs_not_graph:
  "\<forall>e \<in> set space_encs. e \<noteq> [] \<and> \<not> graph_char (hd e) \<and> \<not> graph_char (last e)"
  by (simp add: space_encs_def graph_char_def)

lemma find_enc_graph: "graph_char c \<Longrightarrow> find_enc space_encs (c # s) = None"
  using space_encs_not_graph by (auto simp: find_enc_None) (metis hd_append2 list.sel(1))

lemma find_enc_graph_rev: "graph_char c \<Longrightarrow> find_enc (map rev space_encs) (c # s) = None"
  using space_encs_not_graph
  by (auto simp: find_enc_None) (metis hd_append2 hd_rev list.sel(1) rev_is_Nil_conv)

lemma go_TrimSpace_graph [simp]:
  "graph_char (hd s) \<Longrightarrow> graph_char (last s) \<Longrightarrow> go_TrimSpace s = s"
proof (cases s)
  case (Cons c t)
  assume g: "graph_char (hd s)" "graph_char (last s)"
  with Cons have "find_enc space_encs s = None" by (simp add: find_enc_graph)
  moreover obtain d u where du: "rev s = d # u" using Cons by (metis list.exhaust rev_is_Nil_conv list.distinct(1))
  then have "graph_char d" using g(2) by (metis last_rev list.sel(1) rev_rev_ident)
  then have "find_enc (map rev space_encs) (rev s) = None" by (simp add: du find_enc_graph_rev)
  ultimately show ?thesis by (simp add: go_TrimSpace_def trim_encs_id)
qed simp

lemma find_enc_blank: "find_enc space_encs (CHR '' '' # s) = Some '' ''"
proof -
  have blank: "char_of (32 :: nat) = CHR '' ''" by (simp add: char_of_eq_iff)
  have only: "\<forall>e \<in> set space_encs. of_char (hd e) = (32 :: nat) \<longrightarrow> e = '' ''"
    by (simp add: space_encs_def blank)
  have mem: "'' '' \<in> set space_encs" by (simp add: space_encs_def blank)
  show ?thesis
  proof (cases "find_enc space_encs (CHR '' '' # s)")
    case None
    with mem show ?thesis by (force simp: find_enc_None)
  next
    case (Some e)
    then obtain r where e: "e \<in> set space_encs" "e \<noteq> []" "CHR '' '' # s = e @ r" using find_enc_Some by blast
    then have "hd e = CHR '' ''" by (metis hd_append2 list.sel(1))
    with only e(1) Some show ?thesis by simp
  qed
qed

lemma fields_aux_ascii:
  "graph_char c \<Longrightarrow> fields_aux cur (c # s) = fields_aux (c # cur) s"
  "fields_aux cur (CHR '' '' # s) = (if cur = [] then [] else [rev cur]) @ fields_aux [] s"
  "fields_aux cur [] = (if cur = [] then [] else [rev cur])"
proof -
  have "find_enc space_encs [] = None" by (simp add: find_enc_None)
  then show "fields_aux cur [] = (if cur = [] then [] else [rev cur])"
    by (simp add: fields_aux.simps [of cur "[]"])
qed (simp_all add: find_enc_graph find_enc_blank fields_aux.simps [of cur "_ # _"])

lemma go_ToLower_length [simp]: "length (go_ToLower s) = length s"
  by (simp add: go_ToLower_def)

end
