(* ===== verification/GoHttp.thy ===== *)
theory GoHttp
  imports GoPrelude
begin

text \<open>
  The HTTP vocabulary of the handlers: header maps, response bodies, and the state of an
  \<^verbatim>\<open>http.ResponseWriter\<close>. A handler that writes a response is a function from writer to writer.
\<close>

section \<open>Maps\<close>

type_synonym 'v gomap = "(string \<times> 'v) list"

definition gm_get :: "'v gomap \<Rightarrow> string \<Rightarrow> 'v option" where
  "gm_get m k = map_of m k"

definition gm_put :: "string \<Rightarrow> 'v \<Rightarrow> 'v gomap \<Rightarrow> 'v gomap" where
  "gm_put k v m = AList.update k v m"

definition gm_del :: "string \<Rightarrow> 'v gomap \<Rightarrow> 'v gomap" where
  "gm_del k m = AList.delete k m"

definition gm_wf :: "'v gomap \<Rightarrow> bool" where
  "gm_wf m = distinct (map fst m)"

lemma gm_get_put [simp]: "gm_get (gm_put k v m) k' = (if k' = k then Some v else gm_get m k')"
  by (simp add: gm_get_def gm_put_def update_conv')

lemma gm_get_del [simp]: "gm_get (gm_del k m) k' = (if k' = k then None else gm_get m k')"
  by (simp add: gm_get_def gm_del_def delete_conv')

lemma gm_get_Nil [simp]: "gm_get [] k = None"
  by (simp add: gm_get_def)

lemma gm_wf_Nil [simp]: "gm_wf []"
  by (simp add: gm_wf_def)

lemma gm_wf_put [simp]: "gm_wf m \<Longrightarrow> gm_wf (gm_put k v m)"
  by (simp add: gm_wf_def gm_put_def distinct_update)

lemma gm_wf_del [simp]: "gm_wf m \<Longrightarrow> gm_wf (gm_del k m)"
  by (simp add: gm_wf_def gm_del_def distinct_delete)

lemma gm_get_in_set: "gm_wf m \<Longrightarrow> gm_get m k = Some v \<longleftrightarrow> (k, v) \<in> set m"
  by (simp add: gm_wf_def gm_get_def)

lemma gm_get_None: "gm_get m k = None \<longleftrightarrow> k \<notin> fst ` set m"
  by (simp add: gm_get_def map_of_eq_None_iff)

lemma set_gm_del: "set (gm_del k m) = {(k', v) \<in> set m. k' \<noteq> k}"
  by (auto simp: gm_del_def AList.delete_eq)

lemma gm_wf_filter [simp]: "gm_wf m \<Longrightarrow> gm_wf (filter P m)"
  by (auto simp: gm_wf_def distinct_map intro: inj_on_subset)

lemma gm_get_filter:
  "gm_wf m \<Longrightarrow>
   gm_get (filter P m) k = (case gm_get m k of None \<Rightarrow> None | Some v \<Rightarrow> if P (k, v) then Some v else None)"
proof (cases "gm_get (filter P m) k")
  case None
  moreover assume "gm_wf m"
  ultimately show ?thesis
    by (auto simp: gm_get_None gm_get_in_set image_iff split: option.splits)
next
  case (Some v)
  moreover assume "gm_wf m"
  ultimately have "gm_get m k = Some v" "P (k, v)" by (simp_all add: gm_get_in_set)
  with Some show ?thesis by simp
qed

section \<open>JSON values\<close>

text \<open>
  A JSON document as \<^verbatim>\<open>encoding/json\<close> builds it; \<open>JRaw\<close> is a \<^verbatim>\<open>json.RawMessage\<close>, already encoded,
  and \<open>JFloat\<close> a \<^verbatim>\<open>float64\<close> by its bit pattern.
\<close>

datatype json =
    JNull
  | JBool bool
  | JInt int
  | JFloat "64 word"
  | JStr string
  | JTime gotime
  | JRaw string
  | JArr "json list"
  | JObj "(string \<times> json) list"

section \<open>Headers\<close>

text \<open>
  \<^verbatim>\<open>http.Header\<close>: keys in canonical form. \<open>canonical_key\<close> is \<^verbatim>\<open>textproto.CanonicalMIMEHeaderKey\<close> on
  keys made of letters, digits and hyphens.
\<close>

type_synonym header = "string list gomap"
type_synonym url_values = "string list gomap"

definition upper_char :: "char \<Rightarrow> char" where
  "upper_char c =
     (let n = of_char c :: nat in if 97 \<le> n \<and> n \<le> 122 then char_of (n - 32) else c)"

fun canonical_aux :: "bool \<Rightarrow> string \<Rightarrow> string" where
  "canonical_aux up [] = []"
| "canonical_aux up (c # s) =
     (if up then upper_char c else lower_char c) # canonical_aux (c = CHR ''-'') s"

definition canonical_key :: "string \<Rightarrow> string" where
  "canonical_key s = canonical_aux True s"

definition header_Get :: "header \<Rightarrow> string \<Rightarrow> string" where
  "header_Get h k =
     (case gm_get h (canonical_key k) of Some (v # _) \<Rightarrow> v | _ \<Rightarrow> [])"

definition header_Set :: "string \<Rightarrow> string \<Rightarrow> header \<Rightarrow> header" where
  "header_Set k v h = gm_put (canonical_key k) [v] h"

definition header_Add :: "string \<Rightarrow> string \<Rightarrow> header \<Rightarrow> header" where
  "header_Add k v h =
     gm_put (canonical_key k)
       ((case gm_get h (canonical_key k) of Some vs \<Rightarrow> vs | None \<Rightarrow> []) @ [v]) h"

definition header_Del :: "string \<Rightarrow> header \<Rightarrow> header" where
  "header_Del k h = gm_del (canonical_key k) h"

lemma header_Get_Set:
  "header_Get (header_Set k v h) k' =
     (if canonical_key k' = canonical_key k then v else header_Get h k')"
  by (simp add: header_Get_def header_Set_def)

lemma header_wf [simp]:
  "gm_wf h \<Longrightarrow> gm_wf (header_Set k v h)"
  "gm_wf h \<Longrightarrow> gm_wf (header_Add k v h)"
  "gm_wf h \<Longrightarrow> gm_wf (header_Del k h)"
  by (simp_all add: header_Set_def header_Add_def header_Del_def)

section \<open>Response writers\<close>

text \<open>
  The body is a list of chunks: raw bytes, or a JSON document followed by a newline as
  \<^verbatim>\<open>json.Encoder.Encode\<close> writes it. \<open>w_status\<close> is 0 until the header is written; \<open>w_sent\<close> is the
  header as it was at that moment (later changes of \<open>w_hdr\<close> do not reach the client).
  Content-type sniffing and the informational 1xx responses a writer sends ahead of the final
  one are not recorded.
\<close>

datatype chunk = Bytes string | JsonDoc json

record writer =
  w_hdr :: header
  w_status :: int
  w_sent :: header
  w_body :: "chunk list"

definition new_writer :: writer where
  "new_writer = \<lparr>w_hdr = [], w_status = 0, w_sent = [], w_body = []\<rparr>"

definition w_header :: "(header \<Rightarrow> header) \<Rightarrow> writer \<Rightarrow> writer" where
  "w_header f w = w\<lparr>w_hdr := f (w_hdr w)\<rparr>"

definition informational :: "int \<Rightarrow> bool" where
  "informational st = (100 \<le> st \<and> st \<le> 199 \<and> st \<noteq> 101)"

definition w_WriteHeader :: "int \<Rightarrow> writer \<Rightarrow> writer" where
  "w_WriteHeader st w =
     (if w_status w \<noteq> 0 \<or> informational st then w
      else w\<lparr>w_status := st, w_sent := w_hdr w\<rparr>)"

definition w_Write :: "chunk \<Rightarrow> writer \<Rightarrow> writer" where
  "w_Write c w =
     (let w' = (if w_status w = 0 then w_WriteHeader 200 w else w)
      in w'\<lparr>w_body := w_body w' @ [c]\<rparr>)"

definition http_Error :: "string \<Rightarrow> int \<Rightarrow> writer \<Rightarrow> writer" where
  "http_Error msg st w =
     w_Write (Bytes (msg @ [CHR 0x0A]))
       (w_WriteHeader st
         (w_header (header_Set ''X-Content-Type-Options'' ''nosniff'' \<circ>
                    header_Set ''Content-Type'' ''text/plain; charset=utf-8'' \<circ>
                    header_Del ''Content-Length'') w))"

text \<open>The escapes of \<^verbatim>\<open>html.EscapeString\<close>.\<close>

definition html_escape :: "char \<Rightarrow> string" where
  "html_escape c =
     (if c = CHR ''&'' then ''&amp;'' else if c = CHR ''<'' then ''&lt;'' else if c = CHR ''>'' then ''&gt;''
      else if c = CHR 0x22 then ''&#34;'' else if c = CHR 0x27 then ''&#39;'' else [c])"

text \<open>A writer to which nothing has been sent yet.\<close>

definition unsent :: "writer \<Rightarrow> bool" where
  "unsent w = (w_status w = 0 \<and> w_body w = [])"

lemma unsent_new [simp]: "unsent new_writer"
  by (simp add: unsent_def new_writer_def)

lemma unsent_header [simp]: "unsent (w_header f w) = unsent w"
  by (simp add: unsent_def w_header_def)

lemma w_header_sel [simp]:
  "w_hdr (w_header f w) = f (w_hdr w)"
  "w_status (w_header f w) = w_status w"
  "w_body (w_header f w) = w_body w"
  "w_sent (w_header f w) = w_sent w"
  by (simp_all add: w_header_def)

lemma w_WriteHeader_unsent [simp]:
  "unsent w \<Longrightarrow> \<not> informational st \<Longrightarrow>
     w_WriteHeader st w = w\<lparr>w_status := st, w_sent := w_hdr w\<rparr>"
  by (simp add: unsent_def w_WriteHeader_def)

lemma w_Write_sel [simp]:
  "w_hdr (w_Write c w) = w_hdr w"
  "w_body (w_Write c w) = w_body w @ [c]"
  "w_status w \<noteq> 0 \<Longrightarrow> w_status (w_Write c w) = w_status w"
  "w_status w \<noteq> 0 \<Longrightarrow> w_sent (w_Write c w) = w_sent w"
  by (simp_all add: w_Write_def w_WriteHeader_def Let_def informational_def)

lemma http_Error_unsent:
  assumes "unsent w" "\<not> informational st" "st \<noteq> 0"
  shows "w_status (http_Error msg st w) = st"
    and "w_body (http_Error msg st w) = [Bytes (msg @ [CHR 0x0A])]"
  using assms
  by (simp_all add: http_Error_def unsent_def w_WriteHeader_def)

end
