(* ===== verification/GoUrl.thy ===== *)
theory GoUrl
  imports GoHttp
begin

text \<open>
  Package net/url as the code uses it: parsing, host and port, path escaping, query values and
  their encoding, and the string form of a URL; and the address classes of package net. The
  parser follows the library function by function; the text of its errors is abbreviated.
\<close>

section \<open>Percent encoding\<close>

datatype encoding =
    encodePath | encodeHost | encodeZone | encodeUserPassword | encodeQueryComponent | encodeFragment

abbreviation code_of :: "char \<Rightarrow> nat" where "code_of c \<equiv> of_char c"

definition is_digit :: "char \<Rightarrow> bool" where
  "is_digit c = (48 \<le> code_of c \<and> code_of c \<le> 57)"

definition is_alpha :: "char \<Rightarrow> bool" where
  "is_alpha c = (65 \<le> code_of c \<and> code_of c \<le> 90 \<or> 97 \<le> code_of c \<and> code_of c \<le> 122)"

definition ishex :: "char \<Rightarrow> bool" where
  "ishex c = (is_digit c \<or> 97 \<le> code_of c \<and> code_of c \<le> 102 \<or> 65 \<le> code_of c \<and> code_of c \<le> 70)"

definition unhex :: "char \<Rightarrow> nat" where
  "unhex c =
     (if is_digit c then code_of c - 48
      else if 97 \<le> code_of c \<and> code_of c \<le> 102 then code_of c - 87
      else if 65 \<le> code_of c \<and> code_of c \<le> 70 then code_of c - 55 else 0)"

definition upperhex :: "nat \<Rightarrow> char" where
  "upperhex n = (if n < 10 then char_of (48 + n) else char_of (55 + n))"

definition shouldEscape :: "char \<Rightarrow> encoding \<Rightarrow> bool" where
  "shouldEscape c mode =
     (if is_alpha c \<or> is_digit c then False
      else if (mode = encodeHost \<or> mode = encodeZone) \<and>
              c \<in> set (CHR 0x27 # CHR 0x22 # ''!$&()*+,;=:[]<>'') then False
      else if c \<in> set ''-_.~'' then False
      else if c \<in> set ''$&+,/:;=?@'' then
        (case mode of
           encodePath \<Rightarrow> c = CHR ''?''
         | encodeUserPassword \<Rightarrow> c \<in> set ''@/?:''
         | encodeQueryComponent \<Rightarrow> True
         | encodeFragment \<Rightarrow> False
         | _ \<Rightarrow> True)
      else if mode = encodeFragment \<and> c \<in> set ''!()*'' then False
      else True)"

definition escape_char :: "encoding \<Rightarrow> char \<Rightarrow> string" where
  "escape_char mode c =
     (if c = CHR '' '' \<and> mode = encodeQueryComponent then ''+''
      else if shouldEscape c mode
      then [CHR ''%'', upperhex (code_of c div 16), upperhex (code_of c mod 16)]
      else [c])"

definition url_escape :: "encoding \<Rightarrow> string \<Rightarrow> string" where
  "url_escape mode s = concat (map (escape_char mode) s)"

definition EscapeError :: "goerr" where "EscapeError = Plain ''invalid URL escape''"
definition InvalidHostError :: "goerr" where "InvalidHostError = Plain ''invalid character in host name''"

fun url_unescape :: "encoding \<Rightarrow> string \<Rightarrow> string result" where
  "url_unescape mode [] = Inr []"
| "url_unescape mode (c # s) =
     (if c = CHR ''%'' then
        (case s of
           a # b # t \<Rightarrow>
             if \<not> ishex a \<or> \<not> ishex b then Inl EscapeError
             else if mode = encodeHost \<and> unhex a < 8 \<and> \<not> (a = CHR ''2'' \<and> b = CHR ''5'') then Inl EscapeError
             else
               (let v = char_of (16 * unhex a + unhex b)
                in if mode = encodeZone \<and> \<not> (a = CHR ''2'' \<and> b = CHR ''5'') \<and> v \<noteq> CHR '' '' \<and>
                      shouldEscape v encodeHost
                   then Inl EscapeError
                   else (case url_unescape mode t of Inl e \<Rightarrow> Inl e | Inr r \<Rightarrow> Inr (v # r)))
         | _ \<Rightarrow> Inl EscapeError)
      else if (mode = encodeHost \<or> mode = encodeZone) \<and> code_of c < 128 \<and> shouldEscape c mode
      then Inl InvalidHostError
      else
        (case url_unescape mode s of
           Inl e \<Rightarrow> Inl e
         | Inr r \<Rightarrow> Inr ((if c = CHR ''+'' \<and> mode = encodeQueryComponent then CHR '' '' else c) # r)))"

section \<open>IPv6 literals\<close>

text \<open>\<^verbatim>\<open>netip.ParseAddr\<close> on the text between brackets: is it an IPv6 address, possibly with a zone?\<close>

definition dec_octet :: "string \<Rightarrow> bool" where
  "dec_octet s =
     (s \<noteq> [] \<and> length s \<le> 3 \<and> list_all is_digit s \<and> (length s = 1 \<or> hd s \<noteq> CHR ''0'') \<and>
      foldl (\<lambda>n c. 10 * n + (code_of c - 48)) 0 s \<le> 255)"

definition is_ipv4 :: "string \<Rightarrow> bool" where
  "is_ipv4 s = (let ps = go_Split s (CHR ''.'') in length ps = 4 \<and> list_all dec_octet ps)"

definition hex_group :: "string \<Rightarrow> bool" where
  "hex_group s = (s \<noteq> [] \<and> length s \<le> 4 \<and> list_all ishex s)"

fun groups :: "string list \<Rightarrow> nat option" where
  "groups [] = Some 0"
| "groups [x] = (if hex_group x then Some 1 else if is_ipv4 x then Some 2 else None)"
| "groups (x # y # ys) = (if hex_group x then map_option Suc (groups (y # ys)) else None)"

fun cut_ellipsis :: "string \<Rightarrow> (string \<times> string) option" where
  "cut_ellipsis [] = None"
| "cut_ellipsis (c # s) =
     (if c = CHR '':'' \<and> s \<noteq> [] \<and> hd s = CHR '':'' then Some ([], tl s)
      else (case cut_ellipsis s of None \<Rightarrow> None | Some (a, b) \<Rightarrow> Some (c # a, b)))"

definition colon_groups :: "string \<Rightarrow> nat option" where
  "colon_groups s = (if s = [] then Some 0 else groups (go_Split s (CHR '':'')))"

definition is_ipv6 :: "string \<Rightarrow> bool" where
  "is_ipv6 s =
     (let (addr, zone_ok) = (case go_Cut s (CHR ''%'') of None \<Rightarrow> (s, True) | Some (a, z) \<Rightarrow> (a, z \<noteq> []))
      in zone_ok \<and>
         (case cut_ellipsis addr of
            None \<Rightarrow> colon_groups addr = Some 8
          | Some (l, r) \<Rightarrow>
              (case (if CHR ''.'' \<in> set l then None else colon_groups l, colon_groups r) of
                 (Some n, Some m) \<Rightarrow> n + m \<le> 7
               | _ \<Rightarrow> False)))"

section \<open>Parsing\<close>

record url =
  u_Scheme :: string
  u_Opaque :: string
  u_User :: "(string \<times> string option) option"
  u_Host :: string
  u_Path :: string
  u_RawPath :: string
  u_OmitHost :: bool
  u_ForceQuery :: bool
  u_RawQuery :: string
  u_Fragment :: string

definition empty_url :: url where
  "empty_url = \<lparr>u_Scheme = [], u_Opaque = [], u_User = None, u_Host = [], u_Path = [], u_RawPath = [],
     u_OmitHost = False, u_ForceQuery = False, u_RawQuery = [], u_Fragment = []\<rparr>"

definition ctl_byte :: "char \<Rightarrow> bool" where
  "ctl_byte c = (code_of c < 32 \<or> code_of c = 127)"

fun getScheme_aux :: "bool \<Rightarrow> string \<Rightarrow> string \<Rightarrow> (string \<times> string) option result" where
  "getScheme_aux first acc [] = Inr None"
| "getScheme_aux first acc (c # s) =
     (if is_alpha c then getScheme_aux False (c # acc) s
      else if is_digit c \<or> c \<in> set ''+-.'' then
        (if first then Inr None else getScheme_aux False (c # acc) s)
      else if c = CHR '':'' then
        (if first then Inl (Plain ''missing protocol scheme'') else Inr (Some (rev acc, s)))
      else Inr None)"

definition getScheme :: "string \<Rightarrow> (string \<times> string) result" where
  "getScheme rawURL =
     (case getScheme_aux True [] rawURL of
        Inl e \<Rightarrow> Inl e
      | Inr None \<Rightarrow> Inr ([], rawURL)
      | Inr (Some (scheme, rest)) \<Rightarrow> Inr (scheme, rest))"

definition cut_last :: "string \<Rightarrow> char \<Rightarrow> (string \<times> string) option" where
  "cut_last s c = (case go_Cut (rev s) c of None \<Rightarrow> None | Some (b, a) \<Rightarrow> Some (rev a, rev b))"

definition validOptionalPort :: "string \<Rightarrow> bool" where
  "validOptionalPort port =
     (case port of [] \<Rightarrow> True | c # ds \<Rightarrow> c = CHR '':'' \<and> list_all is_digit ds)"

fun cut_zone :: "string \<Rightarrow> (string \<times> string) option" where
  "cut_zone [] = None"
| "cut_zone (c # s) =
     (if go_HasPrefix (c # s) ''%25'' then Some ([], c # s)
      else (case cut_zone s of None \<Rightarrow> None | Some (a, b) \<Rightarrow> Some (c # a, b)))"

definition parseHost :: "string \<Rightarrow> string result" where
  "parseHost host =
     (case host of
        c # rest \<Rightarrow>
          if CHR ''['' \<in> set rest then Inl (Plain ''invalid IP-literal'')
          else if c = CHR ''['' then
            (case cut_last rest (CHR '']'') of
               None \<Rightarrow> Inl (Plain ''missing ']' in host'')
             | Some (hostname, colonPort) \<Rightarrow>
                 if \<not> validOptionalPort colonPort then Inl (Plain ''invalid port after host'')
                 else bind_res
                   (case cut_zone hostname of
                      None \<Rightarrow> url_unescape encodeHost hostname
                    | Some (h, z) \<Rightarrow>
                        bind_res (url_unescape encodeHost h) (\<lambda>h'.
                        bind_res (url_unescape encodeZone z) (\<lambda>z'. Inr (h' @ z'))))
                   (\<lambda>name. if is_ipv6 name then Inr (''['' @ name @ '']'' @ colonPort)
                           else Inl (Plain ''invalid host'')))
          else (case go_Cut host (CHR '':'') of
                  Some (_, port) \<Rightarrow>
                    if CHR '':'' \<in> set port \<or> \<not> validOptionalPort (CHR '':'' # port)
                    then Inl (Plain ''invalid port after host'')
                    else url_unescape encodeHost host
                | None \<Rightarrow> url_unescape encodeHost host)
      | [] \<Rightarrow> Inr [])"

definition validUserinfo :: "string \<Rightarrow> bool" where
  "validUserinfo s =
     list_all (\<lambda>c. is_alpha c \<or> is_digit c \<or> c \<in> set (CHR 0x27 # ''-._:~!$&()*+,;=%@'')) s"

definition parseAuthority :: "string \<Rightarrow> ((string \<times> string option) option \<times> string) result" where
  "parseAuthority authority =
     (case cut_last authority (CHR ''@'') of
        None \<Rightarrow> bind_res (parseHost authority) (\<lambda>host. Inr (None, host))
      | Some (userinfo, h) \<Rightarrow>
          bind_res (parseHost h) (\<lambda>host.
            if \<not> validUserinfo userinfo then Inl (Plain ''net/url: invalid userinfo'')
            else (case go_Cut userinfo (CHR '':'') of
                    None \<Rightarrow>
                      bind_res (url_unescape encodeUserPassword userinfo) (\<lambda>u. Inr (Some (u, None), host))
                  | Some (username, password) \<Rightarrow>
                      bind_res (url_unescape encodeUserPassword username) (\<lambda>u.
                      bind_res (url_unescape encodeUserPassword password) (\<lambda>p.
                        Inr (Some (u, Some p), host))))))"

definition setPath :: "string \<Rightarrow> url \<Rightarrow> url result" where
  "setPath p u =
     bind_res (url_unescape encodePath p) (\<lambda>path.
       Inr (u\<lparr>u_Path := path, u_RawPath := (if p = url_escape encodePath path then [] else p)\<rparr>))"

definition split_authority :: "string \<Rightarrow> string \<times> string" where
  "split_authority s =
     (case go_Cut s (CHR ''/'') of None \<Rightarrow> (s, []) | Some (a, r) \<Rightarrow> (a, CHR ''/'' # r))"

definition split_query :: "string \<Rightarrow> bool \<times> string \<times> string" where
  "split_query rest =
     (case go_Cut rest (CHR ''?'') of
        None \<Rightarrow> (False, rest, [])
      | Some (a, q) \<Rightarrow> if q = [] then (True, a, []) else (False, a, q))"

definition parse_rest :: "url \<Rightarrow> string \<Rightarrow> url result" where
  "parse_rest u rest =
     (if \<not> go_HasPrefix rest ''/'' \<and> u_Scheme u \<noteq> [] then Inr (u\<lparr>u_Opaque := rest\<rparr>)
      else if \<not> go_HasPrefix rest ''/'' \<and> CHR '':'' \<in> set (fst (split_authority rest))
      then Inl (Plain ''first path segment in URL cannot contain colon'')
      else if (u_Scheme u \<noteq> [] \<or> \<not> go_HasPrefix rest ''///'') \<and> go_HasPrefix rest ''//'' then
        (case split_authority (drop 2 rest) of
           (authority, path) \<Rightarrow>
             bind_res (parseAuthority authority) (\<lambda>(user, host).
               setPath path (u\<lparr>u_User := user, u_Host := host\<rparr>)))
      else setPath rest (if u_Scheme u \<noteq> [] \<and> go_HasPrefix rest ''/'' then u\<lparr>u_OmitHost := True\<rparr> else u))"

definition parse_nofrag :: "string \<Rightarrow> url result" where
  "parse_nofrag rawURL =
     (if list_ex ctl_byte rawURL then Inl (Plain ''net/url: invalid control character in URL'')
      else if rawURL = ''*'' then Inr (empty_url\<lparr>u_Path := ''*''\<rparr>)
      else bind_res (getScheme rawURL) (\<lambda>(scheme, rest).
        (case split_query rest of
           (force, rest', query) \<Rightarrow>
             parse_rest (empty_url\<lparr>u_Scheme := go_ToLower scheme, u_ForceQuery := force,
                                   u_RawQuery := query\<rparr>) rest')))"

definition url_Parse :: "string \<Rightarrow> url result" where
  "url_Parse rawURL =
     (let (u, frag) = (case go_Cut rawURL (CHR ''#'') of None \<Rightarrow> (rawURL, []) | Some p \<Rightarrow> p)
      in (case parse_nofrag u of
            Inl e \<Rightarrow> Inl (Wrap (''parse '' @ u) e)
          | Inr url \<Rightarrow>
              if frag = [] then Inr url
              else (case url_unescape encodeFragment frag of
                      Inl e \<Rightarrow> Inl (Wrap (''parse '' @ rawURL) e)
                    | Inr f \<Rightarrow> Inr (url\<lparr>u_Fragment := f\<rparr>))))"

definition url_IsAbs :: "url \<Rightarrow> bool" where "url_IsAbs u = (u_Scheme u \<noteq> [])"

definition splitHostPort_url :: "string \<Rightarrow> string \<times> string" where
  "splitHostPort_url hostPort =
     (let (host, port) =
            (case cut_last hostPort (CHR '':'') of
               Some (h, p) \<Rightarrow> if list_all is_digit p then (h, p) else (hostPort, [])
             | None \<Rightarrow> (hostPort, []))
      in (if go_HasPrefix host ''['' \<and> go_HasSuffix host '']'' then butlast (tl host) else host, port))"

definition url_Hostname :: "url \<Rightarrow> string" where "url_Hostname u = fst (splitHostPort_url (u_Host u))"
definition url_Port :: "url \<Rightarrow> string" where "url_Port u = snd (splitHostPort_url (u_Host u))"

definition validEncoded :: "string \<Rightarrow> encoding \<Rightarrow> bool" where
  "validEncoded s mode =
     list_all (\<lambda>c. c \<in> set (CHR 0x27 # ''!$&()*+,;=:@[]%'') \<or> \<not> shouldEscape c mode) s"

definition url_EscapedPath :: "url \<Rightarrow> string" where
  "url_EscapedPath u =
     (if u_RawPath u \<noteq> [] \<and> validEncoded (u_RawPath u) encodePath \<and>
         url_unescape encodePath (u_RawPath u) = Inr (u_Path u)
      then u_RawPath u
      else if u_Path u = ''*'' then ''*''
      else url_escape encodePath (u_Path u))"

definition user_String :: "string \<times> string option \<Rightarrow> string" where
  "user_String ui =
     (case ui of
        (u, None) \<Rightarrow> url_escape encodeUserPassword u
      | (u, Some p) \<Rightarrow> url_escape encodeUserPassword u @ '':'' @ url_escape encodeUserPassword p)"

text \<open>The fragment is written in its default encoding, which the code never reads.\<close>

definition url_String :: "url \<Rightarrow> string" where
  "url_String u =
     (let scheme = (if u_Scheme u = [] then [] else u_Scheme u @ '':'');
          authority =
            (if u_Scheme u = [] \<and> u_Host u = [] \<and> u_User u = None then []
             else if u_OmitHost u \<and> u_Host u = [] \<and> u_User u = None then []
             else (if u_Host u \<noteq> [] \<or> u_Path u \<noteq> [] \<or> u_User u \<noteq> None then ''//'' else []) @
                  (case u_User u of None \<Rightarrow> [] | Some ui \<Rightarrow> user_String ui @ ''@'') @
                  url_escape encodeHost (u_Host u));
          path = url_EscapedPath u;
          front = scheme @ authority @ (if path \<noteq> [] \<and> hd path \<noteq> CHR ''/'' \<and> u_Host u \<noteq> [] then ''/'' else []);
          dot = (if front = [] \<and> CHR '':'' \<in> set (fst (split_authority path)) then ''./'' else [])
      in (if u_Opaque u \<noteq> [] then scheme @ u_Opaque u else front @ dot @ path) @
         (if u_ForceQuery u \<or> u_RawQuery u \<noteq> [] then ''?'' @ u_RawQuery u else []) @
         (if u_Fragment u \<noteq> [] then ''#'' @ url_escape encodeFragment (u_Fragment u) else []))"

section \<open>Query values\<close>

definition values_Get :: "url_values \<Rightarrow> string \<Rightarrow> string" where
  "values_Get vs k = (case gm_get vs k of Some (v # _) \<Rightarrow> v | _ \<Rightarrow> [])"

definition values_Set :: "string \<Rightarrow> string \<Rightarrow> url_values \<Rightarrow> url_values" where
  "values_Set k v vs = gm_put k [v] vs"

definition values_Add :: "string \<Rightarrow> string \<Rightarrow> url_values \<Rightarrow> url_values" where
  "values_Add k v vs = gm_put k ((case gm_get vs k of Some xs \<Rightarrow> xs | None \<Rightarrow> []) @ [v]) vs"

definition values_Del :: "string \<Rightarrow> url_values \<Rightarrow> url_values" where
  "values_Del k vs = gm_del k vs"

text \<open>\<^verbatim>\<open>parseQuery\<close> skips a malformed setting and keeps going; \<^verbatim>\<open>URL.Query\<close> drops its error.\<close>

definition add_setting :: "string \<Rightarrow> url_values \<Rightarrow> url_values" where
  "add_setting setting m =
     (if setting = [] \<or> CHR '';'' \<in> set setting then m
      else
        (let (k, v) = (case go_Cut setting (CHR ''='') of None \<Rightarrow> (setting, []) | Some p \<Rightarrow> p)
         in (case (url_unescape encodeQueryComponent k, url_unescape encodeQueryComponent v) of
               (Inr k', Inr v') \<Rightarrow> values_Add k' v' m
             | _ \<Rightarrow> m)))"

definition parse_query :: "string \<Rightarrow> url_values" where
  "parse_query q = fold add_setting (go_Split q (CHR ''&'')) []"

definition url_Query :: "url \<Rightarrow> url_values" where
  "url_Query u = parse_query (u_RawQuery u)"

fun string_le :: "string \<Rightarrow> string \<Rightarrow> bool" where
  "string_le [] t = True"
| "string_le (c # s) [] = False"
| "string_le (c # s) (d # t) =
     (if code_of c < code_of d then True else if code_of d < code_of c then False else string_le s t)"

fun insert_sorted :: "string \<Rightarrow> string list \<Rightarrow> string list" where
  "insert_sorted k [] = [k]"
| "insert_sorted k (x # xs) = (if string_le k x then k # x # xs else x # insert_sorted k xs)"

definition sort_strings :: "string list \<Rightarrow> string list" where
  "sort_strings ks = foldr insert_sorted ks []"

definition query_pair :: "string \<Rightarrow> string \<Rightarrow> string" where
  "query_pair k v = url_escape encodeQueryComponent k @ ''='' @ url_escape encodeQueryComponent v"

definition values_Encode :: "url_values \<Rightarrow> string" where
  "values_Encode vs =
     go_Join (concat (map (\<lambda>k. map (query_pair k) (case gm_get vs k of Some xs \<Rightarrow> xs | None \<Rightarrow> []))
                (sort_strings (map fst vs)))) ''&''"

text \<open>\<^verbatim>\<open>net.SplitHostPort\<close>.\<close>

definition net_SplitHostPort :: "string \<Rightarrow> (string \<times> string) result" where
  "net_SplitHostPort hostport =
     (case cut_last hostport (CHR '':'') of
        None \<Rightarrow> Inl (Plain ''missing port in address'')
      | Some (host, port) \<Rightarrow>
          if hd hostport = CHR ''['' then
            (case go_Cut hostport (CHR '']'') of
               None \<Rightarrow> Inl (Plain ''missing bracket in address'')
             | Some (inside, rest) \<Rightarrow>
                 if rest = [] then Inl (Plain ''missing port in address'')
                 else if inside @ [CHR '']''] \<noteq> host then
                   (if hd rest = CHR '':'' then Inl (Plain ''too many colons in address'')
                    else Inl (Plain ''missing port in address''))
                 else if CHR ''['' \<in> set (tl hostport) then Inl (Plain ''unexpected bracket in address'')
                 else if CHR '']'' \<in> set rest then Inl (Plain ''unexpected bracket in address'')
                 else Inr (tl inside, port))
          else if CHR '':'' \<in> set host then Inl (Plain ''too many colons in address'')
          else if CHR ''['' \<in> set hostport then Inl (Plain ''unexpected bracket in address'')
          else if CHR '']'' \<in> set hostport then Inl (Plain ''unexpected bracket in address'')
          else Inr (host, port))"

section \<open>IP addresses\<close>

text \<open>An \<^verbatim>\<open>net.IP\<close>: 4 or 16 bytes; a 16-byte address may hold an IPv4 one behind the prefix ::ffff.\<close>

type_synonym ip = "8 word list"

definition v4InV6Prefix :: ip where
  "v4InV6Prefix = replicate 10 0 @ [0xff, 0xff]"

definition To4 :: "ip \<Rightarrow> ip option" where
  "To4 a =
     (if length a = 4 then Some a
      else if length a = 16 \<and> take 12 a = v4InV6Prefix then Some (drop 12 a) else None)"

unbundle bit_operations_syntax

definition IsLoopback :: "ip \<Rightarrow> bool" where
  "IsLoopback a =
     (case To4 a of Some b \<Rightarrow> b ! 0 = 127 | None \<Rightarrow> a = replicate 15 0 @ [1])"

definition IsPrivate :: "ip \<Rightarrow> bool" where
  "IsPrivate a =
     (case To4 a of
        Some b \<Rightarrow> b ! 0 = 10 \<or> (b ! 0 = 172 \<and> (b ! 1) AND 0xf0 = 16) \<or> (b ! 0 = 192 \<and> b ! 1 = 168)
      | None \<Rightarrow> length a = 16 \<and> (a ! 0) AND 0xfe = 0xfc)"

definition IsLinkLocalUnicast :: "ip \<Rightarrow> bool" where
  "IsLinkLocalUnicast a =
     (case To4 a of
        Some b \<Rightarrow> b ! 0 = 169 \<and> b ! 1 = 254
      | None \<Rightarrow> length a = 16 \<and> a ! 0 = 0xfe \<and> (a ! 1) AND 0xc0 = 0x80)"

definition IsLinkLocalMulticast :: "ip \<Rightarrow> bool" where
  "IsLinkLocalMulticast a =
     (case To4 a of
        Some b \<Rightarrow> b ! 0 = 224 \<and> b ! 1 = 0 \<and> b ! 2 = 0
      | None \<Rightarrow> length a = 16 \<and> a ! 0 = 0xff \<and> (a ! 1) AND 0x0f = 0x02)"

definition IsInterfaceLocalMulticast :: "ip \<Rightarrow> bool" where
  "IsInterfaceLocalMulticast a = (length a = 16 \<and> a ! 0 = 0xff \<and> (a ! 1) AND 0x0f = 0x01)"

definition IsMulticast :: "ip \<Rightarrow> bool" where
  "IsMulticast a =
     (case To4 a of Some b \<Rightarrow> (b ! 0) AND 0xf0 = 0xe0 | None \<Rightarrow> length a = 16 \<and> a ! 0 = 0xff)"

definition IsUnspecified :: "ip \<Rightarrow> bool" where
  "IsUnspecified a = (To4 a = Some (replicate 4 0) \<or> a = replicate 16 0)"

section \<open>Query encoding round trips\<close>

lemma code_upperhex: "n < 16 \<Longrightarrow> code_of (upperhex n) = (if n < 10 then 48 + n else 55 + n)"
  by (simp add: upperhex_def)

lemma upperhex_neq: "n < 16 \<Longrightarrow> code_of d < 48 \<or> 57 < code_of d \<and> code_of d < 65 \<Longrightarrow> upperhex n \<noteq> d"
  using code_upperhex [of n] by (auto split: if_splits)

lemma hex_digits: "n < 16 \<Longrightarrow> ishex (upperhex n) \<and> unhex (upperhex n) = n \<and> upperhex n \<noteq> CHR ''%''"
  using upperhex_neq [of n "CHR ''%''"] by (simp add: code_upperhex ishex_def unhex_def is_digit_def)

lemma code_bound: "code_of c < 256"
  by (metis of_char_of take_bit_nat_less_exp of_char_mod_256 mod_less_divisor zero_less_numeral)

lemma char_hex: "char_of (16 * (code_of c div 16) + code_of c mod 16) = c"
  by (simp add: mult.commute)

lemma query_reserved: "c \<in> set ''%+&=;#'' \<Longrightarrow> shouldEscape c encodeQueryComponent"
proof -
  have "\<forall>c \<in> set ''%+&=;#''. shouldEscape c encodeQueryComponent"
    by (simp add: shouldEscape_def is_alpha_def is_digit_def)
  then show "c \<in> set ''%+&=;#'' \<Longrightarrow> shouldEscape c encodeQueryComponent" by (rule bspec)
qed

lemma unescape_escape_char:
  "url_unescape encodeQueryComponent (escape_char encodeQueryComponent c @ s) =
     map_sum id ((#) c) (url_unescape encodeQueryComponent s)"
proof -
  have d: "code_of c div 16 < 16" "code_of c mod 16 < 16" by (simp_all add: less_mult_imp_div_less code_bound)
  consider "c = CHR '' ''" | "c \<noteq> CHR '' ''" "shouldEscape c encodeQueryComponent"
    | "c \<noteq> CHR '' ''" "\<not> shouldEscape c encodeQueryComponent" by blast
  then show ?thesis
  proof cases
    case 1
    then show ?thesis by (simp add: escape_char_def split: sum.splits)
  next
    case 2
    with hex_digits [OF d(1)] hex_digits [OF d(2)] show ?thesis
      by (simp add: escape_char_def char_hex Let_def split: sum.splits)
  next
    case 3
    with query_reserved [of c] have "c \<noteq> CHR ''%''" "c \<noteq> CHR ''+''" by auto
    with 3 show ?thesis by (simp add: escape_char_def split: sum.splits)
  qed
qed

lemma query_unescape_escape [simp]:
  "url_unescape encodeQueryComponent (url_escape encodeQueryComponent s) = Inr s"
  by (induction s) (simp_all add: url_escape_def unescape_escape_char)

lemma upperhex_set: "n < 16 \<Longrightarrow> upperhex n \<notin> set ''&=;#''"
  using upperhex_neq [of n] by auto

lemma escape_char_reserved: "x \<in> set ''&=;#'' \<Longrightarrow> x \<notin> set (escape_char encodeQueryComponent c)"
proof -
  assume x: "x \<in> set ''&=;#''"
  have d: "code_of c div 16 < 16" "code_of c mod 16 < 16" by (simp_all add: less_mult_imp_div_less code_bound)
  have "x \<noteq> upperhex (code_of c div 16)" "x \<noteq> upperhex (code_of c mod 16)"
    using x upperhex_set [OF d(1)] upperhex_set [OF d(2)] by metis+
  moreover have "x \<noteq> CHR ''%''" "x \<noteq> CHR ''+''" "shouldEscape x encodeQueryComponent"
    using x query_reserved [of x] by auto
  ultimately show ?thesis unfolding escape_char_def by auto
qed

lemma query_escape_reserved:
  "x \<in> set ''&=;#'' \<Longrightarrow> x \<notin> set (url_escape encodeQueryComponent s)"
  using escape_char_reserved by (auto simp: url_escape_def)

lemma add_setting_pair: "add_setting (query_pair k v) m = values_Add k v m"
proof -
  have "go_Cut (query_pair k v) (CHR ''='') =
    Some (url_escape encodeQueryComponent k, url_escape encodeQueryComponent v)"
    by (simp add: query_pair_def query_escape_reserved go_Cut_append)
  moreover have "CHR '';'' \<notin> set (query_pair k v)" "query_pair k v \<noteq> []"
    by (simp_all add: query_pair_def query_escape_reserved)
  ultimately show ?thesis by (simp add: add_setting_def)
qed

lemma go_Split_Join:
  "\<forall>x \<in> set xs. c \<notin> set x \<Longrightarrow> xs \<noteq> [] \<Longrightarrow> go_Split (go_Join xs [c]) c = xs"
  by (induction xs "[c]" rule: go_Join.induct) (simp_all add: go_Split_single go_Split_append)

definition query_pairs :: "url_values \<Rightarrow> (string \<times> string) list" where
  "query_pairs vs =
     concat (map (\<lambda>k. map (Pair k) (case gm_get vs k of Some xs \<Rightarrow> xs | None \<Rightarrow> [])) (sort_strings (map fst vs)))"

lemma values_Encode_pairs: "values_Encode vs = go_Join (map (\<lambda>(k, v). query_pair k v) (query_pairs vs)) ''&''"
  by (simp add: values_Encode_def query_pairs_def map_concat comp_def)

lemma parse_query_pairs:
  "parse_query (go_Join (map (\<lambda>(k, v). query_pair k v) ps) ''&'') = fold (\<lambda>(k, v). values_Add k v) ps []"
proof (cases "ps = []")
  case True
  then show ?thesis by (simp add: parse_query_def add_setting_def)
next
  case False
  have "\<forall>x \<in> set (map (\<lambda>(k, v). query_pair k v) ps). CHR ''&'' \<notin> set x"
    by (auto simp: query_pair_def query_escape_reserved)
  then have "go_Split (go_Join (map (\<lambda>(k, v). query_pair k v) ps) ''&'') (CHR ''&'') =
      map (\<lambda>(k, v). query_pair k v) ps"
    by (rule go_Split_Join) (simp add: False)
  moreover have "fold add_setting (map (\<lambda>(k, v). query_pair k v) ps) m = fold (\<lambda>(k, v). values_Add k v) ps m" for m
    by (induction ps arbitrary: m) (auto simp: add_setting_pair)
  ultimately show ?thesis by (simp add: parse_query_def)
qed

lemma gm_get_fold_add:
  "gm_get (fold (\<lambda>(k, v). values_Add k v) ps m) k =
     (let new = map snd (filter (\<lambda>p. fst p = k) ps)
      in if new = [] then gm_get m k
         else Some ((case gm_get m k of Some xs \<Rightarrow> xs | None \<Rightarrow> []) @ new))"
  by (induction ps arbitrary: m) (auto simp: values_Add_def Let_def split: option.splits)

lemma set_insert_sorted [simp]: "set (insert_sorted k xs) = insert k (set xs)"
  by (induction xs) auto

lemma distinct_insert_sorted: "distinct xs \<Longrightarrow> k \<notin> set xs \<Longrightarrow> distinct (insert_sorted k xs)"
  by (induction xs) auto

lemma set_sort_strings [simp]: "set (sort_strings ks) = set ks"
  by (induction ks) (auto simp: sort_strings_def)

lemma distinct_sort_strings: "distinct ks \<Longrightarrow> distinct (sort_strings ks)"
proof (induction ks)
  case (Cons k ks)
  have "set (foldr insert_sorted ks []) = set ks" using set_sort_strings by (simp add: sort_strings_def)
  with Cons show ?case by (auto simp: sort_strings_def intro: distinct_insert_sorted)
qed (simp add: sort_strings_def)

lemma filter_pairs:
  "distinct ks \<Longrightarrow>
   map snd (filter (\<lambda>p. fst p = k) (concat (map (\<lambda>k'. map (Pair k') (f k')) ks))) =
     (if k \<in> set ks then f k else [])"
proof (induction ks)
  case (Cons a ks)
  have "map snd (filter (\<lambda>p. fst p = k) (map (Pair a) (f a))) = (if a = k then f a else [])"
    by (auto simp: filter_map comp_def)
  with Cons show ?case by auto
qed simp

lemma query_values_roundtrip:
  assumes "gm_wf vs"
  shows "gm_get (parse_query (values_Encode vs)) k =
     (case gm_get vs k of Some (x # xs) \<Rightarrow> Some (x # xs) | _ \<Rightarrow> None)"
proof -
  have d: "distinct (sort_strings (map fst vs))"
    using assms by (simp add: gm_wf_def distinct_sort_strings)
  have "map snd (filter (\<lambda>p. fst p = k) (query_pairs vs)) = (case gm_get vs k of Some xs \<Rightarrow> xs | None \<Rightarrow> [])"
    unfolding query_pairs_def filter_pairs [OF d]
    by (cases "gm_get vs k") (auto simp: gm_get_None [symmetric])
  then show ?thesis
    by (auto simp: values_Encode_pairs parse_query_pairs gm_get_fold_add Let_def split: option.splits list.splits)
qed

lemma gm_wf_values [simp]:
  "gm_wf vs \<Longrightarrow> gm_wf (values_Set k v vs)" "gm_wf vs \<Longrightarrow> gm_wf (values_Add k v vs)"
  "gm_wf vs \<Longrightarrow> gm_wf (values_Del k vs)"
  by (simp_all add: values_Set_def values_Add_def values_Del_def)

lemma gm_wf_parse_query [simp]: "gm_wf (parse_query q)"
proof -
  have "gm_wf m \<Longrightarrow> gm_wf (add_setting x m)" for x m
    by (auto simp: add_setting_def Let_def split: sum.splits prod.splits)
  then have "gm_wf m \<Longrightarrow> gm_wf (fold add_setting xs m)" for xs m
    by (induction xs arbitrary: m) auto
  then show ?thesis by (simp add: parse_query_def)
qed

end
