(* ===== verification/GoEncoding.thy ===== *)
theory GoEncoding
  imports GoPrelude
begin

text \<open>
  Encodings the code uses: unpadded URL-safe base64 (\<^verbatim>\<open>base64.RawURLEncoding\<close>), decimal integers
  (\<^verbatim>\<open>strconv.FormatInt\<close>, \<^verbatim>\<open>strconv.ParseInt\<close>), quoting (\<^verbatim>\<open>%q\<close>) and durations
  (\<^verbatim>\<open>time.ParseDuration\<close>), with their round trips.
\<close>

section \<open>Base64\<close>

definition b64_char :: "nat \<Rightarrow> char" where
  "b64_char n =
     (if n < 26 then char_of (65 + n) else if n < 52 then char_of (71 + n)
      else if n < 62 then char_of (n - 4) else if n = 62 then CHR ''-'' else CHR ''_'')"

definition b64_val :: "char \<Rightarrow> nat option" where
  "b64_val c =
     (let n = of_char c :: nat
      in if 65 \<le> n \<and> n \<le> 90 then Some (n - 65)
         else if 97 \<le> n \<and> n \<le> 122 then Some (n - 71)
         else if 48 \<le> n \<and> n \<le> 57 then Some (n + 4)
         else if n = 45 then Some 62 else if n = 95 then Some 63 else None)"

fun sextets :: "nat list \<Rightarrow> nat list" where
  "sextets [] = []"
| "sextets [a] = [a div 4, a mod 4 * 16]"
| "sextets [a, b] = [a div 4, a mod 4 * 16 + b div 16, b mod 16 * 4]"
| "sextets (a # b # c # r) =
     a div 4 # (a mod 4 * 16 + b div 16) # (b mod 16 * 4 + c div 64) # c mod 64 # sextets r"

fun octets :: "nat list \<Rightarrow> nat list option" where
  "octets [] = Some []"
| "octets [a] = None"
| "octets [a, b] = Some [a * 4 + b div 16]"
| "octets [a, b, c] = Some [a * 4 + b div 16, b mod 16 * 16 + c div 4]"
| "octets (a # b # c # d # r) =
     map_option (\<lambda>t. (a * 4 + b div 16) # (b mod 16 * 16 + c div 4) # (c mod 4 * 64 + d) # t) (octets r)"

definition RawURL_EncodeToString :: "string \<Rightarrow> string" where
  "RawURL_EncodeToString s = map b64_char (sextets (map of_char s))"

fun b64_vals :: "string \<Rightarrow> nat list option" where
  "b64_vals [] = Some []"
| "b64_vals (c # s) =
     (if c = CHR 0x0A \<or> c = CHR 0x0D then b64_vals s
      else (case b64_val c of None \<Rightarrow> None | Some v \<Rightarrow> map_option ((#) v) (b64_vals s)))"

definition RawURL_DecodeString :: "string \<Rightarrow> string result" where
  "RawURL_DecodeString s =
     (case b64_vals s of
        None \<Rightarrow> Inl (Plain ''illegal base64 data'')
      | Some vs \<Rightarrow>
          (case octets vs of
             None \<Rightarrow> Inl (Plain ''illegal base64 data'')
           | Some bs \<Rightarrow> Inr (map char_of bs)))"

lemma sextets_bound: "\<forall>x \<in> set bs. x < 256 \<Longrightarrow> \<forall>x \<in> set (sextets bs). x < 64"
  by (induction bs rule: sextets.induct) (auto simp: less_mult_imp_div_less)

lemma octets_sextets: "\<forall>x \<in> set bs. x < 256 \<Longrightarrow> octets (sextets bs) = Some bs"
  by (induction bs rule: sextets.induct) auto

lemma b64_char_code:
  "n < 64 \<Longrightarrow> (of_char (b64_char n) :: nat) =
     (if n < 26 then 65 + n else if n < 52 then 71 + n else if n < 62 then n - 4 else if n = 62 then 45 else 95)"
  by (simp add: b64_char_def)

lemma b64_val_char: "n < 64 \<Longrightarrow> b64_val (b64_char n) = Some n"
  unfolding b64_val_def Let_def b64_char_code by auto

lemma b64_char_alphabet:
  assumes "n < 64" "(of_char c :: nat) < 45 \<or> of_char c \<in> {46, 47 :: nat} \<or> of_char c \<in> {58 ..< 65 :: nat} \<or> (122 :: nat) < of_char c"
  shows "b64_char n \<noteq> c"
  using b64_char_code [OF assms(1)] assms by (auto split: if_splits)

lemma b64_vals_chars: "\<forall>x \<in> set vs. x < 64 \<Longrightarrow> b64_vals (map b64_char vs) = Some vs"
proof (induction vs)
  case (Cons v vs)
  then have "b64_char v \<noteq> CHR 0x0A" "b64_char v \<noteq> CHR 0x0D"
    by (intro b64_char_alphabet; simp)+
  with Cons show ?case by (simp add: b64_val_char)
qed simp

lemma of_char_less: "(of_char (c :: char) :: nat) < 256"
  by (metis of_char_mod_256 mod_less_divisor zero_less_numeral)

lemma RawURL_Decode_Encode [simp]: "RawURL_DecodeString (RawURL_EncodeToString s) = Inr s"
proof -
  have b: "\<forall>x \<in> set (map of_char s). x < (256 :: nat)" by (simp add: of_char_less)
  then show ?thesis
    by (simp add: RawURL_DecodeString_def RawURL_EncodeToString_def b64_vals_chars [OF sextets_bound]
        octets_sextets comp_def)
qed

lemma RawURL_Encode_inj [simp]: "RawURL_EncodeToString s = RawURL_EncodeToString t \<longleftrightarrow> s = t"
  by (metis RawURL_Decode_Encode sum.inject(2))

lemma length_sextets: "length (sextets bs) = (4 * length bs + 2) div 3"
  by (induction bs rule: sextets.induct) (auto simp: algebra_simps)

lemma RawURL_length: "length (RawURL_EncodeToString s) = (4 * length s + 2) div 3"
  by (simp add: RawURL_EncodeToString_def length_sextets)

lemma RawURL_alphabet:
  assumes "x \<in> set (RawURL_EncodeToString s)"
  shows "x \<noteq> CHR ''|''" "x \<noteq> CHR ''.''" "x \<noteq> CHR ''&''" "x \<noteq> CHR ''=''" "x \<noteq> CHR '' ''" "x \<noteq> CHR ''/''"
proof -
  have "\<forall>x \<in> set (sextets (map of_char s)). x < (64 :: nat)" by (rule sextets_bound) (simp add: of_char_less)
  with assms obtain v where v: "v < 64" "x = b64_char v" by (auto simp: RawURL_EncodeToString_def)
  show "x \<noteq> CHR ''|''" "x \<noteq> CHR ''.''" "x \<noteq> CHR ''&''" "x \<noteq> CHR ''=''" "x \<noteq> CHR '' ''" "x \<noteq> CHR ''/''"
    unfolding v(2) by (intro b64_char_alphabet [OF v(1)]; simp)+
qed

section \<open>Decimal integers\<close>

definition dec_char :: "int \<Rightarrow> char" where "dec_char d = char_of (48 + nat d)"

function format_dec :: "int \<Rightarrow> string" where
  "format_dec n = (if n < 10 then [dec_char n] else format_dec (n div 10) @ [dec_char (n mod 10)])"
  by pat_completeness auto
termination by (relation "measure nat") auto

declare format_dec.simps [simp del]

definition FormatInt :: "int \<Rightarrow> string" where
  "FormatInt n = (if n < 0 then CHR ''-'' # format_dec (- n) else format_dec n)"

definition dec_digit :: "char \<Rightarrow> int option" where
  "dec_digit c = (let n = of_char c :: int in if 48 \<le> n \<and> n \<le> 57 then Some (n - 48) else None)"

fun parse_dec_acc :: "int \<Rightarrow> string \<Rightarrow> int option" where
  "parse_dec_acc acc [] = Some acc"
| "parse_dec_acc acc (c # s) =
     (case dec_digit c of None \<Rightarrow> None | Some d \<Rightarrow> parse_dec_acc (10 * acc + d) s)"

definition parse_dec :: "string \<Rightarrow> int option" where
  "parse_dec s = (if s = [] then None else parse_dec_acc 0 s)"

definition ParseInt64 :: "string \<Rightarrow> int result" where
  "ParseInt64 s =
     (let (neg, ds) =
            (case s of c # t \<Rightarrow> if c = CHR ''-'' then (True, t) else if c = CHR ''+'' then (False, t) else (False, s)
             | [] \<Rightarrow> (False, []))
      in (case parse_dec ds of
            None \<Rightarrow> Inl (Plain ''invalid syntax'')
          | Some n \<Rightarrow>
              (let v = (if neg then - n else n)
               in if in_int64 v then Inr v else Inl (Plain ''value out of range''))))"

lemma dec_digit_char: "0 \<le> d \<Longrightarrow> d < 10 \<Longrightarrow> dec_digit (dec_char d) = Some d"
proof -
  assume d: "0 \<le> d" "d < 10"
  have "(of_char (dec_char d) :: int) = int (of_char (dec_char d))" by (simp add: of_char_def)
  also have "\<dots> = 48 + d" using d by (simp add: dec_char_def)
  finally show ?thesis using d by (simp add: dec_digit_def Let_def)
qed

lemma parse_dec_acc_append:
  "parse_dec_acc acc (s @ t) = (case parse_dec_acc acc s of None \<Rightarrow> None | Some a \<Rightarrow> parse_dec_acc a t)"
  by (induction s arbitrary: acc) (auto split: option.splits)

lemma parse_format_dec_acc: "0 \<le> n \<Longrightarrow> parse_dec_acc 0 (format_dec n) = Some n"
proof (induction n rule: format_dec.induct)
  case (1 n)
  then show ?case
    by (subst format_dec.simps) (auto simp: parse_dec_acc_append dec_digit_char)
qed

lemma format_dec_nonempty [simp]: "format_dec n \<noteq> []"
  by (subst format_dec.simps) simp

lemma format_dec_digits: "0 \<le> n \<Longrightarrow> c \<in> set (format_dec n) \<Longrightarrow> dec_digit c \<noteq> None"
proof (induction n rule: format_dec.induct)
  case (1 n)
  have "dec_digit (dec_char (n mod 10)) \<noteq> None" by (simp add: dec_digit_char)
  moreover have "dec_digit (dec_char n) \<noteq> None" if "n < 10" using that 1(2) by (simp add: dec_digit_char)
  ultimately show ?case using 1 unfolding format_dec.simps [of n] by (auto split: if_splits)
qed

lemma parse_format_dec [simp]: "0 \<le> n \<Longrightarrow> parse_dec (format_dec n) = Some n"
  by (simp add: parse_dec_def parse_format_dec_acc)

lemma FormatInt_chars: "c \<in> set (FormatInt n) \<Longrightarrow> c = CHR ''-'' \<or> dec_digit c \<noteq> None"
  using format_dec_digits [of n c] format_dec_digits [of "- n" c]
  by (auto simp: FormatInt_def split: if_splits)

lemma ParseInt64_FormatInt_range:
  "ParseInt64 (FormatInt n) = (if in_int64 n then Inr n else Inl (Plain ''value out of range''))"
proof -
  have neg: ?thesis if "n < 0" using that by (simp add: ParseInt64_def FormatInt_def)
  have pos: ?thesis if n0: "0 \<le> n"
  proof -
    obtain c t where ct: "format_dec n = c # t" by (cases "format_dec n") auto
    have "dec_digit (CHR ''-'') = None" "dec_digit (CHR ''+'') = None" by (simp_all add: dec_digit_def)
    then have "c \<noteq> CHR ''-''" "c \<noteq> CHR ''+''" using format_dec_digits [OF n0, of c] ct by auto
    then have "(case format_dec n of [] \<Rightarrow> (False, []) | c # t \<Rightarrow>
        if c = CHR ''-'' then (True, t) else if c = CHR ''+'' then (False, t) else (False, format_dec n))
        = (False, format_dec n)" by (simp add: ct)
    with n0 show ?thesis by (simp add: ParseInt64_def FormatInt_def)
  qed
  show ?thesis using neg pos by (cases "n < 0") auto
qed

lemma ParseInt64_FormatInt: "in_int64 n \<Longrightarrow> ParseInt64 (FormatInt n) = Inr n"
  by (simp add: ParseInt64_FormatInt_range)

section \<open>Quoting\<close>

text \<open>
  \<^verbatim>\<open>%q\<close>: quotes and backslashes are escaped, control characters written as escapes; bytes above ASCII are
  taken as parts of printable runes.
\<close>

definition hex_low :: "nat \<Rightarrow> char" where
  "hex_low n = (if n < 10 then char_of (48 + n) else char_of (87 + n))"

definition quote_byte :: "char \<Rightarrow> string" where
  "quote_byte c =
     (let n = of_char c :: nat; bs = CHR 0x5C
      in if n = 34 \<or> n = 92 then [bs, c]
         else if n = 7 then [bs, CHR ''a''] else if n = 8 then [bs, CHR ''b'']
         else if n = 9 then [bs, CHR ''t''] else if n = 10 then [bs, CHR ''n'']
         else if n = 11 then [bs, CHR ''v''] else if n = 12 then [bs, CHR ''f'']
         else if n = 13 then [bs, CHR ''r'']
         else if n < 32 \<or> n = 127 then [bs, CHR ''x'', hex_low (n div 16), hex_low (n mod 16)]
         else [c])"

definition go_Quote :: "string \<Rightarrow> string" where
  "go_Quote s = [CHR 0x22] @ concat (map quote_byte s) @ [CHR 0x22]"

section \<open>Durations\<close>

text \<open>
  \<^verbatim>\<open>time.ParseDuration\<close> on the decimal grammar \<^verbatim>\<open>[-+]?([0-9]*(.[0-9]*)?unit)+\<close>, with its overflow
  checks on 64 bits; a fraction is cut to whole nanoseconds by exact arithmetic.
\<close>

definition is_dec :: "char \<Rightarrow> bool" where "is_dec c = (dec_digit c \<noteq> None)"

definition digits_val :: "string \<Rightarrow> int" where
  "digits_val s = (case parse_dec_acc 0 s of Some n \<Rightarrow> n | None \<Rightarrow> 0)"

definition duration_unit :: "string \<Rightarrow> int option" where
  "duration_unit u =
     (if u = ''ns'' then Some 1
      else if u = ''us'' \<or> u = [char_of (194 :: nat), char_of (181 :: nat), CHR ''s''] \<or>
              u = [char_of (206 :: nat), char_of (188 :: nat), CHR ''s''] then Some 1000
      else if u = ''ms'' then Some 1000000
      else if u = ''s'' then Some 1000000000
      else if u = ''m'' then Some 60000000000
      else if u = ''h'' then Some 3600000000000 else None)"

definition unit_char :: "char \<Rightarrow> bool" where "unit_char c = (c \<noteq> CHR ''.'' \<and> \<not> is_dec c)"

text \<open>The integer digits, the fraction digits and the rest of \<^verbatim>\<open>[0-9]*(.[0-9]*)?\<close>.\<close>

definition split_number :: "string \<Rightarrow> string \<times> string \<times> string" where
  "split_number s =
     (case dropWhile is_dec s of
        c # r \<Rightarrow> if c = CHR ''.'' then (takeWhile is_dec s, takeWhile is_dec r, dropWhile is_dec r)
                else (takeWhile is_dec s, [], c # r)
      | [] \<Rightarrow> (takeWhile is_dec s, [], []))"

lemma split_number_length: "length (snd (snd (split_number s))) \<le> length s"
proof (cases "dropWhile is_dec s")
  case Nil
  show ?thesis unfolding split_number_def Nil by simp
next
  case (Cons c r)
  then have "Suc (length r) \<le> length s" by (metis length_Cons length_dropWhile_le)
  moreover have "length (dropWhile is_dec r) \<le> length r" by (rule length_dropWhile_le)
  ultimately show ?thesis using Cons by (simp add: split_number_def)
qed

lemma dropWhile_shorter: "takeWhile P r \<noteq> [] \<Longrightarrow> length r \<le> n \<Longrightarrow> length (dropWhile P r) < n"
proof (cases r)
  case (Cons a list)
  assume "takeWhile P r \<noteq> []" "length r \<le> n"
  with Cons length_dropWhile_le [of P list] show ?thesis by (auto split: if_splits)
qed simp

function duration_loop :: "int \<Rightarrow> string \<Rightarrow> int option" where
  "duration_loop d s =
     (if s = [] then Some d
      else if unit_char (hd s) then None
      else
        (let ip = fst (split_number s); fp = fst (snd (split_number s)); r = snd (snd (split_number s));
             u = takeWhile unit_char r
         in if ip = [] \<and> fp = [] \<or> u = [] then None
            else (case duration_unit u of
                    None \<Rightarrow> None
                  | Some unit \<Rightarrow>
                      (let v = digits_val ip * unit + digits_val fp * unit div 10 ^ length fp;
                           d' = (d + v) mod 2 ^ 64
                       in if digits_val ip > 2 ^ 63 div unit \<or> v > 2 ^ 63 \<or> d' > 2 ^ 63 then None
                          else duration_loop d' (dropWhile unit_char r)))))"
  by pat_completeness auto

termination
proof (relation "measure (length \<circ> snd)", goal_cases)
  case (2 d s ip fp r u unit v d')
  then show ?case using dropWhile_shorter [of unit_char r "length s"] split_number_length [of s] by simp
qed simp

declare duration_loop.simps [simp del]

definition ParseDuration :: "string \<Rightarrow> duration result" where
  "ParseDuration s =
     (let (neg, r) =
            (case s of c # t \<Rightarrow> if c = CHR ''-'' then (True, t) else if c = CHR ''+'' then (False, t) else (False, s)
             | [] \<Rightarrow> (False, []))
      in if r = ''0'' then Inr 0
         else if r = [] then Inl (Plain ''time: invalid duration'')
         else (case duration_loop 0 r of
                 None \<Rightarrow> Inl (Plain ''time: invalid duration'')
               | Some d \<Rightarrow>
                   if neg then Inr (- d)
                   else if d > 2 ^ 63 - 1 then Inl (Plain ''time: invalid duration'')
                   else Inr d))"

end
