(* ===== verification/OAuthStorage.thy ===== *)
theory OAuthStorage
  imports GoHttp
begin

text \<open>
  Package storage (\<^verbatim>\<open>oauth/storage\<close>): the adapter between the OAuth engine (fosite) and a consumer's
  store of clients and sessions, and the in-memory store. The consumer store is the record
  \<open>StoreOps\<close>; the locale \<open>oauth_store\<close> states the laws of such a store and the in-memory store is
  interpreted in it. Fosite's session type is a parameter with its JSON codec (\<open>session_ops\<close>);
  slices are copied by the code wherever they cross a boundary, so plain values model them.
\<close>

section \<open>Data\<close>

definition SessionTypeAuthorizationCode :: string where
  "SessionTypeAuthorizationCode = ''authorization_code''"
definition SessionTypeAccessToken :: string where "SessionTypeAccessToken = ''access_token''"
definition SessionTypeRefreshToken :: string where "SessionTypeRefreshToken = ''refresh_token''"
definition SessionTypePKCE :: string where "SessionTypePKCE = ''pkce''"
definition SessionTypeOIDC :: string where "SessionTypeOIDC = ''oidc''"

lemmas session_types = SessionTypeAuthorizationCode_def SessionTypeAccessToken_def
  SessionTypeRefreshToken_def SessionTypePKCE_def SessionTypeOIDC_def

definition storage_ErrNotFound :: string where "storage_ErrNotFound = ''oauth storage: not found''"
definition ErrNotAClientMetadataURL :: string where
  "ErrNotAClientMetadataURL = ''oauth storage: not a client metadata URL''"

text \<open>The sentinel errors of fosite that the adapter returns.\<close>

definition fosite_ErrNotFound :: string where "fosite_ErrNotFound = ''not_found''"
definition fosite_ErrInvalidClient :: string where "fosite_ErrInvalidClient = ''invalid_client''"
definition fosite_ErrJTIKnown :: string where "fosite_ErrJTIKnown = ''jti_known''"
definition fosite_ErrInvalidatedAuthorizeCode :: string where
  "fosite_ErrInvalidatedAuthorizeCode = ''Authorization code has ben invalidated''"

lemmas storage_errors = storage_ErrNotFound_def ErrNotAClientMetadataURL_def fosite_ErrNotFound_def
  fosite_ErrInvalidClient_def fosite_ErrJTIKnown_def fosite_ErrInvalidatedAuthorizeCode_def

record Client =
  cl_ID :: string
  cl_Name :: string
  cl_RedirectURIs :: "string list"
  cl_GrantTypes :: "string list"
  cl_ResponseTypes :: "string list"
  cl_Scopes :: "string list"
  cl_Audience :: "string list"
  cl_IsPublic :: bool
  cl_ClientSecretHash :: string
  cl_TokenAuthMethod :: string
  cl_LogoURI :: string

type_synonym json_map = "json gomap"

record Session =
  se_Type :: string
  se_Signature :: string
  se_ClientID :: string
  se_RequestID :: string
  se_Scopes :: "string list"
  se_Data :: json_map
  se_Active :: bool
  se_ExpiresAt :: "gotime option"

record 'st StoreOps =
  st_GetClient :: "string \<Rightarrow> 'st \<Rightarrow> Client result"
  st_SaveClient :: "Client \<Rightarrow> 'st \<Rightarrow> unit result \<times> 'st"
  st_SaveSession :: "Session \<Rightarrow> 'st \<Rightarrow> unit result \<times> 'st"
  st_GetSession :: "string \<Rightarrow> string \<Rightarrow> 'st \<Rightarrow> Session result"
  st_SetSessionActive :: "string \<Rightarrow> string \<Rightarrow> bool \<Rightarrow> 'st \<Rightarrow> unit result \<times> 'st"
  st_DeleteSession :: "string \<Rightarrow> string \<Rightarrow> 'st \<Rightarrow> unit result \<times> 'st"
  st_DeleteSessionsByRequestID :: "string \<Rightarrow> string \<Rightarrow> 'st \<Rightarrow> unit result \<times> 'st"

text \<open>A client metadata resolver, at the moment it is asked; \<^term>\<open>None\<close> stands for a nil resolver.\<close>

type_synonym resolver = "(string \<Rightarrow> Client result) option"

section \<open>The in-memory store\<close>

record MemoryStore =
  ms_clients :: "Client gomap"
  ms_sessions :: "((string \<times> string) \<times> Session) list"

definition NewMemoryStore_oauth :: MemoryStore where
  "NewMemoryStore_oauth = \<lparr>ms_clients = [], ms_sessions = []\<rparr>"

definition mem_SaveClient :: "Client \<Rightarrow> MemoryStore \<Rightarrow> unit result \<times> MemoryStore" where
  "mem_SaveClient client s = (Inr (), s\<lparr>ms_clients := gm_put (cl_ID client) client (ms_clients s)\<rparr>)"

definition mem_GetClient :: "string \<Rightarrow> MemoryStore \<Rightarrow> Client result" where
  "mem_GetClient clientID s =
     (case gm_get (ms_clients s) clientID of
        None \<Rightarrow> Inl (Sentinel storage_ErrNotFound)
      | Some client \<Rightarrow> Inr client)"

definition mem_SaveSession :: "Session \<Rightarrow> MemoryStore \<Rightarrow> unit result \<times> MemoryStore" where
  "mem_SaveSession session s =
     (Inr (), s\<lparr>ms_sessions := AList.update (se_Type session, se_Signature session) session (ms_sessions s)\<rparr>)"

definition mem_GetSession :: "string \<Rightarrow> string \<Rightarrow> MemoryStore \<Rightarrow> Session result" where
  "mem_GetSession sessionType signature s =
     (case map_of (ms_sessions s) (sessionType, signature) of
        None \<Rightarrow> Inl (Sentinel storage_ErrNotFound)
      | Some session \<Rightarrow> Inr session)"

definition mem_SetSessionActive ::
  "string \<Rightarrow> string \<Rightarrow> bool \<Rightarrow> MemoryStore \<Rightarrow> unit result \<times> MemoryStore" where
  "mem_SetSessionActive sessionType signature active s =
     (case map_of (ms_sessions s) (sessionType, signature) of
        None \<Rightarrow> (Inl (Sentinel storage_ErrNotFound), s)
      | Some session \<Rightarrow>
          (Inr (), s\<lparr>ms_sessions :=
             AList.update (sessionType, signature) (session\<lparr>se_Active := active\<rparr>) (ms_sessions s)\<rparr>))"

definition mem_DeleteSession :: "string \<Rightarrow> string \<Rightarrow> MemoryStore \<Rightarrow> unit result \<times> MemoryStore" where
  "mem_DeleteSession sessionType signature s =
     (Inr (), s\<lparr>ms_sessions := AList.delete (sessionType, signature) (ms_sessions s)\<rparr>)"

definition mem_DeleteSessionsByRequestID ::
  "string \<Rightarrow> string \<Rightarrow> MemoryStore \<Rightarrow> unit result \<times> MemoryStore" where
  "mem_DeleteSessionsByRequestID sessionType requestID s =
     (Inr (), s\<lparr>ms_sessions :=
        filter (\<lambda>((ty, _), session). \<not> (ty = sessionType \<and> se_RequestID session = requestID))
          (ms_sessions s)\<rparr>)"

definition memory_StoreOps :: "MemoryStore StoreOps" where
  "memory_StoreOps =
     \<lparr>st_GetClient = mem_GetClient, st_SaveClient = mem_SaveClient,
      st_SaveSession = mem_SaveSession, st_GetSession = mem_GetSession,
      st_SetSessionActive = mem_SetSessionActive, st_DeleteSession = mem_DeleteSession,
      st_DeleteSessionsByRequestID = mem_DeleteSessionsByRequestID\<rparr>"

section \<open>Stored request data\<close>

datatype TokenType = AccessToken | RefreshToken | AuthorizeCode | IDToken

text \<open>
  What the adapter uses of a fosite session: its expiry times, the JSON value \<^verbatim>\<open>json.Marshal\<close>
  followed by decoding gives for it, and decoding into an existing session.
\<close>

record 'se session_ops =
  so_GetExpiresAt :: "'se \<Rightarrow> TokenType \<Rightarrow> gotime"
  so_MarshalJSON :: "'se \<Rightarrow> json result"
  so_UnmarshalJSON :: "json_map \<Rightarrow> 'se \<Rightarrow> 'se result"

record 'se Requester =
  rq_ID :: string
  rq_RequestedAt :: gotime
  rq_Client :: Client
  rq_Session :: "'se option"
  rq_GrantedScope :: "string list"
  rq_RequestedScope :: "string list"
  rq_RequestedAudience :: "string list"
  rq_GrantedAudience :: "string list"
  rq_Form :: url_values

record storedRequestData =
  sd_Session :: "json_map option"
  sd_Form :: url_values
  sd_RequestedAt :: gotime
  sd_RequestedScopes :: "string list"
  sd_GrantedScopes :: "string list"
  sd_RequestedAudience :: "string list"
  sd_GrantedAudience :: "string list"

definition sensitive_keys :: "string list" where
  "sensitive_keys = [''client_secret'', ''code_verifier'', ''password'', ''refresh_token'', ''token'']"

definition sanitizeRequestForm :: "url_values \<Rightarrow> url_values" where
  "sanitizeRequestForm vs = filter (\<lambda>(key, _). key \<notin> set sensitive_keys) vs"

definition cloneValues :: "url_values \<Rightarrow> url_values" where
  "cloneValues vs = map (\<lambda>(key, v). (key, v)) vs"

text \<open>
  \<^verbatim>\<open>json.Marshal\<close> of a value followed by decoding into a map: an object gives its members, \<^verbatim>\<open>null\<close> the nil
  map, anything else a decoding error.
\<close>

definition marshalJSONMap :: "json result \<Rightarrow> json_map option result" where
  "marshalJSONMap value =
     (case value of
        Inl e \<Rightarrow> Inl e
      | Inr (JObj m) \<Rightarrow> Inr (Some m)
      | Inr JNull \<Rightarrow> Inr None
      | Inr _ \<Rightarrow> Inl (Plain ''json: cannot unmarshal into map[string]interface {}''))"

text \<open>
  A \<^verbatim>\<open>time.Time\<close> is encoded as an RFC 3339 string with nanoseconds, \<open>JTime\<close> here, which fails when the
  year is not between 0 and 9999 (year 0 begins 366 days before the zero time, year 10000 on day
  3652059 after it). Under \<^verbatim>\<open>omitempty\<close> an empty slice or map is left out; a time never is.
\<close>

definition time_day :: int where "time_day = 24 * time_Hour"

definition time_MarshalJSON :: "gotime \<Rightarrow> json result" where
  "time_MarshalJSON t =
     (if - 366 * time_day \<le> t \<and> t < 3652059 * time_day then Inr (JTime t)
      else Inl (Plain ''Time.MarshalJSON: year outside of range [0,9999]''))"

definition json_strings :: "string list \<Rightarrow> json" where
  "json_strings xs = JArr (map JStr xs)"

definition omit_empty :: "string \<Rightarrow> 'a list \<Rightarrow> json \<Rightarrow> json_map" where
  "omit_empty name xs v = (if xs = [] then [] else [(name, v)])"

definition json_of_stored :: "storedRequestData \<Rightarrow> json result" where
  "json_of_stored sd =
     (case time_MarshalJSON (sd_RequestedAt sd) of
        Inl e \<Rightarrow> Inl e
      | Inr t \<Rightarrow> Inr (JObj
          ((case sd_Session sd of None \<Rightarrow> [] | Some m \<Rightarrow> omit_empty ''session'' m (JObj m)) @
           omit_empty ''form'' (sd_Form sd) (JObj (map (\<lambda>(k, vs). (k, json_strings vs)) (sd_Form sd))) @
           [(''requestedAt'', t)] @
           omit_empty ''requestedScopes'' (sd_RequestedScopes sd) (json_strings (sd_RequestedScopes sd)) @
           omit_empty ''grantedScopes'' (sd_GrantedScopes sd) (json_strings (sd_GrantedScopes sd)) @
           omit_empty ''requestedAudience'' (sd_RequestedAudience sd) (json_strings (sd_RequestedAudience sd)) @
           omit_empty ''grantedAudience'' (sd_GrantedAudience sd) (json_strings (sd_GrantedAudience sd)))))"

definition marshalRequestData ::
  "'se session_ops \<Rightarrow> gotime \<Rightarrow> 'se Requester \<Rightarrow> json_map result" where
  "marshalRequestData so now rq =
     (let stored = \<lparr>sd_Session = None,
                    sd_Form = sanitizeRequestForm (rq_Form rq),
                    sd_RequestedAt = (if time_IsZero (rq_RequestedAt rq) then now else rq_RequestedAt rq),
                    sd_RequestedScopes = rq_RequestedScope rq,
                    sd_GrantedScopes = rq_GrantedScope rq,
                    sd_RequestedAudience = rq_RequestedAudience rq,
                    sd_GrantedAudience = rq_GrantedAudience rq\<rparr>;
          finish = (\<lambda>sd. case marshalJSONMap (json_of_stored sd) of
                      Inl e \<Rightarrow> Inl e
                    | Inr None \<Rightarrow> Inr []
                    | Inr (Some m) \<Rightarrow> Inr m)
      in case rq_Session rq of
           None \<Rightarrow> finish stored
         | Some session \<Rightarrow>
             (case marshalJSONMap (so_MarshalJSON so session) of
                Inl e \<Rightarrow> Inl e
              | Inr m \<Rightarrow> finish (stored\<lparr>sd_Session := m\<rparr>)))"

text \<open>Decoding into the fields of \<^verbatim>\<open>storedRequestData\<close>; member names are matched exactly.\<close>

fun decode_string :: "json \<Rightarrow> string result" where
  "decode_string (JStr s) = Inr s"
| "decode_string JNull = Inr []"
| "decode_string _ = Inl (Plain ''json: cannot unmarshal into string'')"

fun decode_all :: "('a \<Rightarrow> 'b result) \<Rightarrow> 'a list \<Rightarrow> 'b list result" where
  "decode_all f [] = Inr []"
| "decode_all f (x # xs) =
     (case f x of
        Inl e \<Rightarrow> Inl e
      | Inr y \<Rightarrow> (case decode_all f xs of Inl e \<Rightarrow> Inl e | Inr ys \<Rightarrow> Inr (y # ys)))"

fun decode_strings :: "json option \<Rightarrow> string list result" where
  "decode_strings None = Inr []"
| "decode_strings (Some JNull) = Inr []"
| "decode_strings (Some (JArr xs)) = decode_all decode_string xs"
| "decode_strings (Some _) = Inl (Plain ''json: cannot unmarshal into []string'')"

definition decode_member :: "string \<times> json \<Rightarrow> (string \<times> string list) result" where
  "decode_member kv =
     (case decode_strings (Some (snd kv)) of Inl e \<Rightarrow> Inl e | Inr vs \<Rightarrow> Inr (fst kv, vs))"

fun decode_form :: "json option \<Rightarrow> url_values result" where
  "decode_form None = Inr []"
| "decode_form (Some JNull) = Inr []"
| "decode_form (Some (JObj m)) = decode_all decode_member m"
| "decode_form (Some _) = Inl (Plain ''json: cannot unmarshal into map[string][]string'')"

fun decode_time :: "json option \<Rightarrow> gotime result" where
  "decode_time None = Inr 0"
| "decode_time (Some JNull) = Inr 0"
| "decode_time (Some (JTime t)) = Inr t"
| "decode_time (Some _) = Inl (Plain ''Time.UnmarshalJSON'')"

fun decode_session :: "json option \<Rightarrow> json_map option result" where
  "decode_session None = Inr None"
| "decode_session (Some JNull) = Inr None"
| "decode_session (Some (JObj m)) = Inr (Some m)"
| "decode_session (Some _) = Inl (Plain ''json: cannot unmarshal into map[string]interface {}'')"

definition decode_stored :: "json_map \<Rightarrow> storedRequestData result" where
  "decode_stored m =
     bind_res (decode_session (gm_get m ''session'')) (\<lambda>se.
     bind_res (decode_form (gm_get m ''form'')) (\<lambda>form.
     bind_res (decode_time (gm_get m ''requestedAt'')) (\<lambda>t.
     bind_res (decode_strings (gm_get m ''requestedScopes'')) (\<lambda>rs.
     bind_res (decode_strings (gm_get m ''grantedScopes'')) (\<lambda>gs.
     bind_res (decode_strings (gm_get m ''requestedAudience'')) (\<lambda>ra.
     bind_res (decode_strings (gm_get m ''grantedAudience'')) (\<lambda>ga.
       Inr \<lparr>sd_Session = se, sd_Form = form, sd_RequestedAt = t, sd_RequestedScopes = rs,
            sd_GrantedScopes = gs, sd_RequestedAudience = ra, sd_GrantedAudience = ga\<rparr>)))))))"

definition empty_stored :: storedRequestData where
  "empty_stored = \<lparr>sd_Session = None, sd_Form = [], sd_RequestedAt = 0, sd_RequestedScopes = [],
     sd_GrantedScopes = [], sd_RequestedAudience = [], sd_GrantedAudience = []\<rparr>"

definition unmarshalStoredRequestData :: "json_map \<Rightarrow> storedRequestData result" where
  "unmarshalStoredRequestData data =
     (if data = [] then Inr empty_stored
      else if gm_get data ''session'' = None then Inr (empty_stored\<lparr>sd_Session := Some data\<rparr>)
      else (case decode_stored data of
              Inl e \<Rightarrow> Inl (Wrap ''unmarshal stored request data'' e)
            | Inr stored \<Rightarrow> Inr stored))"

section \<open>The adapter\<close>

definition storage_GetClient :: "'st StoreOps \<Rightarrow> resolver \<Rightarrow> string \<Rightarrow> 'st \<Rightarrow> Client result" where
  "storage_GetClient ops resolver cid s =
     (case st_GetClient ops cid s of
        Inr client \<Rightarrow> Inr client
      | Inl err \<Rightarrow>
          if \<not> errors_is err storage_ErrNotFound then Inl (Wrap ''query client'' err)
          else (case resolver of
                  None \<Rightarrow> Inl (Sentinel fosite_ErrNotFound)
                | Some resolve \<Rightarrow>
                    (case resolve cid of
                       Inr resolved \<Rightarrow> Inr resolved
                     | Inl resolveErr \<Rightarrow>
                         if errors_is resolveErr ErrNotAClientMetadataURL
                         then Inl (Sentinel fosite_ErrNotFound)
                         else Inl (Wrap ''client ID metadata document could not be resolved''
                                     (Sentinel fosite_ErrInvalidClient)))))"

definition ClientAssertionJWTValid :: "string \<Rightarrow> unit result" where
  "ClientAssertionJWTValid jti = Inl (Sentinel fosite_ErrJTIKnown)"

definition SetClientAssertionJWT :: "string \<Rightarrow> gotime \<Rightarrow> unit result" where
  "SetClientAssertionJWT jti expiry = Inl (Sentinel fosite_ErrInvalidClient)"

text \<open>The optional transaction interface; \<^term>\<open>None\<close> is a store that does not implement it.\<close>

record ('c, 'st) TransactionalStore =
  tx_BeginTX :: "'c \<Rightarrow> 'st \<Rightarrow> 'c result \<times> 'st"
  tx_Commit :: "'c \<Rightarrow> 'st \<Rightarrow> unit result \<times> 'st"
  tx_Rollback :: "'c \<Rightarrow> 'st \<Rightarrow> unit result \<times> 'st"

definition BeginTX :: "('c, 'st) TransactionalStore option \<Rightarrow> 'c \<Rightarrow> 'st \<Rightarrow> 'c result \<times> 'st" where
  "BeginTX tx ctx s = (case tx of Some t \<Rightarrow> tx_BeginTX t ctx s | None \<Rightarrow> (Inr ctx, s))"

definition Commit :: "('c, 'st) TransactionalStore option \<Rightarrow> 'c \<Rightarrow> 'st \<Rightarrow> unit result \<times> 'st" where
  "Commit tx ctx s = (case tx of Some t \<Rightarrow> tx_Commit t ctx s | None \<Rightarrow> (Inr (), s))"

definition Rollback :: "('c, 'st) TransactionalStore option \<Rightarrow> 'c \<Rightarrow> 'st \<Rightarrow> unit result \<times> 'st" where
  "Rollback tx ctx s = (case tx of Some t \<Rightarrow> tx_Rollback t ctx s | None \<Rightarrow> (Inr (), s))"

definition sessionTokenType :: "string \<Rightarrow> TokenType" where
  "sessionTokenType sessionType =
     (if sessionType \<in> {SessionTypeAuthorizationCode, SessionTypePKCE, SessionTypeOIDC} then AuthorizeCode
      else if sessionType = SessionTypeRefreshToken then RefreshToken
      else AccessToken)"

definition sessionExpiresAt :: "'se session_ops \<Rightarrow> string \<Rightarrow> 'se option \<Rightarrow> gotime" where
  "sessionExpiresAt so sessionType session =
     (case session of
        None \<Rightarrow> 0
      | Some se \<Rightarrow>
          (let expiresAt = so_GetExpiresAt so se (sessionTokenType sessionType)
           in if \<not> time_IsZero expiresAt then expiresAt else so_GetExpiresAt so se AccessToken))"

definition session_row ::
  "'se session_ops \<Rightarrow> string \<Rightarrow> string \<Rightarrow> 'se Requester \<Rightarrow> json_map \<Rightarrow> Session" where
  "session_row so sessionType signature rq data =
     \<lparr>se_Type = sessionType, se_Signature = signature, se_ClientID = cl_ID (rq_Client rq),
      se_RequestID = rq_ID rq, se_Scopes = rq_GrantedScope rq, se_Data = data, se_Active = True,
      se_ExpiresAt =
        (let t = sessionExpiresAt so sessionType (rq_Session rq) in if time_IsZero t then None else Some t)\<rparr>"

definition createSession ::
  "'st StoreOps \<Rightarrow> 'se session_ops \<Rightarrow> gotime \<Rightarrow> string \<Rightarrow> string \<Rightarrow> 'se Requester \<Rightarrow> 'st \<Rightarrow> unit result \<times> 'st" where
  "createSession ops so now sessionType signature rq s =
     (case marshalRequestData so now rq of
        Inl e \<Rightarrow> (Inl (Wrap ''marshal session'' e), s)
      | Inr data \<Rightarrow> st_SaveSession ops (session_row so sessionType signature rq data) s)"

definition rowToRequester ::
  "'st StoreOps \<Rightarrow> resolver \<Rightarrow> 'se session_ops \<Rightarrow> gotime \<Rightarrow> Session \<Rightarrow> 'se option \<Rightarrow> 'st \<Rightarrow> 'se Requester result" where
  "rowToRequester ops resolver so now row session s =
     bind_res (unmarshalStoredRequestData (se_Data row)) (\<lambda>stored.
     bind_res
       (case (session, sd_Session stored) of
          (Some se, Some data) \<Rightarrow>
            (case so_UnmarshalJSON so data se of
               Inl e \<Rightarrow> Inl (Wrap ''unmarshal session data'' e)
             | Inr se' \<Rightarrow> Inr (Some se'))
        | _ \<Rightarrow> Inr session) (\<lambda>session'.
     (case storage_GetClient ops resolver (se_ClientID row) s of
        Inl e \<Rightarrow> Inl (Wrap ''lookup client for session'' e)
      | Inr client \<Rightarrow>
          (let granted = (if sd_GrantedScopes stored \<noteq> [] then sd_GrantedScopes stored else se_Scopes row);
               requested = (if sd_RequestedScopes stored \<noteq> [] then sd_RequestedScopes stored else granted);
               requestedAt = (if time_IsZero (sd_RequestedAt stored) then now else sd_RequestedAt stored)
           in Inr \<lparr>rq_ID = se_RequestID row, rq_RequestedAt = requestedAt, rq_Client = client,
                   rq_Session = session', rq_GrantedScope = granted, rq_RequestedScope = requested,
                   rq_RequestedAudience = sd_RequestedAudience stored,
                   rq_GrantedAudience = sd_GrantedAudience stored,
                   rq_Form = cloneValues (sd_Form stored)\<rparr>))))"

text \<open>
  \<^verbatim>\<open>getSession\<close> returns a request and an error; an invalidated authorization code comes with both.
\<close>

definition getSession ::
  "'st StoreOps \<Rightarrow> resolver \<Rightarrow> 'se session_ops \<Rightarrow> gotime \<Rightarrow> string \<Rightarrow> string \<Rightarrow> 'se option \<Rightarrow> 'st \<Rightarrow>
   'se Requester option \<times> goerr option" where
  "getSession ops resolver so now sessionType signature session s =
     (case st_GetSession ops sessionType signature s of
        Inl err \<Rightarrow>
          if errors_is err storage_ErrNotFound then (None, Some (Sentinel fosite_ErrNotFound))
          else (None, Some (Wrap ''query session'' err))
      | Inr row \<Rightarrow>
          (case rowToRequester ops resolver so now row session s of
             Inl err \<Rightarrow> (None, Some err)
           | Inr requester \<Rightarrow>
               if \<not> se_Active row then
                 (if sessionType = SessionTypeAuthorizationCode
                  then (Some requester, Some (Sentinel fosite_ErrInvalidatedAuthorizeCode))
                  else (None, Some (Sentinel fosite_ErrNotFound)))
               else (Some requester, None)))"

definition deleteSession :: "'st StoreOps \<Rightarrow> string \<Rightarrow> string \<Rightarrow> 'st \<Rightarrow> unit result \<times> 'st" where
  "deleteSession ops sessionType signature s =
     (case st_DeleteSession ops sessionType signature s of
        (Inl err, s') \<Rightarrow> (Inl (Wrap ''delete session'' err), s')
      | (Inr u, s') \<Rightarrow> (Inr u, s'))"

definition CreateAuthorizeCodeSession ::
  "'st StoreOps \<Rightarrow> 'se session_ops \<Rightarrow> gotime \<Rightarrow> string \<Rightarrow> 'se Requester \<Rightarrow> 'st \<Rightarrow> unit result \<times> 'st" where
  "CreateAuthorizeCodeSession ops so now signature request s =
     createSession ops so now SessionTypeAuthorizationCode signature request s"

definition GetAuthorizeCodeSession ::
  "'st StoreOps \<Rightarrow> resolver \<Rightarrow> 'se session_ops \<Rightarrow> gotime \<Rightarrow> string \<Rightarrow> 'se option \<Rightarrow> 'st \<Rightarrow>
   'se Requester option \<times> goerr option" where
  "GetAuthorizeCodeSession ops resolver so now signature session s =
     getSession ops resolver so now SessionTypeAuthorizationCode signature session s"

definition InvalidateAuthorizeCodeSession :: "'st StoreOps \<Rightarrow> string \<Rightarrow> 'st \<Rightarrow> unit result \<times> 'st" where
  "InvalidateAuthorizeCodeSession ops code s =
     (case st_SetSessionActive ops SessionTypeAuthorizationCode code False s of
        (Inl err, s') \<Rightarrow> (Inl (Wrap ''invalidate authorize code'' err), s')
      | (Inr u, s') \<Rightarrow> (Inr u, s'))"

definition CreateAccessTokenSession ::
  "'st StoreOps \<Rightarrow> 'se session_ops \<Rightarrow> gotime \<Rightarrow> string \<Rightarrow> 'se Requester \<Rightarrow> 'st \<Rightarrow> unit result \<times> 'st" where
  "CreateAccessTokenSession ops so now signature request s =
     createSession ops so now SessionTypeAccessToken signature request s"

definition GetAccessTokenSession ::
  "'st StoreOps \<Rightarrow> resolver \<Rightarrow> 'se session_ops \<Rightarrow> gotime \<Rightarrow> string \<Rightarrow> 'se option \<Rightarrow> 'st \<Rightarrow>
   'se Requester option \<times> goerr option" where
  "GetAccessTokenSession ops resolver so now signature session s =
     getSession ops resolver so now SessionTypeAccessToken signature session s"

definition DeleteAccessTokenSession :: "'st StoreOps \<Rightarrow> string \<Rightarrow> 'st \<Rightarrow> unit result \<times> 'st" where
  "DeleteAccessTokenSession ops signature s = deleteSession ops SessionTypeAccessToken signature s"

definition CreateRefreshTokenSession ::
  "'st StoreOps \<Rightarrow> 'se session_ops \<Rightarrow> gotime \<Rightarrow> string \<Rightarrow> string \<Rightarrow> 'se Requester \<Rightarrow> 'st \<Rightarrow> unit result \<times> 'st" where
  "CreateRefreshTokenSession ops so now signature accessSignature request s =
     createSession ops so now SessionTypeRefreshToken signature request s"

definition GetRefreshTokenSession ::
  "'st StoreOps \<Rightarrow> resolver \<Rightarrow> 'se session_ops \<Rightarrow> gotime \<Rightarrow> string \<Rightarrow> 'se option \<Rightarrow> 'st \<Rightarrow>
   'se Requester option \<times> goerr option" where
  "GetRefreshTokenSession ops resolver so now signature session s =
     getSession ops resolver so now SessionTypeRefreshToken signature session s"

definition DeleteRefreshTokenSession :: "'st StoreOps \<Rightarrow> string \<Rightarrow> 'st \<Rightarrow> unit result \<times> 'st" where
  "DeleteRefreshTokenSession ops signature s = deleteSession ops SessionTypeRefreshToken signature s"

definition RotateRefreshToken :: "'st StoreOps \<Rightarrow> string \<Rightarrow> string \<Rightarrow> 'st \<Rightarrow> unit result \<times> 'st" where
  "RotateRefreshToken ops requestID refreshTokenSignature s =
     (case st_DeleteSessionsByRequestID ops SessionTypeAccessToken requestID s of
        (Inl err, s1) \<Rightarrow> (Inl (Wrap ''rotate: delete access tokens'' err), s1)
      | (Inr _, s1) \<Rightarrow>
          (case st_DeleteSessionsByRequestID ops SessionTypeRefreshToken requestID s1 of
             (Inl err, s2) \<Rightarrow> (Inl (Wrap ''rotate: delete refresh tokens'' err), s2)
           | (Inr _, s2) \<Rightarrow> (Inr (), s2)))"

definition RevokeAccessToken :: "'st StoreOps \<Rightarrow> string \<Rightarrow> 'st \<Rightarrow> unit result \<times> 'st" where
  "RevokeAccessToken ops requestID s = st_DeleteSessionsByRequestID ops SessionTypeAccessToken requestID s"

definition RevokeRefreshToken :: "'st StoreOps \<Rightarrow> string \<Rightarrow> 'st \<Rightarrow> unit result \<times> 'st" where
  "RevokeRefreshToken ops requestID s = st_DeleteSessionsByRequestID ops SessionTypeRefreshToken requestID s"

definition RevokeRefreshTokenMaybeGracePeriod ::
  "'st StoreOps \<Rightarrow> string \<Rightarrow> string \<Rightarrow> 'st \<Rightarrow> unit result \<times> 'st" where
  "RevokeRefreshTokenMaybeGracePeriod ops requestID signature s = RevokeRefreshToken ops requestID s"

definition CreatePKCERequestSession ::
  "'st StoreOps \<Rightarrow> 'se session_ops \<Rightarrow> gotime \<Rightarrow> string \<Rightarrow> 'se Requester \<Rightarrow> 'st \<Rightarrow> unit result \<times> 'st" where
  "CreatePKCERequestSession ops so now signature request s =
     createSession ops so now SessionTypePKCE signature request s"

definition GetPKCERequestSession ::
  "'st StoreOps \<Rightarrow> resolver \<Rightarrow> 'se session_ops \<Rightarrow> gotime \<Rightarrow> string \<Rightarrow> 'se option \<Rightarrow> 'st \<Rightarrow>
   'se Requester option \<times> goerr option" where
  "GetPKCERequestSession ops resolver so now signature session s =
     getSession ops resolver so now SessionTypePKCE signature session s"

definition DeletePKCERequestSession :: "'st StoreOps \<Rightarrow> string \<Rightarrow> 'st \<Rightarrow> unit result \<times> 'st" where
  "DeletePKCERequestSession ops signature s = deleteSession ops SessionTypePKCE signature s"

definition CreateOpenIDConnectSession ::
  "'st StoreOps \<Rightarrow> 'se session_ops \<Rightarrow> gotime \<Rightarrow> string \<Rightarrow> 'se Requester \<Rightarrow> 'st \<Rightarrow> unit result \<times> 'st" where
  "CreateOpenIDConnectSession ops so now signature request s =
     createSession ops so now SessionTypeOIDC signature request s"

definition GetOpenIDConnectSession ::
  "'st StoreOps \<Rightarrow> resolver \<Rightarrow> 'se session_ops \<Rightarrow> gotime \<Rightarrow> string \<Rightarrow> 'se Requester \<Rightarrow> 'st \<Rightarrow>
   'se Requester option \<times> goerr option" where
  "GetOpenIDConnectSession ops resolver so now authorizeCode requester s =
     getSession ops resolver so now SessionTypeOIDC authorizeCode (rq_Session requester) s"

definition DeleteOpenIDConnectSession :: "'st StoreOps \<Rightarrow> string \<Rightarrow> 'st \<Rightarrow> unit result \<times> 'st" where
  "DeleteOpenIDConnectSession ops signature s = deleteSession ops SessionTypeOIDC signature s"

definition ScopesFromString :: "string \<Rightarrow> string list" where
  "ScopesFromString scopes = go_Fields scopes"

lemmas create_defs = CreateAuthorizeCodeSession_def CreateAccessTokenSession_def
  CreateRefreshTokenSession_def CreatePKCERequestSession_def CreateOpenIDConnectSession_def

lemmas get_defs = GetAuthorizeCodeSession_def GetAccessTokenSession_def GetRefreshTokenSession_def
  GetPKCERequestSession_def GetOpenIDConnectSession_def

lemmas delete_defs = DeleteAccessTokenSession_def DeleteRefreshTokenSession_def
  DeletePKCERequestSession_def DeleteOpenIDConnectSession_def

lemmas revoke_defs = RevokeAccessToken_def RevokeRefreshToken_def
  RevokeRefreshTokenMaybeGracePeriod_def RotateRefreshToken_def

text \<open>The calls by which the OAuth engine and the registration endpoint change the store.\<close>

datatype 'se storage_call =
    CallCreateCode string "'se Requester"
  | CallInvalidateCode string
  | CallCreateAccess string "'se Requester"
  | CallDeleteAccess string
  | CallCreateRefresh string string "'se Requester"
  | CallDeleteRefresh string
  | CallRotate string string
  | CallRevokeAccess string
  | CallRevokeRefresh string
  | CallRevokeGrace string string
  | CallCreatePKCE string "'se Requester"
  | CallDeletePKCE string
  | CallCreateOIDC string "'se Requester"
  | CallDeleteOIDC string
  | CallSaveClient Client

fun exec_call ::
  "'st StoreOps \<Rightarrow> 'se session_ops \<Rightarrow> gotime \<Rightarrow> 'se storage_call \<Rightarrow> 'st \<Rightarrow> unit result \<times> 'st" where
  "exec_call ops so now (CallCreateCode c rq) s = CreateAuthorizeCodeSession ops so now c rq s"
| "exec_call ops so now (CallInvalidateCode c) s = InvalidateAuthorizeCodeSession ops c s"
| "exec_call ops so now (CallCreateAccess sg rq) s = CreateAccessTokenSession ops so now sg rq s"
| "exec_call ops so now (CallDeleteAccess sg) s = DeleteAccessTokenSession ops sg s"
| "exec_call ops so now (CallCreateRefresh sg asg rq) s = CreateRefreshTokenSession ops so now sg asg rq s"
| "exec_call ops so now (CallDeleteRefresh sg) s = DeleteRefreshTokenSession ops sg s"
| "exec_call ops so now (CallRotate rid sg) s = RotateRefreshToken ops rid sg s"
| "exec_call ops so now (CallRevokeAccess rid) s = RevokeAccessToken ops rid s"
| "exec_call ops so now (CallRevokeRefresh rid) s = RevokeRefreshToken ops rid s"
| "exec_call ops so now (CallRevokeGrace rid sg) s = RevokeRefreshTokenMaybeGracePeriod ops rid sg s"
| "exec_call ops so now (CallCreatePKCE sg rq) s = CreatePKCERequestSession ops so now sg rq s"
| "exec_call ops so now (CallDeletePKCE sg) s = DeletePKCERequestSession ops sg s"
| "exec_call ops so now (CallCreateOIDC c rq) s = CreateOpenIDConnectSession ops so now c rq s"
| "exec_call ops so now (CallDeleteOIDC c) s = DeleteOpenIDConnectSession ops c s"
| "exec_call ops so now (CallSaveClient c) s = st_SaveClient ops c s"

fun exec_calls ::
  "'st StoreOps \<Rightarrow> 'se session_ops \<Rightarrow> (gotime \<times> 'se storage_call) list \<Rightarrow> 'st \<Rightarrow> 'st" where
  "exec_calls ops so [] s = s"
| "exec_calls ops so ((now, c) # cs) s = exec_calls ops so cs (snd (exec_call ops so now c s))"

section \<open>Stored request data round trips\<close>

lemma gm_get_omit_empty [simp]:
  "gm_get (omit_empty n xs v @ m) k = (if k = n \<and> xs \<noteq> [] then Some v else gm_get m k)"
  "gm_get (omit_empty n xs v) k = (if k = n \<and> xs \<noteq> [] then Some v else None)"
  by (auto simp: omit_empty_def gm_get_def)

lemma gm_get_Cons [simp]: "gm_get ((n, v) # m) k = (if k = n then Some v else gm_get m k)"
  by (simp add: gm_get_def)

lemma decode_all_map: "(\<And>x. x \<in> set xs \<Longrightarrow> f (g x) = Inr x) \<Longrightarrow> decode_all f (map g xs) = Inr xs"
  by (induction xs) auto

lemma decode_strings_json [simp]: "decode_strings (Some (json_strings xs)) = Inr xs"
  by (simp add: json_strings_def decode_all_map)

lemma decode_form_json [simp]:
  "decode_form (Some (JObj (map (\<lambda>(k, vs). (k, json_strings vs)) f))) = Inr f"
  by (auto simp: decode_member_def split_def intro!: decode_all_map)

lemma decode_omitted [simp]:
  "decode_strings (if xs = [] then None else Some (json_strings xs)) = Inr xs"
  "decode_form (if f = [] then None else Some (JObj (map (\<lambda>(k, vs). (k, json_strings vs)) f))) = Inr f"
  "decode_session (if m = [] then None else Some (JObj m)) = Inr (if m = [] then None else Some m)"
  by (simp_all del: decode_form.simps(3))

definition nonempty_session :: "json_map option \<Rightarrow> json_map option" where
  "nonempty_session se = (case se of Some m \<Rightarrow> if m = [] then None else Some m | None \<Rightarrow> None)"

definition stored_members :: "storedRequestData \<Rightarrow> json_map" where
  "stored_members sd =
     (case sd_Session sd of None \<Rightarrow> [] | Some m \<Rightarrow> omit_empty ''session'' m (JObj m)) @
     omit_empty ''form'' (sd_Form sd) (JObj (map (\<lambda>(k, vs). (k, json_strings vs)) (sd_Form sd))) @
     [(''requestedAt'', JTime (sd_RequestedAt sd))] @
     omit_empty ''requestedScopes'' (sd_RequestedScopes sd) (json_strings (sd_RequestedScopes sd)) @
     omit_empty ''grantedScopes'' (sd_GrantedScopes sd) (json_strings (sd_GrantedScopes sd)) @
     omit_empty ''requestedAudience'' (sd_RequestedAudience sd) (json_strings (sd_RequestedAudience sd)) @
     omit_empty ''grantedAudience'' (sd_GrantedAudience sd) (json_strings (sd_GrantedAudience sd))"

lemma gm_get_append_some:
  "gm_get ((case se of None \<Rightarrow> [] | Some m \<Rightarrow> omit_empty n m (JObj m)) @ r) k =
     (if k = n \<and> nonempty_session se \<noteq> None then map_option JObj (nonempty_session se) else gm_get r k)"
  by (cases se) (simp_all add: nonempty_session_def)

lemma gm_get_stored_members:
  "gm_get (stored_members sd) ''session'' = map_option JObj (nonempty_session (sd_Session sd))"
  "gm_get (stored_members sd) ''form'' =
     (if sd_Form sd = [] then None else Some (JObj (map (\<lambda>(k, vs). (k, json_strings vs)) (sd_Form sd))))"
  "gm_get (stored_members sd) ''requestedAt'' = Some (JTime (sd_RequestedAt sd))"
  "gm_get (stored_members sd) ''requestedScopes'' =
     (if sd_RequestedScopes sd = [] then None else Some (json_strings (sd_RequestedScopes sd)))"
  "gm_get (stored_members sd) ''grantedScopes'' =
     (if sd_GrantedScopes sd = [] then None else Some (json_strings (sd_GrantedScopes sd)))"
  "gm_get (stored_members sd) ''requestedAudience'' =
     (if sd_RequestedAudience sd = [] then None else Some (json_strings (sd_RequestedAudience sd)))"
  "gm_get (stored_members sd) ''grantedAudience'' =
     (if sd_GrantedAudience sd = [] then None else Some (json_strings (sd_GrantedAudience sd)))"
  by (simp_all add: stored_members_def gm_get_append_some)

lemma decode_session_members [simp]: "decode_session (map_option JObj se) = Inr se"
  by (cases se) simp_all

lemma json_of_stored_members:
  "json_of_stored sd = map_sum id (\<lambda>_. JObj (stored_members sd)) (time_MarshalJSON (sd_RequestedAt sd))"
  by (simp add: json_of_stored_def stored_members_def time_MarshalJSON_def)

lemma decode_stored_members:
  "decode_stored (stored_members sd) = Inr (sd\<lparr>sd_Session := nonempty_session (sd_Session sd)\<rparr>)"
  unfolding decode_stored_def gm_get_stored_members decode_omitted decode_session_members
  by (simp add: bind_res_def)

lemma stored_members_nonempty: "stored_members sd \<noteq> []"
  by (simp add: stored_members_def)

lemma marshal_stored:
  "marshalJSONMap (json_of_stored sd) = Inr r \<Longrightarrow>
   r = Some (stored_members sd)"
  by (auto simp: json_of_stored_members time_MarshalJSON_def marshalJSONMap_def split: if_splits)

lemma unmarshal_members:
  "unmarshalStoredRequestData (stored_members sd) =
     (if nonempty_session (sd_Session sd) = None
      then Inr (empty_stored\<lparr>sd_Session := Some (stored_members sd)\<rparr>)
      else Inr (sd\<lparr>sd_Session := nonempty_session (sd_Session sd)\<rparr>))"
  by (simp add: unmarshalStoredRequestData_def stored_members_nonempty gm_get_stored_members
      decode_stored_members)

text \<open>The record that \<^const>\<open>marshalRequestData\<close> encodes.\<close>

definition stored_of :: "gotime \<Rightarrow> 'se Requester \<Rightarrow> json_map option \<Rightarrow> storedRequestData" where
  "stored_of now rq se =
     \<lparr>sd_Session = se, sd_Form = sanitizeRequestForm (rq_Form rq),
      sd_RequestedAt = (if time_IsZero (rq_RequestedAt rq) then now else rq_RequestedAt rq),
      sd_RequestedScopes = rq_RequestedScope rq, sd_GrantedScopes = rq_GrantedScope rq,
      sd_RequestedAudience = rq_RequestedAudience rq, sd_GrantedAudience = rq_GrantedAudience rq\<rparr>"

lemma marshalRequestData_Inr:
  assumes "marshalRequestData so now rq = Inr data"
  shows "\<exists>se. data = stored_members (stored_of now rq se) \<and>
    (case rq_Session rq of None \<Rightarrow> se = None
     | Some session \<Rightarrow> marshalJSONMap (so_MarshalJSON so session) = Inr se)"
  using assms
  by (auto simp: marshalRequestData_def Let_def stored_of_def split: option.splits sum.splits
      dest!: marshal_stored)

text \<open>
  A request saved without an OAuth session has no \<^verbatim>\<open>session\<close> member, so the row is later taken for one
  of the older format: the whole record is then read as the session, and the form, scopes and audiences
  of the request are lost.
\<close>

lemma nil_session_read_as_legacy:
  assumes "rq_Session rq = None" "marshalRequestData so now rq = Inr data"
  shows "unmarshalStoredRequestData data = Inr (empty_stored\<lparr>sd_Session := Some data\<rparr>)"
  using marshalRequestData_Inr [OF assms(2)] assms(1)
  by (auto simp: unmarshal_members nonempty_session_def stored_of_def)

section \<open>The contract of a consumer store\<close>

text \<open>The row \<open>r\<close> is one that the call \<open>c\<close> creates.\<close>

definition created_by :: "'se session_ops \<Rightarrow> gotime \<Rightarrow> 'se storage_call \<Rightarrow> string \<Rightarrow> string \<Rightarrow> Session \<Rightarrow> bool" where
  "created_by so now c ty sg r =
     (\<exists>rq data. marshalRequestData so now rq = Inr data \<and> r = session_row so ty sg rq data \<and>
        (c = CallCreateCode sg rq \<and> ty = SessionTypeAuthorizationCode \<or>
         c = CallCreateAccess sg rq \<and> ty = SessionTypeAccessToken \<or>
         (\<exists>asg. c = CallCreateRefresh sg asg rq \<and> ty = SessionTypeRefreshToken) \<or>
         c = CallCreatePKCE sg rq \<and> ty = SessionTypePKCE \<or>
         c = CallCreateOIDC sg rq \<and> ty = SessionTypeOIDC))"

locale oauth_store =
  fixes ops :: "'st StoreOps"
    and client_of :: "'st \<Rightarrow> string \<Rightarrow> Client option"
    and row_of :: "'st \<Rightarrow> string \<Rightarrow> string \<Rightarrow> Session option"
    and invar :: "'st \<Rightarrow> bool"
  assumes get_client:
      "invar s \<Longrightarrow> (case client_of s cid of
         Some c \<Rightarrow> st_GetClient ops cid s = Inr c
       | None \<Rightarrow> \<exists>e. st_GetClient ops cid s = Inl e \<and> errors_is e storage_ErrNotFound)"
    and save_client:
      "invar s \<Longrightarrow> \<exists>s'. st_SaveClient ops c s = (Inr (), s') \<and> invar s' \<and>
         client_of s' = (client_of s)(cl_ID c \<mapsto> c) \<and> row_of s' = row_of s"
    and get_row:
      "invar s \<Longrightarrow> (case row_of s ty sg of
         Some r \<Rightarrow> st_GetSession ops ty sg s = Inr r
       | None \<Rightarrow> \<exists>e. st_GetSession ops ty sg s = Inl e \<and> errors_is e storage_ErrNotFound)"
    and save_row:
      "invar s \<Longrightarrow> \<exists>s'. st_SaveSession ops r s = (Inr (), s') \<and> invar s' \<and> client_of s' = client_of s \<and>
         row_of s' = (\<lambda>ty sg. if ty = se_Type r \<and> sg = se_Signature r then Some r else row_of s ty sg)"
    and set_active:
      "invar s \<Longrightarrow> row_of s ty sg = Some r \<Longrightarrow>
       \<exists>s'. st_SetSessionActive ops ty sg b s = (Inr (), s') \<and> invar s' \<and> client_of s' = client_of s \<and>
         row_of s' = (\<lambda>ty' sg'. if ty' = ty \<and> sg' = sg then Some (r\<lparr>se_Active := b\<rparr>) else row_of s ty' sg')"
    and set_active_missing:
      "invar s \<Longrightarrow> row_of s ty sg = None \<Longrightarrow>
       \<exists>e. st_SetSessionActive ops ty sg b s = (Inl e, s)"
    and delete_row:
      "invar s \<Longrightarrow> \<exists>s'. st_DeleteSession ops ty sg s = (Inr (), s') \<and> invar s' \<and> client_of s' = client_of s \<and>
         row_of s' = (\<lambda>ty' sg'. if ty' = ty \<and> sg' = sg then None else row_of s ty' sg')"
    and delete_request:
      "invar s \<Longrightarrow> \<exists>s'. st_DeleteSessionsByRequestID ops ty rid s = (Inr (), s') \<and> invar s' \<and>
         client_of s' = client_of s \<and>
         row_of s' = (\<lambda>ty' sg. case row_of s ty' sg of
            Some r \<Rightarrow> if ty' = ty \<and> se_RequestID r = rid then None else Some r | None \<Rightarrow> None)"
begin

lemma createSession_Inr:
  assumes "invar s" "marshalRequestData so now rq = Inr data"
  shows "\<exists>s'. createSession ops so now ty sg rq s = (Inr (), s') \<and> invar s' \<and> client_of s' = client_of s \<and>
    row_of s' = (\<lambda>ty' sg'. if ty' = ty \<and> sg' = sg then Some (session_row so ty sg rq data) else row_of s ty' sg')"
  using assms save_row [OF assms(1), of "session_row so ty sg rq data"]
  by (auto simp: createSession_def) (auto simp: session_row_def)

lemma createSession_saved:
  assumes "invar s" "marshalRequestData so now rq = Inr data"
  obtains s' where "createSession ops so now ty sg rq s = (Inr (), s')" "invar s'"
    "client_of s' = client_of s" "row_of s' ty sg = Some (session_row so ty sg rq data)"
  using createSession_Inr [OF assms, of ty sg] by fastforce

lemma createSession_Inl:
  "marshalRequestData so now rq = Inl e \<Longrightarrow>
   createSession ops so now ty sg rq s = (Inl (Wrap ''marshal session'' e), s)"
  by (simp add: createSession_def)

lemma deleteSession_row:
  "invar s \<Longrightarrow> \<exists>s'. deleteSession ops ty sg s = (Inr (), s') \<and> invar s' \<and> client_of s' = client_of s \<and>
     row_of s' = (\<lambda>ty' sg'. if ty' = ty \<and> sg' = sg then None else row_of s ty' sg')"
  using delete_row [of s ty sg] by (auto simp: deleteSession_def)

lemma rotate_rows:
  assumes "invar s"
  shows "\<exists>s'. RotateRefreshToken ops rid rsig s = (Inr (), s') \<and> invar s' \<and> client_of s' = client_of s \<and>
    row_of s' = (\<lambda>ty sg. case row_of s ty sg of
       Some r \<Rightarrow> if ty \<in> {SessionTypeAccessToken, SessionTypeRefreshToken} \<and> se_RequestID r = rid
                 then None else Some r
     | None \<Rightarrow> None)"
proof -
  from delete_request [OF assms, of SessionTypeAccessToken rid] obtain s1 where
    s1: "st_DeleteSessionsByRequestID ops SessionTypeAccessToken rid s = (Inr (), s1)" "invar s1"
    "client_of s1 = client_of s"
    "row_of s1 = (\<lambda>ty' sg. case row_of s ty' sg of
      Some r \<Rightarrow> if ty' = SessionTypeAccessToken \<and> se_RequestID r = rid then None else Some r | None \<Rightarrow> None)"
    by blast
  from delete_request [OF s1(2), of SessionTypeRefreshToken rid] obtain s2 where
    "st_DeleteSessionsByRequestID ops SessionTypeRefreshToken rid s1 = (Inr (), s2)" "invar s2"
    "client_of s2 = client_of s1"
    "row_of s2 = (\<lambda>ty' sg. case row_of s1 ty' sg of
      Some r \<Rightarrow> if ty' = SessionTypeRefreshToken \<and> se_RequestID r = rid then None else Some r | None \<Rightarrow> None)"
    by blast
  with s1 show ?thesis
    by (auto simp: RotateRefreshToken_def fun_eq_iff split: option.splits)
qed

text \<open>What any call may do to one row: drop it, deactivate it, or replace it by a row it creates.\<close>

definition row_step :: "'se session_ops \<Rightarrow> gotime \<Rightarrow> 'se storage_call \<Rightarrow> 'st \<Rightarrow> 'st \<Rightarrow> bool" where
  "row_step so now c s s' =
     (invar s' \<and>
      (\<forall>ty sg r. row_of s' ty sg = Some r \<longrightarrow>
         row_of s ty sg = Some r \<or> (\<exists>r0. row_of s ty sg = Some r0 \<and> r = r0\<lparr>se_Active := False\<rparr>) \<or>
         created_by so now c ty sg r))"

lemma createSession_step:
  assumes "invar s" "\<And>rq' data. marshalRequestData so now rq' = Inr data \<Longrightarrow> rq' = rq \<Longrightarrow>
    created_by so now c ty sg (session_row so ty sg rq' data)"
  shows "row_step so now c s (snd (createSession ops so now ty sg rq s))"
proof (cases "marshalRequestData so now rq")
  case (Inl e)
  with assms show ?thesis by (simp add: createSession_Inl row_step_def)
next
  case (Inr data)
  from createSession_Inr [OF assms(1) Inr, of ty sg] assms(2) [OF Inr refl] show ?thesis
    by (auto simp: row_step_def split: if_splits)
qed

lemma deleteSession_step:
  "invar s \<Longrightarrow> row_step so now c s (snd (deleteSession ops ty sg s))"
  using deleteSession_row [of s ty sg] by (auto simp: row_step_def split: if_splits)

lemma delete_request_step:
  "invar s \<Longrightarrow> row_step so now c s (snd (st_DeleteSessionsByRequestID ops ty rid s))"
  using delete_request [of s ty rid] by (fastforce simp: row_step_def split: if_splits option.splits)

lemma invalidate_step:
  assumes "invar s"
  shows "row_step so now c s (snd (InvalidateAuthorizeCodeSession ops code s))"
proof (cases "row_of s SessionTypeAuthorizationCode code")
  case None
  from set_active_missing [OF assms None, of False] assms show ?thesis
    by (auto simp: InvalidateAuthorizeCodeSession_def row_step_def)
next
  case (Some r)
  from set_active [OF assms Some, of False] Some show ?thesis
    by (auto simp: InvalidateAuthorizeCodeSession_def row_step_def split: if_splits)
qed

lemma exec_call_step:
  assumes "invar s"
  shows "row_step so now c s (snd (exec_call ops so now c s))"
proof (cases c)
  case (CallRotate rid sg)
  with rotate_rows [OF assms, of rid sg] show ?thesis
    by (fastforce simp: row_step_def split: if_splits option.splits)
next
  case (CallSaveClient cl)
  with save_client [OF assms, of cl] show ?thesis by (auto simp: row_step_def)
qed (use assms in \<open>auto simp: create_defs delete_defs RevokeAccessToken_def RevokeRefreshToken_def
      RevokeRefreshTokenMaybeGracePeriod_def created_by_def
      intro!: createSession_step deleteSession_step delete_request_step invalidate_step\<close>)

lemma exec_calls_invar: "invar s \<Longrightarrow> invar (exec_calls ops so cs s)"
proof (induction cs arbitrary: s)
  case (Cons nc cs)
  with exec_call_step [of s so "fst nc" "snd nc"] show ?case
    by (cases nc) (simp add: row_step_def)
qed simp

text \<open>A property of rows that calls create and that deactivation keeps holds of every row.\<close>

lemma exec_calls_rows:
  assumes "invar s" "\<And>ty sg r. row_of s ty sg = Some r \<Longrightarrow> P ty sg r"
    and "\<And>ty sg r. P ty sg r \<Longrightarrow> P ty sg (r\<lparr>se_Active := False\<rparr>)"
    and "\<And>now c ty sg r. (now, c) \<in> set cs \<Longrightarrow> created_by so now c ty sg r \<Longrightarrow> P ty sg r"
    and "row_of (exec_calls ops so cs s) ty sg = Some r"
  shows "P ty sg r"
  using assms(1,2,4,5)
proof (induction cs arbitrary: s)
  case (Cons nc cs)
  obtain now c where nc: "nc = (now, c)" by (cases nc)
  have st: "row_step so now c s (snd (exec_call ops so now c s))" by (rule exec_call_step [OF Cons(2)])
  then have "invar (snd (exec_call ops so now c s))" by (simp add: row_step_def)
  moreover have "P ty sg r" if "row_of (snd (exec_call ops so now c s)) ty sg = Some r" for ty sg r
    using st that Cons(3) Cons(4) [of now c ty sg r] assms(3) unfolding row_step_def nc
    by (metis list.set_intros(1))
  moreover have "row_of (exec_calls ops so cs (snd (exec_call ops so now c s))) ty sg = Some r"
    using Cons(5) nc by simp
  ultimately show ?case using Cons(1) Cons(4) by (meson list.set_intros(2))
qed simp

lemma get_code_inactive:
  assumes "invar s" "\<And>r. row_of s SessionTypeAuthorizationCode code = Some r \<Longrightarrow> \<not> se_Active r"
  shows "snd (GetAuthorizeCodeSession ops resolver so now code session s) \<noteq> None"
  using get_row [OF assms(1), of SessionTypeAuthorizationCode code] assms(2)
  by (auto simp: GetAuthorizeCodeSession_def getSession_def split: option.splits sum.splits)

lemma code_stays_invalid:
  assumes "invar s" "InvalidateAuthorizeCodeSession ops code s = (Inr (), s1)"
    and "\<forall>(t, c) \<in> set cs. \<forall>rq. c \<noteq> CallCreateCode code rq"
  shows "snd (GetAuthorizeCodeSession ops resolver so now code session (exec_calls ops so cs s1)) \<noteq> None"
proof -
  obtain r0 where r0: "row_of s SessionTypeAuthorizationCode code = Some r0"
    using assms(2) set_active_missing [OF assms(1), of SessionTypeAuthorizationCode code False]
    by (cases "row_of s SessionTypeAuthorizationCode code")
       (auto simp: InvalidateAuthorizeCodeSession_def)
  from set_active [OF assms(1) r0, of False] assms(2) have inv: "invar s1"
    and row: "row_of s1 SessionTypeAuthorizationCode code = Some (r0\<lparr>se_Active := False\<rparr>)"
    by (auto simp: InvalidateAuthorizeCodeSession_def)
  let ?P = "\<lambda>ty sg r. ty = SessionTypeAuthorizationCode \<and> sg = code \<longrightarrow> \<not> se_Active r"
  have "\<not> se_Active r" if "row_of (exec_calls ops so cs s1) SessionTypeAuthorizationCode code = Some r" for r
    using exec_calls_rows [OF inv, of ?P cs so SessionTypeAuthorizationCode code r] that row assms(3)
    by (fastforce simp: created_by_def session_types)
  then show ?thesis by (intro get_code_inactive exec_calls_invar inv)
qed

lemma getSession_Some_row:
  assumes "invar s" "getSession ops resolver so now ty sg session s = (Some rq, e)"
  shows "\<exists>r. row_of s ty sg = Some r \<and> rowToRequester ops resolver so now r session s = Inr rq"
  using get_row [OF assms(1), of ty sg] assms(2)
  by (auto simp: getSession_def split: option.splits sum.splits if_splits)

end

section \<open>The in-memory store meets the contract\<close>

definition mem_inv :: "MemoryStore \<Rightarrow> bool" where
  "mem_inv s = (distinct (map fst (ms_sessions s)) \<and> gm_wf (ms_clients s))"

lemma map_of_filter_distinct:
  "distinct (map fst xs) \<Longrightarrow>
   map_of (filter P xs) k = (case map_of xs k of Some v \<Rightarrow> if P (k, v) then Some v else None | None \<Rightarrow> None)"
proof (induction xs)
  case (Cons x xs)
  have none: "map_of xs (fst x) = None" using Cons(2) by (simp add: map_of_eq_None_iff)
  with Cons show ?case by (cases x) auto
qed simp

lemma distinct_fst_filter: "distinct (map fst xs) \<Longrightarrow> distinct (map fst (filter P xs))"
  by (auto simp: distinct_map intro: inj_on_subset)

interpretation mst: oauth_store memory_StoreOps "\<lambda>s. gm_get (ms_clients s)"
  "\<lambda>s ty sg. map_of (ms_sessions s) (ty, sg)" mem_inv
proof (unfold_locales, goal_cases)
  case (1 s cid)
  then show ?case by (simp add: memory_StoreOps_def mem_GetClient_def split: option.splits)
next
  case (2 s c)
  then show ?case by (auto simp: memory_StoreOps_def mem_SaveClient_def mem_inv_def fun_eq_iff)
next
  case (3 s ty sg)
  then show ?case by (simp add: memory_StoreOps_def mem_GetSession_def split: option.splits)
next
  case (4 s r)
  then show ?case
    by (auto simp: memory_StoreOps_def mem_SaveSession_def mem_inv_def distinct_update update_conv' fun_eq_iff)
next
  case (5 s ty sg r b)
  then show ?case
    by (auto simp: memory_StoreOps_def mem_SetSessionActive_def mem_inv_def distinct_update update_conv' fun_eq_iff)
next
  case (6 s ty sg b)
  then show ?case by (simp add: memory_StoreOps_def mem_SetSessionActive_def)
next
  case (7 s ty sg)
  then show ?case
    by (auto simp: memory_StoreOps_def mem_DeleteSession_def mem_inv_def distinct_delete delete_conv' fun_eq_iff)
next
  case (8 s ty rid)
  then show ?case
    by (auto simp: memory_StoreOps_def mem_DeleteSessionsByRequestID_def mem_inv_def
        map_of_filter_distinct distinct_fst_filter fun_eq_iff split: option.splits)
qed

section \<open>Concrete instances\<close>

definition ex_session_ops :: "string session_ops" where
  "ex_session_ops =
     \<lparr>so_GetExpiresAt = (\<lambda>_ _. 0), so_MarshalJSON = (\<lambda>se. Inr (JObj [(''sub'', JStr se)])),
      so_UnmarshalJSON = (\<lambda>m _. case gm_get m ''sub'' of Some (JStr se) \<Rightarrow> Inr se | _ \<Rightarrow> Inl (Plain ''sub''))\<rparr>"

definition ex_client :: Client where
  "ex_client = \<lparr>cl_ID = ''c'', cl_Name = ''demo'', cl_RedirectURIs = [''https://app.example/cb''],
     cl_GrantTypes = [], cl_ResponseTypes = [], cl_Scopes = [''read''], cl_Audience = [],
     cl_IsPublic = True, cl_ClientSecretHash = [], cl_TokenAuthMethod = ''none'', cl_LogoURI = []\<rparr>"

definition ex_request :: "string Requester" where
  "ex_request = \<lparr>rq_ID = ''r1'', rq_RequestedAt = 5, rq_Client = ex_client, rq_Session = Some ''alice'',
     rq_GrantedScope = [''read''], rq_RequestedScope = [''read'', ''write''], rq_RequestedAudience = [],
     rq_GrantedAudience = [''https://mcp.example''],
     rq_Form = [(''code_verifier'', [''v'']), (''state'', [''x''])]\<rparr>"

definition ex_store :: MemoryStore where
  "ex_store = \<lparr>ms_clients = [(''c'', ex_client)], ms_sessions = []\<rparr>"

lemma ex_store_inv: "mem_inv ex_store"
  by (simp add: mem_inv_def ex_store_def gm_wf_def)

section \<open>Properties\<close>

text \<open>Decoding a session into a fresh one gives back the session that was encoded.\<close>

definition session_codec_ok :: "'se session_ops \<Rightarrow> 'se \<Rightarrow> bool" where
  "session_codec_ok so fresh =
     (\<forall>se. \<exists>m. so_MarshalJSON so se = Inr (JObj m) \<and> m \<noteq> [] \<and> so_UnmarshalJSON so m fresh = Inr se)"

lemma ex_codec: "session_codec_ok ex_session_ops fresh"
  by (simp add: session_codec_ok_def ex_session_ops_def)

lemma marshalRequestData_ok:
  assumes "so_MarshalJSON so se = Inr (JObj m)" "rq_Session rq = Some se"
    and "0 < rq_RequestedAt rq" "rq_RequestedAt rq < 3652059 * time_day"
  shows "marshalRequestData so now rq = Inr (stored_members (stored_of now rq (Some m)))"
  using assms
  by (simp add: marshalRequestData_def Let_def marshalJSONMap_def json_of_stored_members
      time_MarshalJSON_def stored_of_def time_day_def time_Hour_def time_Minute_def time_Second_def
      time_IsZero_def)



text \<open>
  C29 (an authorization code is used once). Once a code has been invalidated, reading its session fails
  after every sequence of storage calls that does not issue that same code again.
\<close>

theorem authorize_code_single_use:
  assumes "mem_inv s" "InvalidateAuthorizeCodeSession memory_StoreOps code s = (Inr (), s1)"
    and "\<forall>(t, c) \<in> set calls. \<forall>rq. c \<noteq> CallCreateCode code rq"
  shows "snd (GetAuthorizeCodeSession memory_StoreOps resolver so now code session
           (exec_calls memory_StoreOps so calls s1)) \<noteq> None"
  by (rule mst.code_stays_invalid [OF assms])

definition ex_store_code :: MemoryStore where
  "ex_store_code = snd (CreateAuthorizeCodeSession memory_StoreOps ex_session_ops 9 ''abc'' ex_request ex_store)"

theorem authorize_code_single_use_witness:
  "snd (GetAuthorizeCodeSession memory_StoreOps None ex_session_ops 10 ''abc'' (Some [])
     (exec_calls memory_StoreOps ex_session_ops [(9, CallRevokeAccess ''r1''), (9, CallCreateCode ''abd'' ex_request)]
       (snd (InvalidateAuthorizeCodeSession memory_StoreOps ''abc'' ex_store_code)))) \<noteq> None"
proof -
  have "marshalRequestData ex_session_ops 9 ex_request =
    Inr (stored_members (stored_of 9 ex_request (Some [(''sub'', JStr ''alice'')])))"
    by (rule marshalRequestData_ok)
      (simp_all add: ex_session_ops_def ex_request_def time_day_def time_Hour_def time_Minute_def time_Second_def)
  then obtain s0 where s0:
    "createSession memory_StoreOps ex_session_ops 9 SessionTypeAuthorizationCode ''abc'' ex_request ex_store = (Inr (), s0)"
    "mem_inv s0" "map_of (ms_sessions s0) (SessionTypeAuthorizationCode, ''abc'') \<noteq> None"
    using mst.createSession_saved [OF ex_store_inv] by (metis option.distinct(1))
  then have inv: "mem_inv ex_store_code"
    and row: "map_of (ms_sessions ex_store_code) (SessionTypeAuthorizationCode, ''abc'') \<noteq> None"
    by (simp_all add: ex_store_code_def CreateAuthorizeCodeSession_def)
  from row obtain s1 where s1: "InvalidateAuthorizeCodeSession memory_StoreOps ''abc'' ex_store_code = (Inr (), s1)"
    by (auto simp: InvalidateAuthorizeCodeSession_def memory_StoreOps_def mem_SetSessionActive_def)
  have "\<forall>(t, c) \<in> set [(9, CallRevokeAccess ''r1''), (9, CallCreateCode ''abd'' ex_request)].
      \<forall>rq. c \<noteq> CallCreateCode ''abc'' rq" by simp
  from authorize_code_single_use [OF inv s1 this] s1 show ?thesis by simp
qed

definition clean_row :: "Session \<Rightarrow> bool" where
  "clean_row r =
     (\<forall>form. decode_form (gm_get (se_Data r) ''form'') = Inr form \<longrightarrow> fst ` set form \<inter> set sensitive_keys = {})"

lemma clean_marshal:
  assumes "marshalRequestData so now rq = Inr data"
  shows "clean_row (session_row so ty sg rq data)"
proof -
  from marshalRequestData_Inr [OF assms] obtain se where data: "data = stored_members (stored_of now rq se)" by blast
  have "decode_form (gm_get data ''form'') = Inr (sanitizeRequestForm (rq_Form rq))"
    unfolding data gm_get_stored_members decode_omitted by (simp add: stored_of_def)
  then show ?thesis by (auto simp: clean_row_def session_row_def sanitizeRequestForm_def)
qed

lemma clean_row_read:
  assumes "clean_row r" "rowToRequester ops resolver so now r session s = Inr rq" "k \<in> set sensitive_keys"
  shows "gm_get (rq_Form rq) k = None"
proof -
  from assms(2) obtain stored where stored: "unmarshalStoredRequestData (se_Data r) = Inr stored"
    and form: "rq_Form rq = cloneValues (sd_Form stored)"
    by (auto simp: rowToRequester_def bind_res_def Let_def split: sum.splits option.splits)
  from stored have "sd_Form stored = [] \<or> decode_form (gm_get (se_Data r) ''form'') = Inr (sd_Form stored)"
    by (auto simp: unmarshalStoredRequestData_def empty_stored_def decode_stored_def bind_res_def
        split: if_splits sum.splits)
  with assms(1) have "fst ` set (sd_Form stored) \<inter> set sensitive_keys = {}"
    by (auto simp: clean_row_def)
  with form assms(3) show ?thesis by (auto simp: gm_get_None cloneValues_def)
qed

text \<open>
  C31 (no secret is persisted). Whatever sequence of storage calls built the store, a request read back
  from it carries no client secret, PKCE verifier, password, refresh token or token in its form.
\<close>

theorem stored_forms_hold_no_secrets:
  assumes "getSession memory_StoreOps resolver so now ty sg session
             (exec_calls memory_StoreOps so calls NewMemoryStore_oauth) = (Some rq, e)"
    and "k \<in> {''client_secret'', ''code_verifier'', ''password'', ''refresh_token'', ''token''}"
  shows "gm_get (rq_Form rq) k = None"
proof -
  have inv: "mem_inv NewMemoryStore_oauth" by (simp add: mem_inv_def NewMemoryStore_oauth_def)
  from mst.getSession_Some_row [OF mst.exec_calls_invar [OF inv] assms(1)] obtain r where
    row: "map_of (ms_sessions (exec_calls memory_StoreOps so calls NewMemoryStore_oauth)) (ty, sg) = Some r"
    and rq: "rowToRequester memory_StoreOps resolver so now r session
      (exec_calls memory_StoreOps so calls NewMemoryStore_oauth) = Inr rq" by blast
  have "clean_row r"
    using row by (rule mst.exec_calls_rows [OF inv, where P = "\<lambda>ty sg. clean_row", rotated -1])
      (auto simp: NewMemoryStore_oauth_def clean_row_def created_by_def dest: clean_marshal [unfolded clean_row_def])
  from clean_row_read [OF this rq] assms(2) show ?thesis by (simp add: sensitive_keys_def)
qed

definition ex_calls :: "(gotime \<times> string storage_call) list" where
  "ex_calls = [(1, CallSaveClient ex_client), (9, CallCreateAccess ''sig'' ex_request),
     (9, CallCreatePKCE ''sig'' ex_request), (9, CallCreateRefresh ''ref'' ''sig'' ex_request)]"

lemmas ex_eval = ex_calls_def ex_client_def ex_request_def ex_session_ops_def ex_store_def
  memory_StoreOps_def mem_SaveClient_def mem_SaveSession_def mem_GetSession_def mem_GetClient_def
  create_defs createSession_def get_defs getSession_def marshalRequestData_def marshalJSONMap_def
  json_of_stored_def time_MarshalJSON_def sanitizeRequestForm_def sensitive_keys_def
  session_row_def sessionExpiresAt_def sessionTokenType_def session_types rowToRequester_def
  unmarshalStoredRequestData_def decode_stored_def decode_member_def json_strings_def omit_empty_def
  storage_GetClient_def cloneValues_def bind_res_def time_IsZero_def time_day_def time_Hour_def
  time_Minute_def time_Second_def NewMemoryStore_oauth_def gm_put_def gm_get_def Let_def

lemma ex_get_access:
  "getSession memory_StoreOps None ex_session_ops 10 ''access_token'' ''sig'' (Some [])
     (exec_calls memory_StoreOps ex_session_ops ex_calls NewMemoryStore_oauth)
   = (Some (ex_request\<lparr>rq_Form := [(''state'', [''x''])]\<rparr>), None)"
  by (simp add: ex_eval)

theorem stored_forms_hold_no_secrets_witness:
  "getSession memory_StoreOps None ex_session_ops 10 ''access_token'' ''sig'' (Some [])
     (exec_calls memory_StoreOps ex_session_ops ex_calls NewMemoryStore_oauth)
   = (Some (ex_request\<lparr>rq_Form := [(''state'', [''x''])]\<rparr>), None) \<and>
   gm_get (rq_Form (ex_request\<lparr>rq_Form := [(''state'', [''x''])]\<rparr>)) ''code_verifier'' = None"
  using ex_get_access stored_forms_hold_no_secrets [OF ex_get_access, of "''code_verifier''"] by blast

text \<open>
  C32 (refresh rotation). Rotating a refresh token succeeds and makes every access and refresh token
  session of that request unreadable, while sessions of other types or of other requests, and the
  clients, stay as they were.
\<close>

theorem rotate_refresh_token:
  assumes "mem_inv s"
  shows "\<exists>s'. RotateRefreshToken memory_StoreOps rid sig s = (Inr (), s') \<and> mem_inv s' \<and>
    (\<forall>ty sg. mem_GetSession ty sg s' =
       (case mem_GetSession ty sg s of
          Inl e \<Rightarrow> Inl e
        | Inr r \<Rightarrow> if (ty = ''access_token'' \<or> ty = ''refresh_token'') \<and> se_RequestID r = rid
                  then Inl (Sentinel storage_ErrNotFound) else Inr r)) \<and>
    (\<forall>cid. mem_GetClient cid s' = mem_GetClient cid s)"
proof -
  from mst.rotate_rows [OF assms, of rid sig] obtain s' where
    s': "RotateRefreshToken memory_StoreOps rid sig s = (Inr (), s')" "mem_inv s'"
    "gm_get (ms_clients s') = gm_get (ms_clients s)"
    and rows: "(\<lambda>ty sg. map_of (ms_sessions s') (ty, sg)) = (\<lambda>ty sg. case map_of (ms_sessions s) (ty, sg) of
       Some r \<Rightarrow> if ty \<in> {SessionTypeAccessToken, SessionTypeRefreshToken} \<and> se_RequestID r = rid
                 then None else Some r
     | None \<Rightarrow> None)" by blast
  note rows = fun_cong [OF fun_cong [OF rows]]
  from s' show ?thesis
    by (auto simp: mem_GetSession_def mem_GetClient_def session_types rows split: option.splits)
qed

theorem rotate_refresh_token_witness:
  "\<exists>s'. RotateRefreshToken memory_StoreOps ''r1'' ''ref''
          (exec_calls memory_StoreOps ex_session_ops ex_calls NewMemoryStore_oauth) = (Inr (), s') \<and>
    mem_GetSession ''access_token'' ''sig'' s' = Inl (Sentinel storage_ErrNotFound) \<and>
    (\<exists>r. mem_GetSession ''pkce'' ''sig'' s' = Inr r)"
proof -
  let ?s = "exec_calls memory_StoreOps ex_session_ops ex_calls NewMemoryStore_oauth"
  have "mem_inv ?s" by (rule mst.exec_calls_invar) (simp add: mem_inv_def NewMemoryStore_oauth_def)
  moreover have "\<exists>r. mem_GetSession ''access_token'' ''sig'' ?s = Inr r \<and> se_RequestID r = ''r1''"
    by (simp add: ex_eval)
  moreover have "\<exists>r. mem_GetSession ''pkce'' ''sig'' ?s = Inr r" by (simp add: ex_eval)
  ultimately show ?thesis using rotate_refresh_token [of ?s "''r1''" "''ref''"] by fastforce
qed

text \<open>
  A registered client always wins over a metadata document; an unknown identifier
  that is no metadata URL is reported as not found, and a metadata document that cannot be resolved
  as an invalid client, whose cause is not part of the error.
\<close>

lemma storage_client_lookup:
  "storage_GetClient memory_StoreOps resolver cid s =
     (case gm_get (ms_clients s) cid of
        Some client \<Rightarrow> Inr client
      | None \<Rightarrow>
          (case resolver of
             None \<Rightarrow> Inl (Sentinel fosite_ErrNotFound)
           | Some resolve \<Rightarrow>
               (case resolve cid of
                  Inr client \<Rightarrow> Inr client
                | Inl e \<Rightarrow> if errors_is e ErrNotAClientMetadataURL then Inl (Sentinel fosite_ErrNotFound)
                          else Inl (Wrap ''client ID metadata document could not be resolved''
                                      (Sentinel fosite_ErrInvalidClient)))))"
  by (auto simp: storage_GetClient_def memory_StoreOps_def mem_GetClient_def split: option.splits sum.splits)

end
