(* ===== verification/BearerAuth.thy ===== *)
theory BearerAuth
  imports GoHttp
begin

text \<open>
  Bearer authentication (\<^verbatim>\<open>oauth/middleware.go\<close>, \<^verbatim>\<open>oauth/pat.go\<close>, \<^verbatim>\<open>oauth/token_validator.go\<close>,
  \<^verbatim>\<open>oauth/error.go\<close>, \<^verbatim>\<open>oauth/verify.go\<close>): the middleware that authenticates a request by personal
  access token or by OAuth introspection, the scope checks behind it, and the challenge they answer
  with. A handler maps a request and a response writer to the writer after it; the OAuth engine's
  introspection, its \<^verbatim>\<open>Arguments.Has\<close> and the consumer's token service are parameters.
\<close>

section \<open>Requests and their context\<close>

text \<open>
  The values the middleware keeps in the request context; \<^term>\<open>None\<close> is an absent key.
\<close>

record reqctx =
  cx_auth_disabled :: "bool option"
  cx_user_id :: "string option"
  cx_scopes :: "string list option"
  cx_scope_type :: "string option"
  cx_scope_target :: "string option"
  cx_auth_source :: "string option"

definition context_Background :: reqctx where
  "context_Background = \<lparr>cx_auth_disabled = None, cx_user_id = None, cx_scopes = None,
     cx_scope_type = None, cx_scope_target = None, cx_auth_source = None\<rparr>"

record http_request =
  r_Method :: string
  r_Header :: header
  r_Ctx :: reqctx

type_synonym handler = "http_request \<Rightarrow> writer \<Rightarrow> writer"

definition AuthSourceOAuth2 :: string where "AuthSourceOAuth2 = ''oauth2''"
definition AuthSourcePAT :: string where "AuthSourcePAT = ''pat''"

definition WithAuthDisabled :: "reqctx \<Rightarrow> reqctx" where
  "WithAuthDisabled ctx = ctx\<lparr>cx_auth_disabled := Some True\<rparr>"

definition IsAuthDisabled :: "reqctx \<Rightarrow> bool" where
  "IsAuthDisabled ctx = (cx_auth_disabled ctx = Some True)"

definition WithScopes :: "reqctx \<Rightarrow> string list \<Rightarrow> reqctx" where
  "WithScopes ctx scopes = ctx\<lparr>cx_scopes := Some scopes\<rparr>"

definition ctx_string :: "string option \<Rightarrow> string" where
  "ctx_string v = (case v of None \<Rightarrow> [] | Some s \<Rightarrow> s)"

definition GetUserID :: "reqctx \<Rightarrow> string" where "GetUserID ctx = ctx_string (cx_user_id ctx)"
definition GetScopeType :: "reqctx \<Rightarrow> string" where "GetScopeType ctx = ctx_string (cx_scope_type ctx)"
definition GetScopeTarget :: "reqctx \<Rightarrow> string" where "GetScopeTarget ctx = ctx_string (cx_scope_target ctx)"
definition GetAuthSource :: "reqctx \<Rightarrow> string" where "GetAuthSource ctx = ctx_string (cx_auth_source ctx)"

definition GetScopes :: "reqctx \<Rightarrow> string list" where
  "GetScopes ctx = (case cx_scopes ctx of None \<Rightarrow> [] | Some xs \<Rightarrow> xs)"

section \<open>Personal access tokens\<close>

record PATEntity =
  pe_ID :: string
  pe_UserID :: string
  pe_Scopes :: "string list"

record Servicer =
  sv_ValidateToken :: "string \<Rightarrow> PATEntity result"
  sv_GetTokenScope :: "string \<Rightarrow> (string \<times> string) result"
  sv_UpdateLastUsed :: "string \<Rightarrow> unit result"

record PATAuthResult =
  pr_UserID :: string
  pr_TokenID :: string
  pr_ScopeType :: string
  pr_ScopeTarget :: string
  pr_Scopes :: "string list"

text \<open>A validator returns a possibly nil result or an error.\<close>

type_synonym pat_validate = "string \<Rightarrow> PATAuthResult option result"

definition ValidateAndResolve :: "Servicer \<Rightarrow> pat_validate" where
  "ValidateAndResolve service rawToken =
     (case sv_ValidateToken service rawToken of
        Inl e \<Rightarrow> Inl (Wrap ''validate PAT'' e)
      | Inr pat \<Rightarrow>
          (case sv_GetTokenScope service (pe_ID pat) of
             Inl e \<Rightarrow> Inl (Wrap ''get PAT scope'' e)
           | Inr (scopeType, scopeTarget) \<Rightarrow>
               Inr (Some \<lparr>pr_UserID = pe_UserID pat, pr_TokenID = pe_ID pat, pr_ScopeType = scopeType,
                          pr_ScopeTarget = scopeTarget, pr_Scopes = pe_Scopes pat\<rparr>)))"

definition validatePAT :: "pat_validate \<Rightarrow> string \<Rightarrow> PATAuthResult option" where
  "validatePAT validator token = (case validator token of Inl _ \<Rightarrow> None | Inr r \<Rightarrow> r)"

section \<open>Challenges\<close>

definition quote_char :: "char \<Rightarrow> string" where
  "quote_char c =
     (if c = CHR 0x5C then [CHR 0x5C, CHR 0x5C] else if c = CHR 0x22 then [CHR 0x5C, CHR 0x22] else [c])"

definition quoteAuthParam :: "string \<Rightarrow> string" where
  "quoteAuthParam v = concat (map quote_char v)"

definition challengeScopeHint :: "string list \<Rightarrow> string" where
  "challengeScopeHint scopes = go_Join (filter (\<lambda>s. s \<noteq> []) (map go_TrimSpace scopes)) '' ''"

definition writeOAuthErrorBody :: "string \<Rightarrow> string \<Rightarrow> writer \<Rightarrow> writer" where
  "writeOAuthErrorBody code description w =
     w_Write (JsonDoc (JObj [(''error'', JStr code), (''error_description'', JStr description)])) w"

definition StatusUnauthorized :: int where "StatusUnauthorized = 401"
definition StatusForbidden :: int where "StatusForbidden = 403"

definition dq :: string where "dq = [CHR 0x22]"

definition auth_param :: "string \<Rightarrow> string \<Rightarrow> string" where
  "auth_param name v = '', '' @ name @ ''='' @ dq @ v @ dq"

definition challenge_base :: "string \<Rightarrow> string" where
  "challenge_base resourceMetadataURL =
     ''Bearer realm='' @ dq @ ''OAuth'' @ dq @
     (if resourceMetadataURL = [] then []
      else auth_param ''resource_metadata'' (quoteAuthParam resourceMetadataURL))"

definition writeBearerChallenge :: "string \<Rightarrow> string \<Rightarrow> int \<Rightarrow> writer \<Rightarrow> writer" where
  "writeBearerChallenge resourceMetadataURL requiredScope status w =
     (let challenge = challenge_base resourceMetadataURL;
          w1 = w_header (header_Set ''Content-Type'' ''application/json'' \<circ>
                         header_Set ''WWW-Authenticate'' challenge) w
      in if status = StatusForbidden then
           (let w2 = (if requiredScope \<noteq> [] then
                        w_header (header_Set ''WWW-Authenticate''
                          (challenge @ auth_param ''error'' ''insufficient_scope'' @
                           auth_param ''error_description'' (''Requires scope: '' @ quoteAuthParam requiredScope) @
                           auth_param ''scope'' (quoteAuthParam requiredScope))) w1
                      else w1)
            in writeOAuthErrorBody ''insufficient_scope'' (''requires scope: '' @ requiredScope)
                 (w_WriteHeader status w2))
         else
           writeOAuthErrorBody ''invalid_token'' ''Missing or invalid access token''
             (w_WriteHeader status
               (w_header (header_Set ''WWW-Authenticate''
                  (challenge @ auth_param ''error'' ''invalid_token'' @
                   auth_param ''error_description'' ''Missing or invalid access token'')) w1)))"

section \<open>The bearer middleware\<close>

text \<open>
  What the middleware reads of an introspected request; \<open>ar_ExpiresAt\<close> is its session's expiry of
  the access token, \<open>ar_Subject\<close> the session's subject.
\<close>

record AccessRequester =
  ar_GrantedAudience :: "string list"
  ar_GrantedScopes :: "string list"
  ar_ExpiresAt :: gotime
  ar_Subject :: string

record BearerConfig =
  bc_Introspector :: "(string \<Rightarrow> AccessRequester result) option"
  bc_ResourceMetadataURL :: string
  bc_RequiredScopes :: "string list"
  bc_TokenValidator :: "pat_validate option"
  bc_MaxUsageRecorders :: int
  bc_AllowUnauthenticated :: bool
  bc_ExpectedAudience :: string

text \<open>
  The usage limiter is a buffered channel; its content is the list of tokens whose usage is being
  recorded. \<^verbatim>\<open>make\<close> panics on a negative size, \<^term>\<open>None\<close> here.
\<close>

type_synonym usage = "string list"

definition usage_capacity :: "BearerConfig \<Rightarrow> nat option" where
  "usage_capacity cfg =
     (let n = (if bc_MaxUsageRecorders cfg = 0 then 32 else bc_MaxUsageRecorders cfg)
      in if n < 0 then None else Some (nat n))"

definition recordPATUsage :: "string \<Rightarrow> nat \<Rightarrow> usage \<Rightarrow> usage" where
  "recordPATUsage tokenID capacity u = (if length u < capacity then u @ [tokenID] else u)"

definition contextWithPAT :: "reqctx \<Rightarrow> PATAuthResult \<Rightarrow> reqctx" where
  "contextWithPAT ctx result =
     WithScopes (ctx\<lparr>cx_user_id := Some (pr_UserID result), cx_scope_type := Some (pr_ScopeType result),
                    cx_scope_target := Some (pr_ScopeTarget result),
                    cx_auth_source := Some AuthSourcePAT\<rparr>) (pr_Scopes result)"

definition contextWithOAuth :: "reqctx \<Rightarrow> AccessRequester \<Rightarrow> reqctx" where
  "contextWithOAuth ctx request =
     WithScopes (ctx\<lparr>cx_user_id := Some (ar_Subject request), cx_auth_source := Some AuthSourceOAuth2\<rparr>)
       (ar_GrantedScopes request)"

definition extractBearerToken :: "http_request \<Rightarrow> string" where
  "extractBearerToken r =
     (case go_Cut (header_Get (r_Header r) ''Authorization'') (CHR '' '') of
        None \<Rightarrow> []
      | Some (scheme, token) \<Rightarrow>
          if go_EqualFold scheme ''Bearer'' then go_TrimSpace token else [])"

definition r_WithContext :: "http_request \<Rightarrow> reqctx \<Rightarrow> http_request" where
  "r_WithContext r ctx = r\<lparr>r_Ctx := ctx\<rparr>"

definition Bearer ::
  "(string list \<Rightarrow> string \<Rightarrow> bool) \<Rightarrow> BearerConfig \<Rightarrow> nat \<Rightarrow> gotime \<Rightarrow> handler \<Rightarrow> http_request \<Rightarrow>
   usage \<times> writer \<Rightarrow> usage \<times> writer" where
  "Bearer args_Has cfg capacity now next_handler r s =
     (let (u, w) = s;
          unauthorized = (u, writeBearerChallenge (bc_ResourceMetadataURL cfg)
                               (challengeScopeHint (bc_RequiredScopes cfg)) StatusUnauthorized w);
          token = extractBearerToken r
      in if bc_Introspector cfg = None \<and> bc_TokenValidator cfg = None \<and> bc_AllowUnauthenticated cfg
         then (u, next_handler (r_WithContext r (WithAuthDisabled (r_Ctx r))) w)
         else if token = [] then unauthorized
         else (case (case bc_TokenValidator cfg of None \<Rightarrow> None | Some v \<Rightarrow> validatePAT v token) of
                 Some result \<Rightarrow>
                   (recordPATUsage (pr_TokenID result) capacity u,
                    next_handler (r_WithContext r (contextWithPAT (r_Ctx r) result)) w)
               | None \<Rightarrow>
                   (case bc_Introspector cfg of
                      None \<Rightarrow> unauthorized
                    | Some introspect \<Rightarrow>
                        (case introspect token of
                           Inl _ \<Rightarrow> unauthorized
                         | Inr request \<Rightarrow>
                             if bc_ExpectedAudience cfg \<noteq> [] \<and>
                                \<not> args_Has (ar_GrantedAudience request) (bc_ExpectedAudience cfg)
                             then unauthorized
                             else if \<not> time_IsZero (ar_ExpiresAt request) \<and>
                                     time_Before (ar_ExpiresAt request) now
                             then unauthorized
                             else (u, next_handler
                                        (r_WithContext r (contextWithOAuth (r_Ctx r) request)) w)))))"

section \<open>Scope checks\<close>

definition RequireScope :: "(string list \<Rightarrow> string \<Rightarrow> bool) \<Rightarrow> string \<Rightarrow> handler \<Rightarrow> handler" where
  "RequireScope args_Has scope next_handler r w =
     (if IsAuthDisabled (r_Ctx r) then next_handler r w
      else if \<not> args_Has (GetScopes (r_Ctx r)) scope then
        writeBearerChallenge [] scope
          (if GetScopes (r_Ctx r) = [] then StatusUnauthorized else StatusForbidden) w
      else next_handler r w)"

record Target =
  tg_ScopeType :: string
  tg_Target :: string

definition patCoversTarget :: "reqctx \<Rightarrow> Target \<Rightarrow> bool" where
  "patCoversTarget ctx target =
     (if GetScopeType ctx = [] \<and> GetScopeTarget ctx = [] then True
      else GetScopeType ctx = tg_ScopeType target \<and> GetScopeTarget ctx = tg_Target target)"

definition RequireScopeForTarget ::
  "(string list \<Rightarrow> string \<Rightarrow> bool) \<Rightarrow> string \<Rightarrow> (http_request \<Rightarrow> Target result) \<Rightarrow> handler \<Rightarrow> handler" where
  "RequireScopeForTarget args_Has scope resolve next_handler =
     RequireScope args_Has scope (\<lambda>r w.
       if GetAuthSource (r_Ctx r) \<noteq> AuthSourcePAT then next_handler r w
       else (case resolve r of
               Inl _ \<Rightarrow> writeBearerChallenge [] scope StatusForbidden w
             | Inr target \<Rightarrow>
                 if patCoversTarget (r_Ctx r) target then next_handler r w
                 else writeBearerChallenge [] scope StatusForbidden w))"

section \<open>Password and secret hashes\<close>

record bcrypt_ops =
  bcr_GenerateFromPassword :: "string \<Rightarrow> int \<Rightarrow> string result"
  bcr_CompareHashAndPassword :: "string \<Rightarrow> string \<Rightarrow> unit result"
  bcr_Cost :: "string \<Rightarrow> int result"

definition DefaultBcryptCost :: int where "DefaultBcryptCost = 12"

definition HashSecret :: "bcrypt_ops \<Rightarrow> string \<Rightarrow> string result" where
  "HashSecret b secret = bcr_GenerateFromPassword b secret DefaultBcryptCost"

definition VerifySecret :: "bcrypt_ops \<Rightarrow> string \<Rightarrow> string \<Rightarrow> unit result" where
  "VerifySecret b hash secret = bcr_CompareHashAndPassword b hash secret"

definition HashPassword :: "bcrypt_ops \<Rightarrow> string \<Rightarrow> string result" where
  "HashPassword b password = HashSecret b password"

definition VerifyPassword :: "bcrypt_ops \<Rightarrow> string \<Rightarrow> string \<Rightarrow> unit result" where
  "VerifyPassword b hash password = VerifySecret b hash password"

definition NeedsRehash :: "bcrypt_ops \<Rightarrow> string \<Rightarrow> bool" where
  "NeedsRehash b hash = (case bcr_Cost b hash of Inl _ \<Rightarrow> False | Inr cost \<Rightarrow> cost < DefaultBcryptCost)"

section \<open>Challenges a client can parse\<close>

text \<open>The reader of a quoted-string (RFC 9110): up to the first unescaped quote, backslash escapes the next character.\<close>

fun read_quoted :: "string \<Rightarrow> (string \<times> string) option" where
  "read_quoted [] = None"
| "read_quoted (c # s) =
     (if c = CHR 0x22 then Some ([], s)
      else if c = CHR 0x5C then
        (case s of [] \<Rightarrow> None
         | d # t \<Rightarrow> map_option (\<lambda>(v, rest). (d # v, rest)) (read_quoted t))
      else map_option (\<lambda>(v, rest). (c # v, rest)) (read_quoted s))"

lemma read_quoted_quote: "read_quoted (quoteAuthParam v @ CHR 0x22 # rest) = Some (v, rest)"
  by (induction v) (simp_all add: quoteAuthParam_def quote_char_def)

lemma quoteAuthParam_append [simp]: "quoteAuthParam (a @ b) = quoteAuthParam a @ quoteAuthParam b"
  by (simp add: quoteAuthParam_def)

lemma canonical_names [simp]:
  "canonical_key ''WWW-Authenticate'' = ''Www-Authenticate''"
  "canonical_key ''Content-Type'' = ''Content-Type''"
  by code_simp+

definition challenge_header :: "string \<Rightarrow> string \<Rightarrow> int \<Rightarrow> string" where
  "challenge_header url scope status =
     challenge_base url @
     (if status = StatusForbidden then
        (if scope = [] then [] else
           auth_param ''error'' ''insufficient_scope'' @
           auth_param ''error_description'' (''Requires scope: '' @ quoteAuthParam scope) @
           auth_param ''scope'' (quoteAuthParam scope))
      else auth_param ''error'' ''invalid_token'' @
           auth_param ''error_description'' ''Missing or invalid access token'')"

lemma writeBearerChallenge_unsent:
  assumes "unsent w" "status = StatusUnauthorized \<or> status = StatusForbidden"
  shows "w_status (writeBearerChallenge url scope status w) = status"
    and "header_Get (w_sent (writeBearerChallenge url scope status w)) ''WWW-Authenticate'' =
           challenge_header url scope status"
    and "length (w_body (writeBearerChallenge url scope status w)) = 1"
  using assms
  by (auto simp: writeBearerChallenge_def writeOAuthErrorBody_def Let_def StatusUnauthorized_def
      StatusForbidden_def w_WriteHeader_def informational_def unsent_def challenge_header_def
      header_Get_Set)

section \<open>Who reaches the protected handler\<close>

text \<open>
  A credential that admits the bearer token \<open>token\<close> at time \<open>now\<close>, and the context it gives: a
  personal access token, or an introspected token of the expected audience that has not expired.
\<close>

definition pat_credential :: "BearerConfig \<Rightarrow> string \<Rightarrow> reqctx \<Rightarrow> PATAuthResult \<Rightarrow> bool" where
  "pat_credential cfg token ctx result =
     (\<exists>validate. bc_TokenValidator cfg = Some validate \<and> validate token = Inr (Some result) \<and>
        GetAuthSource ctx = ''pat'' \<and> GetUserID ctx = pr_UserID result \<and>
        GetScopes ctx = pr_Scopes result)"

definition oauth_credential ::
  "(string list \<Rightarrow> string \<Rightarrow> bool) \<Rightarrow> BearerConfig \<Rightarrow> gotime \<Rightarrow> string \<Rightarrow> reqctx \<Rightarrow> AccessRequester \<Rightarrow> bool" where
  "oauth_credential args_Has cfg now token ctx request =
     (\<exists>introspect. bc_Introspector cfg = Some introspect \<and> introspect token = Inr request \<and>
        (bc_ExpectedAudience cfg = [] \<or> args_Has (ar_GrantedAudience request) (bc_ExpectedAudience cfg)) \<and>
        (ar_ExpiresAt request = 0 \<or> now \<le> ar_ExpiresAt request) \<and>
        GetAuthSource ctx = ''oauth2'' \<and> GetUserID ctx = ar_Subject request \<and>
        GetScopes ctx = ar_GrantedScopes request)"

definition authorised ::
  "(string list \<Rightarrow> string \<Rightarrow> bool) \<Rightarrow> BearerConfig \<Rightarrow> gotime \<Rightarrow> string \<Rightarrow> (http_request \<Rightarrow> Target result) \<Rightarrow>
   string \<Rightarrow> http_request \<Rightarrow> bool" where
  "authorised args_Has cfg now scope resolve token r =
     (token \<noteq> [] \<and> args_Has (GetScopes (r_Ctx r)) scope \<and>
      ((\<exists>result. pat_credential cfg token (r_Ctx r) result \<and>
          (pr_ScopeType result = [] \<and> pr_ScopeTarget result = [] \<or>
           resolve r = Inr \<lparr>tg_ScopeType = pr_ScopeType result, tg_Target = pr_ScopeTarget result\<rparr>)) \<or>
       (\<exists>request. oauth_credential args_Has cfg now token (r_Ctx r) request)))"

lemmas ctx_defs = GetScopes_def GetUserID_def GetAuthSource_def GetScopeType_def GetScopeTarget_def
  ctx_string_def WithScopes_def contextWithPAT_def contextWithOAuth_def IsAuthDisabled_def
  AuthSourcePAT_def AuthSourceOAuth2_def r_WithContext_def

lemma scope_target_cong:
  assumes "\<not> IsAuthDisabled (r_Ctx r)"
    and "args_Has (GetScopes (r_Ctx r)) scope \<Longrightarrow>
         GetAuthSource (r_Ctx r) \<noteq> AuthSourcePAT \<or>
         (\<exists>target. resolve r = Inr target \<and> patCoversTarget (r_Ctx r) target) \<Longrightarrow> n1 r w = n2 r w"
  shows "RequireScopeForTarget args_Has scope resolve n1 r w =
         RequireScopeForTarget args_Has scope resolve n2 r w"
  using assms by (auto simp: RequireScopeForTarget_def RequireScope_def split: sum.splits)

lemma pat_target_cong:
  assumes "bc_TokenValidator cfg = Some validate" "validate token = Inr (Some result)" "token \<noteq> []"
    and "\<not> IsAuthDisabled (r_Ctx r)"
    and "\<And>r'. authorised args_Has cfg now scope resolve token r' \<Longrightarrow> n1 r' w = n2 r' w"
  shows "RequireScopeForTarget args_Has scope resolve n1 (r_WithContext r (contextWithPAT (r_Ctx r) result)) w =
         RequireScopeForTarget args_Has scope resolve n2 (r_WithContext r (contextWithPAT (r_Ctx r) result)) w"
proof (rule scope_target_cong)
  show "\<not> IsAuthDisabled (r_Ctx (r_WithContext r (contextWithPAT (r_Ctx r) result)))"
    using assms(4) by (simp add: ctx_defs)
next
  let ?r = "r_WithContext r (contextWithPAT (r_Ctx r) result)"
  assume "args_Has (GetScopes (r_Ctx ?r)) scope" "GetAuthSource (r_Ctx ?r) \<noteq> AuthSourcePAT \<or>
    (\<exists>target. resolve ?r = Inr target \<and> patCoversTarget (r_Ctx ?r) target)"
  then have "authorised args_Has cfg now scope resolve token ?r"
    using assms(1-3) unfolding authorised_def pat_credential_def
    by (auto simp: ctx_defs patCoversTarget_def split: if_splits)
  then show "n1 ?r w = n2 ?r w" by (rule assms(5))
qed

lemma oauth_target_cong:
  assumes "bc_Introspector cfg = Some introspect" "introspect token = Inr request" "token \<noteq> []"
    and "bc_ExpectedAudience cfg = [] \<or> args_Has (ar_GrantedAudience request) (bc_ExpectedAudience cfg)"
    and "ar_ExpiresAt request = 0 \<or> now \<le> ar_ExpiresAt request"
    and "\<not> IsAuthDisabled (r_Ctx r)"
    and "\<And>r'. authorised args_Has cfg now scope resolve token r' \<Longrightarrow> n1 r' w = n2 r' w"
  shows "RequireScopeForTarget args_Has scope resolve n1 (r_WithContext r (contextWithOAuth (r_Ctx r) request)) w =
         RequireScopeForTarget args_Has scope resolve n2 (r_WithContext r (contextWithOAuth (r_Ctx r) request)) w"
proof (rule scope_target_cong)
  show "\<not> IsAuthDisabled (r_Ctx (r_WithContext r (contextWithOAuth (r_Ctx r) request)))"
    using assms(6) by (simp add: ctx_defs)
next
  let ?r = "r_WithContext r (contextWithOAuth (r_Ctx r) request)"
  assume "args_Has (GetScopes (r_Ctx ?r)) scope"
  then have "authorised args_Has cfg now scope resolve token ?r"
    using assms(1-5) unfolding authorised_def oauth_credential_def by (auto simp: ctx_defs)
  then show "n1 ?r w = n2 ?r w" by (rule assms(7))
qed

section \<open>Properties\<close>

text \<open>
  C4 (access control). Behind the bearer middleware and a target-scope check the protected handler is
  reached only by authorised requests: two handlers that agree on them give the same response to
  every request. A request is authorised when its token is a personal access token or a live
  introspected token of the expected audience, its scopes include the required one, and the
  boundary of a personal access token is empty or is the resolved target.
\<close>

theorem bearer_access_control:
  assumes "bc_Introspector cfg \<noteq> None \<or> bc_TokenValidator cfg \<noteq> None \<or> \<not> bc_AllowUnauthenticated cfg"
    and "\<not> IsAuthDisabled (r_Ctx r)"
    and agree: "\<And>r' w'. authorised args_Has cfg now scope resolve (extractBearerToken r) r' \<Longrightarrow> n1 r' w' = n2 r' w'"
  shows "Bearer args_Has cfg capacity now (RequireScopeForTarget args_Has scope resolve n1) r (u, w) =
         Bearer args_Has cfg capacity now (RequireScopeForTarget args_Has scope resolve n2) r (u, w)"
proof -
  have pat: "RequireScopeForTarget args_Has scope resolve n1 (r_WithContext r (contextWithPAT (r_Ctx r) result)) w =
      RequireScopeForTarget args_Has scope resolve n2 (r_WithContext r (contextWithPAT (r_Ctx r) result)) w"
    if "bc_TokenValidator cfg = Some v" "validatePAT v (extractBearerToken r) = Some result"
       "extractBearerToken r \<noteq> []" for v result
  proof -
    from that(2) have "v (extractBearerToken r) = Inr (Some result)"
      by (simp add: validatePAT_def split: sum.splits)
    then show ?thesis by (rule pat_target_cong [OF that(1) _ that(3) assms(2)]) (rule agree)
  qed
  have oauth: "RequireScopeForTarget args_Has scope resolve n1 (r_WithContext r (contextWithOAuth (r_Ctx r) request)) w =
      RequireScopeForTarget args_Has scope resolve n2 (r_WithContext r (contextWithOAuth (r_Ctx r) request)) w"
    if "bc_Introspector cfg = Some i" "i (extractBearerToken r) = Inr request" "extractBearerToken r \<noteq> []"
       "bc_ExpectedAudience cfg = [] \<or> args_Has (ar_GrantedAudience request) (bc_ExpectedAudience cfg)"
       "ar_ExpiresAt request = 0 \<or> now \<le> ar_ExpiresAt request" for i request
    by (rule oauth_target_cong [OF that(1-3), where args_Has = args_Has and now = now])
       (use that assms(2) agree in blast)+
  show ?thesis
    using assms(1)
    by (auto intro!: pat oauth simp: Bearer_def Let_def time_IsZero_def time_Before_def split: option.splits sum.splits)
qed

definition ex_has :: "string list \<Rightarrow> string \<Rightarrow> bool" where "ex_has xs x = (x \<in> set xs)"

definition ex_bearer :: BearerConfig where
  "ex_bearer = \<lparr>bc_Introspector = Some (\<lambda>t. if t = ''good'' then Inr \<lparr>ar_GrantedAudience = [''https://mcp''],
       ar_GrantedScopes = [''read''], ar_ExpiresAt = 50, ar_Subject = ''alice''\<rparr> else Inl (Plain ''bad'')),
     bc_ResourceMetadataURL = ''https://mcp/meta'', bc_RequiredScopes = [''read''], bc_TokenValidator = None,
     bc_MaxUsageRecorders = 0, bc_AllowUnauthenticated = False, bc_ExpectedAudience = ''https://mcp''\<rparr>"

definition ex_req :: "string \<Rightarrow> http_request" where
  "ex_req auth = \<lparr>r_Method = ''GET'', r_Header = [(''Authorization'', [auth])], r_Ctx = context_Background\<rparr>"

theorem bearer_access_control_witness:
  "Bearer ex_has ex_bearer 32 60 (RequireScopeForTarget ex_has ''read'' (\<lambda>_. Inl (Plain ''x'')) (\<lambda>r w. w)) (ex_req ''Bearer good'') ([], new_writer) =
   Bearer ex_has ex_bearer 32 60 (RequireScopeForTarget ex_has ''read'' (\<lambda>_. Inl (Plain ''x'')) (\<lambda>r. w_Write (Bytes ''secret''))) (ex_req ''Bearer good'') ([], new_writer)"
proof (rule bearer_access_control)
  fix r' :: http_request and w' :: writer
  assume "authorised ex_has ex_bearer 60 ''read'' (\<lambda>_. Inl (Plain ''x'')) (extractBearerToken (ex_req ''Bearer good'')) r'"
  then have False
    by (auto simp: authorised_def pat_credential_def oauth_credential_def ex_bearer_def split: if_splits)
  then show "w' = w_Write (Bytes ''secret'') w'" ..
qed (simp_all add: ex_bearer_def ex_req_def context_Background_def IsAuthDisabled_def)



text \<open>
  Challenge quoting. Whatever characters a metadata URL or scope contains, a client that reads
  the quoted parameter back gets exactly that value, so no value can end its parameter early or
  add parameters of its own.
\<close>

lemma challenge_parameters_readable:
  "read_quoted (quoteAuthParam v @ dq @ rest) = Some (v, rest) \<and>
   (\<forall>url. url \<noteq> [] \<longrightarrow>
      (\<exists>pre post. challenge_header url scope status = pre @ ''resource_metadata='' @ dq @ post \<and>
         fst (the (read_quoted post)) = url))"
proof (intro conjI allI impI)
  show "read_quoted (quoteAuthParam v @ dq @ rest) = Some (v, rest)"
    by (simp add: dq_def read_quoted_quote)
next
  fix url :: string
  assume "url \<noteq> []"
  then obtain rest where "challenge_header url scope status =
      (''Bearer realm='' @ dq @ ''OAuth'' @ dq @ '', '') @ ''resource_metadata='' @ dq @
      (quoteAuthParam url @ CHR 0x22 # rest)"
    by (auto simp: challenge_header_def challenge_base_def auth_param_def dq_def)
  moreover have "fst (the (read_quoted (quoteAuthParam url @ CHR 0x22 # rest))) = url"
    by (simp add: read_quoted_quote)
  ultimately show "\<exists>pre post. challenge_header url scope status = pre @ ''resource_metadata='' @ dq @ post \<and>
      fst (the (read_quoted post)) = url" by blast
qed

lemma challenge_parameters_readable_witness:
  "read_quoted (quoteAuthParam ''a'' @ dq) = Some (''a'', []) \<and>
   (\<exists>pre post. challenge_header ''https://mcp'' ''read'' 401 = pre @ ''resource_metadata='' @ dq @ post \<and>
         fst (the (read_quoted post)) = ''https://mcp'')"
  using challenge_parameters_readable [of "''a''" "[]" "''read''" 401] by simp

text \<open>A 401 challenge never names the required scopes.\<close>

lemma challenge_401_names_no_scope:
  "challenge_header url scope StatusUnauthorized = challenge_header url [] StatusUnauthorized"
  by (simp add: challenge_header_def StatusUnauthorized_def StatusForbidden_def)

end
