(* ===== verification/Registration.thy ===== *)
theory Registration
  imports GoUrl GoEncoding OAuthStorage BearerAuth
begin

text \<open>
  Dynamic client registration (\<^verbatim>\<open>oauth/register.go\<close>): the validation of client metadata and the handler
  that stores a client and answers with its credentials. Decoding of the request body is the input
  of the handler; random bytes, bcrypt and the clock are parameters.
\<close>

section \<open>Constants\<close>

definition authMethodNone :: string where "authMethodNone = ''none''"
definition authMethodClientSecretBasic :: string where "authMethodClientSecretBasic = ''client_secret_basic''"
definition authMethodClientSecretPost :: string where "authMethodClientSecretPost = ''client_secret_post''"
definition defaultClientName :: string where "defaultClientName = ''Dynamic Client''"
definition maxClientNameLen :: nat where "maxClientNameLen = 200"

definition supportedGrantTypes :: "string list" where
  "supportedGrantTypes = [''authorization_code'', ''refresh_token'']"
definition supportedResponseTypes :: "string list" where "supportedResponseTypes = [''code'']"
definition supportedAuthMethods :: "string list" where
  "supportedAuthMethods = [authMethodNone, authMethodClientSecretBasic, authMethodClientSecretPost]"

section \<open>Validation\<close>

definition isLoopbackHost :: "string \<Rightarrow> bool" where
  "isLoopbackHost host = (host = ''localhost'' \<or> host = ''127.0.0.1'' \<or> host = ''::1'')"

definition validateRedirectURI :: "string \<Rightarrow> unit result" where
  "validateRedirectURI raw =
     (if raw = [] then Inl (Plain ''redirect_uri is empty'')
      else (case url_Parse raw of
              Inl e \<Rightarrow> Inl (Wrap (''redirect_uri '' @ go_Quote raw) e)
            | Inr parsed \<Rightarrow>
                if \<not> url_IsAbs parsed
                then Inl (Plain (''redirect_uri '' @ go_Quote raw @ '' must be absolute''))
                else if u_Fragment parsed \<noteq> []
                then Inl (Plain (''redirect_uri '' @ go_Quote raw @ '' must not contain a fragment''))
                else if u_Scheme parsed = ''https'' then Inr ()
                else if u_Scheme parsed = ''http'' \<and> isLoopbackHost (url_Hostname parsed) then Inr ()
                else if u_Scheme parsed \<noteq> ''http'' \<and> u_Scheme parsed \<noteq> ''https''
                then Inl (Plain (''redirect_uri '' @ go_Quote raw @ '': scheme '' @
                            go_Quote (u_Scheme parsed) @ '' is not supported''))
                else Inl (Plain (''redirect_uri '' @ go_Quote raw @
                            '': http is only allowed for loopback hosts''))))"

definition validateLogoURI :: "string \<Rightarrow> unit result" where
  "validateLogoURI raw0 =
     (let raw = go_TrimSpace raw0
      in if raw = [] then Inr ()
         else if length raw > 2048 then Inl (Plain ''logo_uri exceeds 2048 characters'')
         else (case url_Parse raw of
                 Inl e \<Rightarrow> Inl (Wrap (''logo_uri '' @ go_Quote raw) e)
               | Inr parsed \<Rightarrow>
                   if u_Scheme parsed \<noteq> ''https'' \<or> url_Hostname parsed = []
                   then Inl (Plain ''logo_uri must be an absolute https URL'')
                   else if u_User parsed \<noteq> None \<or> u_Fragment parsed \<noteq> []
                   then Inl (Plain ''logo_uri must not include user info or fragment'')
                   else Inr ()))"

fun check_scopes :: "string \<Rightarrow> string list \<Rightarrow> string list \<Rightarrow> unit result" where
  "check_scopes prefix_text allowed [] = Inr ()"
| "check_scopes prefix_text allowed (requested # rest) =
     (if requested \<notin> set allowed then Inl (Plain (prefix_text @ go_Quote requested @ '' is not allowed''))
      else check_scopes prefix_text allowed rest)"

definition normalizeScopes :: "string \<Rightarrow> string list \<Rightarrow> (string list \<times> string) result" where
  "normalizeScopes scope allowed =
     (let scopes = go_Fields scope
      in case check_scopes ''scope '' allowed scopes of
           Inl e \<Rightarrow> Inl e
         | Inr _ \<Rightarrow> Inr (scopes, go_Join scopes '' ''))"

fun default_scopes_loop :: "string list \<Rightarrow> string list \<Rightarrow> string list \<Rightarrow> string list result" where
  "default_scopes_loop allowed [] scopes = Inr scopes"
| "default_scopes_loop allowed (d # ds) scopes =
     (let defaultScope = go_TrimSpace d
      in if defaultScope = [] then default_scopes_loop allowed ds scopes
         else if defaultScope \<notin> set allowed
         then Inl (Plain (''default scope '' @ go_Quote defaultScope @ '' is not allowed''))
         else if defaultScope \<in> set scopes then default_scopes_loop allowed ds scopes
         else default_scopes_loop allowed ds (scopes @ [defaultScope]))"

definition normalizeScopesWithDefault ::
  "string \<Rightarrow> string list \<Rightarrow> string list \<Rightarrow> string list \<Rightarrow> (string list \<times> string) result" where
  "normalizeScopesWithDefault scope defaultScopes allowedScopes allowed =
     (if go_TrimSpace scope \<noteq> [] then normalizeScopes scope allowed
      else
        (case default_scopes_loop allowed (if defaultScopes = [] then allowedScopes else defaultScopes) [] of
           Inl e \<Rightarrow> Inl e
         | Inr scopes \<Rightarrow> Inr (scopes, go_Join scopes '' '')))"

section \<open>The handler\<close>

record RegistrationConfig =
  rg_AllowedScopes :: "string list"
  rg_DefaultScopes :: "string list"
  rg_Audience :: string
  rg_DefaultTokenEndpointAuthMethod :: string
  rg_DefaultGrantTypes :: "string list"
  rg_DefaultResponseTypes :: "string list"
  rg_ClientIDPrefix :: string

text \<open>\<^verbatim>\<open>scopeSet\<close> (\<^verbatim>\<open>oauth/provider.go\<close>) builds a set, here a list without repetitions used for membership.\<close>

definition scopeSet :: "string list \<Rightarrow> string list" where
  "scopeSet scopes = remdups scopes"

definition defaultAuthMethod :: "RegistrationConfig \<Rightarrow> string" where
  "defaultAuthMethod cfg =
     (let m = go_TrimSpace (rg_DefaultTokenEndpointAuthMethod cfg)
      in if m = [] then authMethodClientSecretBasic else m)"

record registrationRequest =
  rr_RedirectURIs :: "string list"
  rr_ClientName :: string
  rr_GrantTypes :: "string list"
  rr_ResponseTypes :: "string list"
  rr_TokenEndpointAuthMethod :: string
  rr_Scope :: string
  rr_LogoURI :: string

record registrationResponse =
  rs_ClientID :: string
  rs_ClientSecret :: string
  rs_ClientIDIssuedAt :: int
  rs_ClientSecretExpiresAt :: int
  rs_ClientName :: string
  rs_RedirectURIs :: "string list"
  rs_GrantTypes :: "string list"
  rs_ResponseTypes :: "string list"
  rs_TokenEndpointAuthMethod :: string
  rs_Scope :: string
  rs_LogoURI :: string

text \<open>An error answer: status, OAuth error code and description.\<close>

type_synonym 'a reg_result = "(int \<times> string \<times> string) + 'a"

definition check_supported ::
  "string \<Rightarrow> string list \<Rightarrow> string list \<Rightarrow> string list reg_result" where
  "check_supported what supported requested =
     (case List.find (\<lambda>x. x \<notin> set supported) requested of
        Some x \<Rightarrow> Inl (400, ''invalid_client_metadata'', what @ '' '' @ go_Quote x @ '' is not supported'')
      | None \<Rightarrow> Inr requested)"

definition normalizeGrantTypes :: "RegistrationConfig \<Rightarrow> string list \<Rightarrow> string list reg_result" where
  "normalizeGrantTypes cfg requested =
     check_supported ''grant_type'' supportedGrantTypes
       (if requested \<noteq> [] then requested
        else if rg_DefaultGrantTypes cfg \<noteq> [] then rg_DefaultGrantTypes cfg else [''authorization_code''])"

definition normalizeResponseTypes :: "RegistrationConfig \<Rightarrow> string list \<Rightarrow> string list reg_result" where
  "normalizeResponseTypes cfg requested =
     check_supported ''response_type'' supportedResponseTypes
       (if requested \<noteq> [] then requested
        else if rg_DefaultResponseTypes cfg \<noteq> [] then rg_DefaultResponseTypes cfg else [''code''])"

definition normalizeAuthMethod :: "RegistrationConfig \<Rightarrow> string \<Rightarrow> string reg_result" where
  "normalizeAuthMethod cfg requested0 =
     (let requested = (if requested0 = [] then defaultAuthMethod cfg else requested0)
      in if requested \<notin> set supportedAuthMethods
         then Inl (400, ''invalid_client_metadata'',
                   ''token_endpoint_auth_method '' @ go_Quote requested @ '' is not supported'')
         else Inr requested)"

fun first_error :: "('a \<Rightarrow> unit result) \<Rightarrow> 'a list \<Rightarrow> goerr option" where
  "first_error f [] = None"
| "first_error f (x # xs) = (case f x of Inl e \<Rightarrow> Some e | Inr _ \<Rightarrow> first_error f xs)"

definition generateRandomURLValue :: "string \<Rightarrow> string" where
  "generateRandomURLValue random_bytes = RawURL_EncodeToString random_bytes"

text \<open>The environment of one registration: random bytes for ID and secret, bcrypt, and the clock.\<close>

record reg_env =
  re_id_bytes :: string
  re_secret_bytes :: string
  re_bcrypt :: bcrypt_ops
  re_now :: gotime

definition client_name :: "string \<Rightarrow> string" where
  "client_name requested =
     (let n = go_TrimSpace requested; n' = (if n = [] then defaultClientName else n)
      in if length n' > maxClientNameLen then take maxClientNameLen n' else n')"

definition registration_client ::
  "RegistrationConfig \<Rightarrow> reg_env \<Rightarrow> registrationRequest \<Rightarrow> string list \<Rightarrow> string list \<Rightarrow> string \<Rightarrow> string list \<Rightarrow>
   string \<Rightarrow> Client" where
  "registration_client cfg env req grantTypes responseTypes authMethod scopes secretHash =
     \<lparr>cl_ID = rg_ClientIDPrefix cfg @ generateRandomURLValue (re_id_bytes env),
      cl_Name = client_name (rr_ClientName req),
      cl_RedirectURIs = rr_RedirectURIs req,
      cl_GrantTypes = grantTypes,
      cl_ResponseTypes = responseTypes,
      cl_Scopes = scopes,
      cl_Audience = [rg_Audience cfg],
      cl_IsPublic = (authMethod = authMethodNone),
      cl_ClientSecretHash = secretHash,
      cl_TokenAuthMethod = authMethod,
      cl_LogoURI = go_TrimSpace (rr_LogoURI req)\<rparr>"

definition register_client ::
  "'st StoreOps \<Rightarrow> reg_env \<Rightarrow> Client \<Rightarrow> string \<Rightarrow> string \<Rightarrow> 'st \<Rightarrow> registrationResponse reg_result \<times> 'st" where
  "register_client ops env client rawSecret scopeString s =
     (case st_SaveClient ops client s of
        (Inl _, s') \<Rightarrow> (Inl (500, ''server_error'', ''failed to persist client''), s')
      | (Inr _, s') \<Rightarrow>
          (Inr \<lparr>rs_ClientID = cl_ID client, rs_ClientSecret = rawSecret,
                rs_ClientIDIssuedAt = time_Unix (re_now env), rs_ClientSecretExpiresAt = 0,
                rs_ClientName = cl_Name client, rs_RedirectURIs = cl_RedirectURIs client,
                rs_GrantTypes = cl_GrantTypes client, rs_ResponseTypes = cl_ResponseTypes client,
                rs_TokenEndpointAuthMethod = cl_TokenAuthMethod client, rs_Scope = scopeString,
                rs_LogoURI = cl_LogoURI client\<rparr>, s'))"

definition process_registration ::
  "'st StoreOps \<Rightarrow> RegistrationConfig \<Rightarrow> reg_env \<Rightarrow> registrationRequest \<Rightarrow> 'st \<Rightarrow>
   registrationResponse reg_result \<times> 'st" where
  "process_registration ops cfg env req s =
     (if rr_RedirectURIs req = [] then (Inl (400, ''invalid_redirect_uri'', ''redirect_uris is required''), s)
      else (case first_error validateRedirectURI (rr_RedirectURIs req) of
              Some e \<Rightarrow> (Inl (400, ''invalid_redirect_uri'', err_text e), s)
            | None \<Rightarrow>
      (case normalizeGrantTypes cfg (rr_GrantTypes req) of Inl e \<Rightarrow> (Inl e, s) | Inr grantTypes \<Rightarrow>
      (case normalizeResponseTypes cfg (rr_ResponseTypes req) of Inl e \<Rightarrow> (Inl e, s) | Inr responseTypes \<Rightarrow>
      (case normalizeAuthMethod cfg (rr_TokenEndpointAuthMethod req) of Inl e \<Rightarrow> (Inl e, s) | Inr authMethod \<Rightarrow>
      (case normalizeScopesWithDefault (rr_Scope req) (rg_DefaultScopes cfg) (rg_AllowedScopes cfg)
              (scopeSet (rg_AllowedScopes cfg)) of
         Inl e \<Rightarrow> (Inl (400, ''invalid_client_metadata'', err_text e), s)
       | Inr (scopes, scopeString) \<Rightarrow>
      (case validateLogoURI (go_TrimSpace (rr_LogoURI req)) of
         Inl e \<Rightarrow> (Inl (400, ''invalid_client_metadata'', err_text e), s)
       | Inr _ \<Rightarrow>
           if authMethod = authMethodNone then
             register_client ops env
               (registration_client cfg env req grantTypes responseTypes authMethod scopes []) [] scopeString s
           else
             (case HashSecret (re_bcrypt env) (generateRandomURLValue (re_secret_bytes env)) of
                Inl _ \<Rightarrow> (Inl (500, ''server_error'', ''failed to create client secret''), s)
              | Inr secretHash \<Rightarrow>
                  register_client ops env
                    (registration_client cfg env req grantTypes responseTypes authMethod scopes secretHash)
                    (generateRandomURLValue (re_secret_bytes env)) scopeString s))))))))"

definition json_opt :: "string \<Rightarrow> string \<Rightarrow> (string \<times> json) list" where
  "json_opt name v = (if v = [] then [] else [(name, JStr v)])"

definition json_of_registrationResponse :: "registrationResponse \<Rightarrow> json" where
  "json_of_registrationResponse r =
     JObj ([(''client_id'', JStr (rs_ClientID r))] @
           json_opt ''client_secret'' (rs_ClientSecret r) @
           [(''client_id_issued_at'', JInt (rs_ClientIDIssuedAt r))] @
           (if rs_ClientSecretExpiresAt r = 0 then []
            else [(''client_secret_expires_at'', JInt (rs_ClientSecretExpiresAt r))]) @
           [(''client_name'', JStr (rs_ClientName r)),
            (''redirect_uris'', json_strings (rs_RedirectURIs r)),
            (''grant_types'', json_strings (rs_GrantTypes r)),
            (''response_types'', json_strings (rs_ResponseTypes r)),
            (''token_endpoint_auth_method'', JStr (rs_TokenEndpointAuthMethod r))] @
           json_opt ''scope'' (rs_Scope r) @ json_opt ''logo_uri'' (rs_LogoURI r))"

definition no_store_headers :: "header \<Rightarrow> header" where
  "no_store_headers =
     header_Set ''Pragma'' ''no-cache'' \<circ> header_Set ''Cache-Control'' ''no-store'' \<circ>
     header_Set ''Content-Type'' ''application/json''"

definition writeRegistrationError :: "int \<Rightarrow> string \<Rightarrow> string \<Rightarrow> writer \<Rightarrow> writer" where
  "writeRegistrationError status code description w =
     w_Write (JsonDoc (JObj [(''error'', JStr code), (''error_description'', JStr description)]))
       (w_WriteHeader status (w_header no_store_headers w))"

text \<open>
  \<^verbatim>\<open>ServeHTTP\<close>; \<open>body\<close> is the outcome of decoding the JSON body through the 16 KiB reader.
\<close>

definition registration_ServeHTTP ::
  "'st StoreOps \<Rightarrow> RegistrationConfig \<Rightarrow> reg_env \<Rightarrow> string \<Rightarrow> registrationRequest result \<Rightarrow> 'st \<times> writer \<Rightarrow> 'st \<times> writer" where
  "registration_ServeHTTP ops cfg env meth body sw =
     (case sw of (s, w) \<Rightarrow>
        if meth \<noteq> ''POST'' then (s, writeRegistrationError 405 ''invalid_request'' ''method not allowed'' w)
        else (case body of
                Inl _ \<Rightarrow> (s, writeRegistrationError 400 ''invalid_client_metadata'' ''request body is not valid JSON'' w)
              | Inr req \<Rightarrow>
                  (case process_registration ops cfg env req s of
                     (Inl (status, code, description), s') \<Rightarrow>
                       (s', writeRegistrationError status code description w)
                   | (Inr resp, s') \<Rightarrow>
                       (s', w_Write (JsonDoc (json_of_registrationResponse resp))
                              (w_WriteHeader 201 (w_header no_store_headers w))))))"

section \<open>What validation guarantees\<close>

text \<open>A redirect URI that may be registered: no fragment, and HTTPS or HTTP on a loopback host.\<close>

definition safe_redirect :: "string \<Rightarrow> bool" where
  "safe_redirect raw =
     (\<exists>u. url_Parse raw = Inr u \<and> u_Fragment u = [] \<and>
          (u_Scheme u = ''https'' \<or> u_Scheme u = ''http'' \<and> isLoopbackHost (url_Hostname u)))"

lemma validateRedirectURI_iff: "validateRedirectURI raw = Inr () \<longleftrightarrow> raw \<noteq> [] \<and> safe_redirect raw"
proof (cases "url_Parse raw")
  case (Inl e)
  then show ?thesis by (simp add: validateRedirectURI_def safe_redirect_def)
next
  case (Inr u)
  then show ?thesis by (auto simp: validateRedirectURI_def safe_redirect_def url_IsAbs_def)
qed

lemma first_error_None: "first_error f xs = None \<longleftrightarrow> (\<forall>x \<in> set xs. f x = Inr ())"
  by (induction xs) (auto split: sum.splits)

lemma check_scopes_Inr: "check_scopes t allowed xs = Inr () \<longleftrightarrow> set xs \<subseteq> set allowed"
  by (induction xs) auto

lemma default_scopes_loop_Inr:
  "default_scopes_loop allowed ds scopes = Inr r \<Longrightarrow> set scopes \<subseteq> set allowed \<Longrightarrow> distinct scopes \<Longrightarrow>
   set r \<subseteq> set allowed \<and> distinct r"
  by (induction ds arbitrary: scopes) (auto simp: Let_def split: if_splits)

lemma normalizeScopes_Inr:
  "normalizeScopes scope allowed = Inr (xs, str) \<Longrightarrow> xs = go_Fields scope \<and> set xs \<subseteq> set allowed \<and> str = go_Join xs '' ''"
  by (auto simp: normalizeScopes_def Let_def check_scopes_Inr split: sum.splits)

lemma normalizeScopesWithDefault_Inr:
  assumes "normalizeScopesWithDefault scope ds as allowed = Inr (xs, str)"
  shows "set xs \<subseteq> set allowed \<and> str = go_Join xs '' ''"
proof (cases "go_TrimSpace scope = []")
  case True
  with assms default_scopes_loop_Inr [of allowed _ "[]"] show ?thesis
    by (auto simp: normalizeScopesWithDefault_def split: sum.splits if_splits)
next
  case False
  with assms normalizeScopes_Inr show ?thesis by (auto simp: normalizeScopesWithDefault_def)
qed

lemma check_supported_Inr: "check_supported what supp xs = Inr ys \<Longrightarrow> ys = xs \<and> set ys \<subseteq> set supp"
  by (auto simp: check_supported_def find_None_iff split: option.splits)

text \<open>The policy a stored client meets.\<close>

definition client_policy :: "RegistrationConfig \<Rightarrow> Client \<Rightarrow> bool" where
  "client_policy cfg c =
     (cl_RedirectURIs c \<noteq> [] \<and> (\<forall>uri \<in> set (cl_RedirectURIs c). safe_redirect uri) \<and>
      set (cl_GrantTypes c) \<subseteq> {''authorization_code'', ''refresh_token''} \<and>
      set (cl_ResponseTypes c) \<subseteq> {''code''} \<and>
      set (cl_Scopes c) \<subseteq> set (rg_AllowedScopes cfg) \<and>
      cl_Audience c = [rg_Audience cfg] \<and>
      cl_TokenAuthMethod c \<in> {''none'', ''client_secret_basic'', ''client_secret_post''} \<and>
      (cl_IsPublic c \<longleftrightarrow> cl_TokenAuthMethod c = ''none'') \<and>
      cl_Name c \<noteq> [] \<and> length (cl_Name c) \<le> 200)"

lemma client_name_bounds: "client_name n \<noteq> [] \<and> length (client_name n) \<le> 200"
  by (auto simp: client_name_def Let_def maxClientNameLen_def defaultClientName_def)

lemma registration_client_policy:
  assumes "rr_RedirectURIs req \<noteq> []" "first_error validateRedirectURI (rr_RedirectURIs req) = None"
    and "normalizeGrantTypes cfg g0 = Inr grantTypes" "normalizeResponseTypes cfg r0 = Inr responseTypes"
    and "normalizeAuthMethod cfg m0 = Inr authMethod"
    and "normalizeScopesWithDefault sc ds as (scopeSet (rg_AllowedScopes cfg)) = Inr (scopes, str)"
  shows "client_policy cfg (registration_client cfg env req grantTypes responseTypes authMethod scopes h)"
proof -
  have "\<forall>uri \<in> set (rr_RedirectURIs req). safe_redirect uri"
    using assms(2) by (simp add: first_error_None validateRedirectURI_iff)
  moreover have "set grantTypes \<subseteq> {''authorization_code'', ''refresh_token''}"
    using check_supported_Inr assms(3) by (fastforce simp: normalizeGrantTypes_def supportedGrantTypes_def)
  moreover have "set responseTypes \<subseteq> {''code''}"
    using check_supported_Inr assms(4) by (fastforce simp: normalizeResponseTypes_def supportedResponseTypes_def)
  moreover have "authMethod \<in> {''none'', ''client_secret_basic'', ''client_secret_post''}"
    using assms(5) by (auto simp: normalizeAuthMethod_def Let_def supportedAuthMethods_def authMethodNone_def
        authMethodClientSecretBasic_def authMethodClientSecretPost_def split: if_splits)
  moreover have "set scopes \<subseteq> set (rg_AllowedScopes cfg)"
    using normalizeScopesWithDefault_Inr [OF assms(6)] by (simp add: scopeSet_def)
  ultimately show ?thesis using assms(1) client_name_bounds [of "rr_ClientName req"]
    by (simp add: client_policy_def registration_client_def authMethodNone_def)
qed

text \<open>A successful registration stores exactly one client, which meets the policy.\<close>

lemma process_registration_Inr:
  assumes "process_registration ops cfg env req s = (Inr resp, s')"
  obtains client secret scopeString where
    "register_client ops env client secret scopeString s = (Inr resp, s')"
    "client_policy cfg client" "cl_ID client = rg_ClientIDPrefix cfg @ RawURL_EncodeToString (re_id_bytes env)"
    "cl_RedirectURIs client = rr_RedirectURIs req"
    "if cl_IsPublic client then secret = [] \<and> cl_ClientSecretHash client = []
     else secret = RawURL_EncodeToString (re_secret_bytes env) \<and>
          HashSecret (re_bcrypt env) secret = Inr (cl_ClientSecretHash client)"
    "scopeString = go_Join (cl_Scopes client) '' ''"
proof -
  from assms obtain g r m scopes str where
    red: "rr_RedirectURIs req \<noteq> []" "first_error validateRedirectURI (rr_RedirectURIs req) = None"
    and g: "normalizeGrantTypes cfg (rr_GrantTypes req) = Inr g"
    and r: "normalizeResponseTypes cfg (rr_ResponseTypes req) = Inr r"
    and m: "normalizeAuthMethod cfg (rr_TokenEndpointAuthMethod req) = Inr m"
    and sc: "normalizeScopesWithDefault (rr_Scope req) (rg_DefaultScopes cfg) (rg_AllowedScopes cfg)
               (scopeSet (rg_AllowedScopes cfg)) = Inr (scopes, str)"
    by (auto simp: process_registration_def split: if_splits option.splits sum.splits)
  let ?c = "registration_client cfg env req g r m scopes"
  note policy = registration_client_policy [OF red g r m sc, where env = env]
  have str: "str = go_Join scopes '' ''" using normalizeScopesWithDefault_Inr [OF sc] by simp
  show thesis
  proof (cases "m = authMethodNone")
    case True
    with assms red g r m sc have "register_client ops env (?c []) [] str s = (Inr resp, s')"
      by (auto simp: process_registration_def split: sum.splits)
    with True str show thesis
      by (intro that [OF _ policy]) (auto simp: registration_client_def generateRandomURLValue_def)
  next
    case False
    with assms red g r m sc obtain h where
      "HashSecret (re_bcrypt env) (RawURL_EncodeToString (re_secret_bytes env)) = Inr h"
      "register_client ops env (?c h) (RawURL_EncodeToString (re_secret_bytes env)) str s = (Inr resp, s')"
      by (auto simp: process_registration_def generateRandomURLValue_def split: sum.splits)
    with False str show thesis
      by (intro that [OF _ policy]) (auto simp: registration_client_def generateRandomURLValue_def)
  qed
qed

lemma process_registration_Inl_mem:
  "process_registration memory_StoreOps cfg env req s = (Inl e, s') \<Longrightarrow> s' = s"
  by (auto simp: process_registration_def register_client_def memory_StoreOps_def mem_SaveClient_def
      split: if_splits option.splits sum.splits prod.splits)

section \<open>Concrete instances\<close>

definition ex_bcrypt :: bcrypt_ops where
  "ex_bcrypt = \<lparr>bcr_GenerateFromPassword = (\<lambda>p cost. Inr (''h'' @ p)),
     bcr_CompareHashAndPassword = (\<lambda>h p. if h = ''h'' @ p then Inr () else Inl (Plain ''mismatch'')),
     bcr_Cost = (\<lambda>h. Inr 12)\<rparr>"

definition ex_reg_cfg :: RegistrationConfig where
  "ex_reg_cfg = \<lparr>rg_AllowedScopes = [''read'', ''write''], rg_DefaultScopes = [''read''],
     rg_Audience = ''https://mcp'', rg_DefaultTokenEndpointAuthMethod = [],
     rg_DefaultGrantTypes = [], rg_DefaultResponseTypes = [], rg_ClientIDPrefix = ''dcr-''\<rparr>"

definition ex_reg_env :: reg_env where
  "ex_reg_env = \<lparr>re_id_bytes = ''abc'', re_secret_bytes = ''xyz'', re_bcrypt = ex_bcrypt, re_now = 0\<rparr>"

definition ex_reg_req :: registrationRequest where
  "ex_reg_req = \<lparr>rr_RedirectURIs = [''http://localhost/cb''], rr_ClientName = [], rr_GrantTypes = [],
     rr_ResponseTypes = [], rr_TokenEndpointAuthMethod = [], rr_Scope = [], rr_LogoURI = []\<rparr>"

lemma ex_redirect_valid: "validateRedirectURI ''http://localhost/cb'' = Inr ()"
  by code_simp

lemma ex_registers:
  "\<exists>resp s'. process_registration memory_StoreOps ex_reg_cfg ex_reg_env ex_reg_req NewMemoryStore_oauth = (Inr resp, s') \<and>
     rs_ClientID resp = ''dcr-'' @ RawURL_EncodeToString ''abc'' \<and> rs_TokenEndpointAuthMethod resp \<noteq> ''none'' \<and>
     rs_Scope resp = ''read''"
  by (simp add: process_registration_def ex_reg_cfg_def ex_reg_env_def ex_reg_req_def ex_redirect_valid
      normalizeGrantTypes_def normalizeResponseTypes_def normalizeAuthMethod_def check_supported_def
      supportedGrantTypes_def supportedResponseTypes_def supportedAuthMethods_def defaultAuthMethod_def
      normalizeScopesWithDefault_def scopeSet_def graph_char_def validateLogoURI_def Let_def
      authMethodNone_def authMethodClientSecretBasic_def authMethodClientSecretPost_def HashSecret_def
      ex_bcrypt_def register_client_def memory_StoreOps_def mem_SaveClient_def registration_client_def
      generateRandomURLValue_def)

section \<open>Properties\<close>

text \<open>
  C34 (what gets registered). A registration that succeeds makes one new client readable under the
  returned ID, leaves every other client alone, and that client meets the registration policy:
  redirect URIs without fragment on HTTPS or loopback HTTP, supported grant and response types,
  scopes within the allowed ones, the server's audience, a name of at most 200 bytes, and public
  exactly when it has no secret. The response repeats what was stored.
\<close>

theorem registration_stores_policy_client:
  assumes "process_registration memory_StoreOps cfg env req s = (Inr resp, s')"
  shows "\<exists>client. mem_GetClient (rs_ClientID resp) s' = Inr client \<and> client_policy cfg client \<and>
    (\<forall>cid. cid \<noteq> rs_ClientID resp \<longrightarrow> mem_GetClient cid s' = mem_GetClient cid s) \<and>
    rs_RedirectURIs resp = cl_RedirectURIs client \<and> rs_GrantTypes resp = cl_GrantTypes client \<and>
    rs_TokenEndpointAuthMethod resp = cl_TokenAuthMethod client \<and>
    rs_Scope resp = go_Join (cl_Scopes client) '' '' \<and> (cl_IsPublic client \<longrightarrow> rs_ClientSecret resp = [])"
proof (rule process_registration_Inr [OF assms])
  fix client secret scopeString
  assume reg: "register_client memory_StoreOps env client secret scopeString s = (Inr resp, s')"
    and policy: "client_policy cfg client" and str: "scopeString = go_Join (cl_Scopes client) '' ''"
    and sec: "if cl_IsPublic client then secret = [] \<and> cl_ClientSecretHash client = []
     else secret = RawURL_EncodeToString (re_secret_bytes env) \<and>
          HashSecret (re_bcrypt env) secret = Inr (cl_ClientSecretHash client)"
  from reg have "resp = \<lparr>rs_ClientID = cl_ID client, rs_ClientSecret = secret,
      rs_ClientIDIssuedAt = time_Unix (re_now env), rs_ClientSecretExpiresAt = 0,
      rs_ClientName = cl_Name client, rs_RedirectURIs = cl_RedirectURIs client,
      rs_GrantTypes = cl_GrantTypes client, rs_ResponseTypes = cl_ResponseTypes client,
      rs_TokenEndpointAuthMethod = cl_TokenAuthMethod client, rs_Scope = scopeString,
      rs_LogoURI = cl_LogoURI client\<rparr>"
    and "s' = s\<lparr>ms_clients := gm_put (cl_ID client) client (ms_clients s)\<rparr>"
    by (auto simp: register_client_def memory_StoreOps_def mem_SaveClient_def)
  with policy str sec show ?thesis by (auto simp: mem_GetClient_def split: if_splits)
qed

theorem registration_stores_policy_client_witness:
  "\<exists>resp s' client. process_registration memory_StoreOps ex_reg_cfg ex_reg_env ex_reg_req NewMemoryStore_oauth = (Inr resp, s') \<and>
     mem_GetClient (rs_ClientID resp) s' = Inr client \<and> client_policy ex_reg_cfg client"
  using ex_registers registration_stores_policy_client
    [of ex_reg_cfg ex_reg_env ex_reg_req NewMemoryStore_oauth] by blast

text \<open>
  What bcrypt documents: the hash generated from a password matches that password.
\<close>

definition bcrypt_ok :: "bcrypt_ops \<Rightarrow> bool" where
  "bcrypt_ok b =
     (\<forall>p cost h. bcr_GenerateFromPassword b p cost = Inr h \<longrightarrow> bcr_CompareHashAndPassword b h p = Inr ())"

text \<open>
  A confidential client is answered with a secret that verifies against the
  hash in its stored record.
\<close>

lemma registered_secret_verifies:
  assumes "bcrypt_ok (re_bcrypt env)" "process_registration memory_StoreOps cfg env req s = (Inr resp, s')"
    and "rs_TokenEndpointAuthMethod resp \<noteq> ''none''"
  shows "\<exists>client. mem_GetClient (rs_ClientID resp) s' = Inr client \<and> \<not> cl_IsPublic client \<and>
    VerifySecret (re_bcrypt env) (cl_ClientSecretHash client) (rs_ClientSecret resp) = Inr ()"
proof (rule process_registration_Inr [OF assms(2)])
  fix client secret scopeString
  assume reg: "register_client memory_StoreOps env client secret scopeString s = (Inr resp, s')"
    and policy: "client_policy cfg client"
    and sec: "if cl_IsPublic client then secret = [] \<and> cl_ClientSecretHash client = []
     else secret = RawURL_EncodeToString (re_secret_bytes env) \<and>
          HashSecret (re_bcrypt env) secret = Inr (cl_ClientSecretHash client)"
  from reg have r: "rs_ClientID resp = cl_ID client" "rs_ClientSecret resp = secret"
    "rs_TokenEndpointAuthMethod resp = cl_TokenAuthMethod client"
    and s': "s' = s\<lparr>ms_clients := gm_put (cl_ID client) client (ms_clients s)\<rparr>"
    by (auto simp: register_client_def memory_StoreOps_def mem_SaveClient_def)
  from policy assms(3) r have conf: "\<not> cl_IsPublic client" by (simp add: client_policy_def)
  with sec assms(1) have "VerifySecret (re_bcrypt env) (cl_ClientSecretHash client) secret = Inr ()"
    by (auto simp: VerifySecret_def HashSecret_def bcrypt_ok_def)
  with conf r s' show ?thesis by (simp add: mem_GetClient_def)
qed

lemma registered_secret_verifies_witness:
  "\<exists>resp s' client. process_registration memory_StoreOps ex_reg_cfg ex_reg_env ex_reg_req NewMemoryStore_oauth = (Inr resp, s') \<and>
     mem_GetClient (rs_ClientID resp) s' = Inr client \<and>
     VerifySecret ex_bcrypt (cl_ClientSecretHash client) (rs_ClientSecret resp) = Inr ()"
proof -
  have "bcrypt_ok (re_bcrypt ex_reg_env)" "re_bcrypt ex_reg_env = ex_bcrypt"
    by (simp_all add: bcrypt_ok_def ex_reg_env_def ex_bcrypt_def)
  with ex_registers registered_secret_verifies [of ex_reg_env ex_reg_cfg ex_reg_req NewMemoryStore_oauth]
  show ?thesis by metis
qed

text \<open>
  Answers of the registration endpoint. Every request is answered once, with no-store caching
  headers; a client is stored only with status 201, and every refusal leaves the store as it was.
\<close>

lemma registration_answers:
  assumes "unsent w" "registration_ServeHTTP memory_StoreOps cfg env meth body (s, w) = (s', w')"
  shows "w_status w' \<in> {201, 400, 405, 500} \<and> length (w_body w') = 1 \<and>
    header_Get (w_sent w') ''Cache-Control'' = ''no-store'' \<and> (w_status w' \<noteq> 201 \<longrightarrow> s' = s)"
proof -
  have hdr: "header_Get (no_store_headers h) ''Cache-Control'' = ''no-store''" for h
    by (simp add: no_store_headers_def header_Get_Set canonical_key_def upper_char_def lower_char_def)
  have err: "w_status (writeRegistrationError st c d w) = st" "length (w_body (writeRegistrationError st c d w)) = 1"
    "header_Get (w_sent (writeRegistrationError st c d w)) ''Cache-Control'' = ''no-store''"
    if "st \<in> {400, 405, 500}" for st c d
    using assms(1) that hdr
    by (auto simp: writeRegistrationError_def unsent_def w_WriteHeader_def informational_def)
  have code: "st \<in> {400, 500}" if "process_registration memory_StoreOps cfg env req s = (Inl (st, c, d), s1)" for req st c d s1
    using that
    by (auto simp: process_registration_def register_client_def normalizeGrantTypes_def normalizeResponseTypes_def
        check_supported_def normalizeAuthMethod_def Let_def memory_StoreOps_def mem_SaveClient_def
        split: if_splits option.splits sum.splits)
  show ?thesis
  proof (cases "meth \<noteq> ''POST'' \<or> (\<exists>e. body = Inl e)")
    case True
    with assms(2) err [of 405] err [of 400] show ?thesis
      by (auto simp: registration_ServeHTTP_def split: if_splits)
  next
    case False
    then obtain req where req: "meth = ''POST''" "body = Inr req" by (cases body) auto
    show ?thesis
    proof (cases "process_registration memory_StoreOps cfg env req s")
      case (Pair r s1)
      show ?thesis
      proof (cases r)
        case (Inl e)
        with Pair req assms(2) code [of req] err process_registration_Inl_mem show ?thesis
          by (cases e) (fastforce simp: registration_ServeHTTP_def)
      next
        case (Inr resp)
        with Pair req assms hdr show ?thesis
          by (auto simp: registration_ServeHTTP_def unsent_def w_WriteHeader_def informational_def)
      qed
    qed
  qed
qed

lemma registration_answers_witness:
  "\<exists>s' w'. registration_ServeHTTP memory_StoreOps ex_reg_cfg ex_reg_env ''GET'' (Inr ex_reg_req)
      (NewMemoryStore_oauth, new_writer) = (s', w') \<and> w_status w' = 405 \<and> s' = NewMemoryStore_oauth"
proof -
  obtain s' w' where r: "registration_ServeHTTP memory_StoreOps ex_reg_cfg ex_reg_env ''GET'' (Inr ex_reg_req)
      (NewMemoryStore_oauth, new_writer) = (s', w')" by fastforce
  then have "w_status w' = 405"
    by (auto simp: registration_ServeHTTP_def writeRegistrationError_def w_WriteHeader_def new_writer_def
        informational_def)
  with registration_answers [OF unsent_new r] r show ?thesis by simp
qed

end
