(* ===== verification/ClientMetadata.thy ===== *)
theory ClientMetadata
  imports Registration
begin

text \<open>
  Client ID Metadata Documents (\<^verbatim>\<open>oauth/cimd.go\<close>, \<^verbatim>\<open>oauth/cimd_transport.go\<close>): which client IDs are
  metadata URLs, which documents are accepted, how long they are cached, and the network policy of
  the fetching client. The HTTP exchange itself, name resolution and dialling are parameters.
\<close>

section \<open>Configuration and documents\<close>

definition DefaultClientMetadataCacheTTL :: duration where
  "DefaultClientMetadataCacheTTL = 5 * time_Minute"
definition clientMetadataMaxRedirects :: nat where "clientMetadataMaxRedirects = 3"
definition clientMetadataMaxCacheItems :: nat where "clientMetadataMaxCacheItems = 256"

definition supportedMetadataGrantTypes :: "string list" where
  "supportedMetadataGrantTypes = [''authorization_code'', ''refresh_token'']"
definition supportedMetadataResponseTypes :: "string list" where "supportedMetadataResponseTypes = [''code'']"
definition supportedMetadataApplicationTypes :: "string list" where
  "supportedMetadataApplicationTypes = [''native'', ''web'']"

record clientMetadataDocument =
  md_ClientID :: string
  md_ClientName :: string
  md_RedirectURIs :: "string list"
  md_GrantTypes :: "string list"
  md_ResponseTypes :: "string list"
  md_TokenEndpointAuthMethod :: string
  md_Scope :: string
  md_ApplicationType :: string
  md_LogoURI :: string

record ClientMetadataPolicy =
  mp_Audience :: string
  mp_AllowedScopes :: "string list"
  mp_DefaultScopes :: "string list"

record cachedMetadataDocument =
  cd_client :: Client
  cd_expiresAt :: gotime

text \<open>A fetcher: its configuration, and the cache as its state.\<close>

record fetcher =
  ft_allowLoopback :: bool
  ft_cacheTTL :: duration
  ft_audience :: string
  ft_defaultScopes :: "string list"
  ft_allowedScopes :: "string list"
  ft_allowed :: "string list"

type_synonym metadata_cache = "cachedMetadataDocument gomap"

definition NewClientIDMetadataFetcher :: "bool \<Rightarrow> duration \<Rightarrow> ClientMetadataPolicy \<Rightarrow> fetcher" where
  "NewClientIDMetadataFetcher allowLoopback cacheTTL policy =
     \<lparr>ft_allowLoopback = allowLoopback,
      ft_cacheTTL = (if cacheTTL \<le> 0 then DefaultClientMetadataCacheTTL else cacheTTL),
      ft_audience = mp_Audience policy, ft_defaultScopes = mp_DefaultScopes policy,
      ft_allowedScopes = mp_AllowedScopes policy, ft_allowed = scopeSet (mp_AllowedScopes policy)\<rparr>"

section \<open>Metadata URLs\<close>

definition clientMetadataURL :: "url \<Rightarrow> bool \<Rightarrow> bool" where
  "clientMetadataURL parsed allowLoopback =
     (if u_Host parsed = [] then False
      else if u_User parsed \<noteq> None \<or> u_Fragment parsed \<noteq> [] then False
      else if u_Path parsed = [] \<or> u_Path parsed = ''/'' then False
      else if u_Scheme parsed = ''https'' then True
      else if u_Scheme parsed = ''http'' then allowLoopback \<and> isLoopbackHost (url_Hostname parsed)
      else False)"

definition clientMetadataURLString :: "string \<Rightarrow> bool \<Rightarrow> bool" where
  "clientMetadataURLString rawURL allowLoopback =
     (case url_Parse rawURL of Inl _ \<Rightarrow> False | Inr parsed \<Rightarrow> clientMetadataURL parsed allowLoopback)"

section \<open>Validation of a document\<close>

definition md_error :: "string \<Rightarrow> goerr" where "md_error s = Plain (''client metadata: '' @ s)"

definition validateMetadataGrantTypes :: "string list \<Rightarrow> unit result" where
  "validateMetadataGrantTypes grantTypes =
     (case List.find (\<lambda>g. g \<notin> set supportedMetadataGrantTypes) grantTypes of
        Some g \<Rightarrow> Inl (md_error (''grant type '' @ go_Quote g @ '' is not supported'')) | None \<Rightarrow> Inr ())"

definition validateMetadataResponseTypes :: "string list \<Rightarrow> unit result" where
  "validateMetadataResponseTypes responseTypes =
     (case List.find (\<lambda>r. r \<notin> set supportedMetadataResponseTypes) responseTypes of
        Some r \<Rightarrow> Inl (md_error (''response type '' @ go_Quote r @ '' is not supported'')) | None \<Rightarrow> Inr ())"

definition validateMetadataApplicationType :: "string \<Rightarrow> unit result" where
  "validateMetadataApplicationType applicationType =
     (if applicationType = [] then Inr ()
      else if applicationType \<notin> set supportedMetadataApplicationTypes
      then Inl (md_error (''application_type '' @ go_Quote applicationType @ '' is not supported''))
      else Inr ())"

definition validateMetadataAuthMethod :: "string \<Rightarrow> unit result" where
  "validateMetadataAuthMethod meth =
     (if meth = [] \<or> meth = authMethodNone then Inr ()
      else Inl (md_error (''token_endpoint_auth_method '' @ go_Quote meth @
             '' requires a client secret, which a public document cannot hold'')))"

definition audienceArguments :: "fetcher \<Rightarrow> string list" where
  "audienceArguments f = (if ft_audience f = [] then [] else [ft_audience f])"

definition metadata_name :: "string \<Rightarrow> string" where
  "metadata_name requested =
     (let n = go_TrimSpace requested;
          n' = (if length n > maxClientNameLen then take maxClientNameLen n else n)
      in if n' = [] then defaultClientName else n')"

definition redirects_result :: "string list \<Rightarrow> unit result" where
  "redirects_result uris =
     (case first_error validateRedirectURI uris of
        Some e \<Rightarrow> Inl (Wrap ''client metadata'' e) | None \<Rightarrow> Inr ())"

definition clientFromDocument :: "fetcher \<Rightarrow> string \<Rightarrow> clientMetadataDocument \<Rightarrow> Client result" where
  "clientFromDocument f clientID document =
     (if md_ClientID document \<noteq> clientID
      then Inl (md_error (''document client_id '' @ go_Quote (md_ClientID document) @
                  '' does not match '' @ go_Quote clientID))
      else if md_RedirectURIs document = [] then Inl (md_error ''redirect_uris is required'')
      else
        bind_res (redirects_result (md_RedirectURIs document)) (\<lambda>_.
        bind_res (validateMetadataGrantTypes (md_GrantTypes document)) (\<lambda>_.
        bind_res (validateMetadataResponseTypes (md_ResponseTypes document)) (\<lambda>_.
        bind_res (validateMetadataApplicationType (md_ApplicationType document)) (\<lambda>_.
        bind_res (validateMetadataAuthMethod (md_TokenEndpointAuthMethod document)) (\<lambda>_.
        (case validateLogoURI (md_LogoURI document) of
           Inl e \<Rightarrow> Inl (Wrap ''client metadata'' e)
         | Inr _ \<Rightarrow>
        (case normalizeScopesWithDefault (md_Scope document) (ft_defaultScopes f) (ft_allowedScopes f)
                (ft_allowed f) of
           Inl e \<Rightarrow> Inl (Wrap ''client metadata'' e)
         | Inr (scopes, _) \<Rightarrow>
             Inr \<lparr>cl_ID = clientID, cl_Name = metadata_name (md_ClientName document),
                  cl_RedirectURIs = md_RedirectURIs document,
                  cl_GrantTypes = (if md_GrantTypes document = [] then [''authorization_code'', ''refresh_token'']
                                   else md_GrantTypes document),
                  cl_ResponseTypes = (if md_ResponseTypes document = [] then [''code'']
                                      else md_ResponseTypes document),
                  cl_Scopes = scopes, cl_Audience = audienceArguments f, cl_IsPublic = True,
                  cl_ClientSecretHash = [], cl_TokenAuthMethod = authMethodNone,
                  cl_LogoURI = md_LogoURI document\<rparr>))))))))"

section \<open>Cache lifetimes\<close>

text \<open>
  The first \<^verbatim>\<open>max-age\<close> directive decides; \<open>parse_time\<close> is \<^verbatim>\<open>http.ParseTime\<close>.
\<close>

fun find_max_age :: "string list \<Rightarrow> string option" where
  "find_max_age [] = None"
| "find_max_age (directive # ds) =
     (case go_CutPrefix (go_TrimSpace directive) ''max-age='' of
        None \<Rightarrow> find_max_age ds | Some v \<Rightarrow> Some v)"

definition cacheLifetime ::
  "(string \<Rightarrow> gotime result) \<Rightarrow> header \<Rightarrow> duration \<Rightarrow> gotime \<Rightarrow> duration" where
  "cacheLifetime parse_time hdr fallback now =
     (let cacheControl = go_ToLower (header_Get hdr ''Cache-Control'')
      in if go_Contains cacheControl ''no-store'' \<or> go_Contains cacheControl ''no-cache'' then 0
         else (case find_max_age (go_Split cacheControl (CHR '','')) of
                 Some v \<Rightarrow>
                   (case ParseDuration (v @ ''s'') of
                      Inl _ \<Rightarrow> fallback
                    | Inr seconds \<Rightarrow> if seconds < 0 then 0 else seconds)
               | None \<Rightarrow>
                   (case parse_time (header_Get hdr ''Expires'') of
                      Inr expires \<Rightarrow>
                        (let lifetime = time_Sub expires now in if lifetime > 0 then lifetime else 0)
                    | Inl _ \<Rightarrow> fallback)))"

section \<open>Resolution\<close>

text \<open>
  An HTTP exchange: transport error, or a response with status, header and the decoded body (the
  decoder refuses unknown members and more than 64 KiB).
\<close>

record metadata_response =
  mr_StatusCode :: int
  mr_Header :: header
  mr_Document :: "clientMetadataDocument result"

definition fetch ::
  "(string \<Rightarrow> gotime result) \<Rightarrow> fetcher \<Rightarrow> (string \<Rightarrow> metadata_response result) \<Rightarrow> gotime \<Rightarrow> string \<Rightarrow>
   (clientMetadataDocument \<times> duration) result" where
  "fetch parse_time f http_Do now clientID =
     (case http_Do clientID of
        Inl e \<Rightarrow> Inl (Wrap (''client metadata: fetch '' @ clientID) e)
      | Inr response \<Rightarrow>
          if mr_StatusCode response \<noteq> 200
          then Inl (md_error (clientID @ '' returned status '' @ FormatInt (mr_StatusCode response)))
          else (case mr_Document response of
                  Inl e \<Rightarrow> Inl (Wrap (''client metadata: decode '' @ clientID) e)
                | Inr document \<Rightarrow>
                    Inr (document, cacheLifetime parse_time (mr_Header response) (ft_cacheTTL f) now)))"

definition cached :: "fetcher \<Rightarrow> gotime \<Rightarrow> string \<Rightarrow> metadata_cache \<Rightarrow> Client option \<times> metadata_cache" where
  "cached f now clientID cache =
     (if ft_cacheTTL f \<le> 0 then (None, cache)
      else (case gm_get cache clientID of
              None \<Rightarrow> (None, cache)
            | Some entry \<Rightarrow>
                if \<not> time_After (cd_expiresAt entry) now then (None, gm_del clientID cache)
                else (Some (cd_client entry), cache)))"

definition evictExpiredLocked :: "gotime \<Rightarrow> metadata_cache \<Rightarrow> metadata_cache" where
  "evictExpiredLocked now cache = filter (\<lambda>(_, entry). time_After (cd_expiresAt entry) now) cache"

text \<open>
  A full cache loses the key that map iteration happens to give first, at position \<open>victim\<close> here.
\<close>

definition evict_one :: "nat \<Rightarrow> metadata_cache \<Rightarrow> metadata_cache" where
  "evict_one victim cache =
     (if cache = [] then cache else gm_del (fst (cache ! (victim mod length cache))) cache)"

definition store_metadata ::
  "gotime \<Rightarrow> gotime \<Rightarrow> nat \<Rightarrow> string \<Rightarrow> Client \<Rightarrow> duration \<Rightarrow> metadata_cache \<Rightarrow> metadata_cache" where
  "store_metadata now_evict now victim clientID client lifetime cache =
     (if lifetime \<le> 0 then cache
      else
        (let c1 = (if length cache \<ge> clientMetadataMaxCacheItems then evictExpiredLocked now_evict cache else cache);
             c2 = (if length c1 \<ge> clientMetadataMaxCacheItems then evict_one victim c1 else c1)
         in gm_put clientID \<lparr>cd_client = client, cd_expiresAt = time_Add now lifetime\<rparr> c2))"

text \<open>
  The environment of one resolution: clock readings in the order taken (lookup, after the
  response, eviction, storing), the HTTP client, and the iteration position.
\<close>

record resolve_env =
  rv_now_lookup :: gotime
  rv_now_fetch :: gotime
  rv_now_evict :: gotime
  rv_now_store :: gotime
  rv_http_Do :: "string \<Rightarrow> metadata_response result"
  rv_parse_time :: "string \<Rightarrow> gotime result"
  rv_victim :: nat

definition ResolveClient ::
  "fetcher \<Rightarrow> resolve_env \<Rightarrow> string \<Rightarrow> metadata_cache \<Rightarrow> Client result \<times> metadata_cache" where
  "ResolveClient f env clientID cache =
     (if \<not> clientMetadataURLString clientID (ft_allowLoopback f)
      then (Inl (Sentinel ErrNotAClientMetadataURL), cache)
      else (case cached f (rv_now_lookup env) clientID cache of
              (Some client, c1) \<Rightarrow> (Inr client, c1)
            | (None, c1) \<Rightarrow>
                (case fetch (rv_parse_time env) f (rv_http_Do env) (rv_now_fetch env) clientID of
                   Inl e \<Rightarrow> (Inl e, c1)
                 | Inr (document, cacheTTL) \<Rightarrow>
                     (case clientFromDocument f clientID document of
                        Inl e \<Rightarrow> (Inl e, c1)
                      | Inr client \<Rightarrow>
                          (Inr client, store_metadata (rv_now_evict env) (rv_now_store env) (rv_victim env)
                                         clientID client cacheTTL c1)))))"

section \<open>The fetching client\<close>

definition errBlockedTarget :: string where "errBlockedTarget = ''client metadata: blocked network target''"

definition clientMetadataTargetAllowed :: "ip \<Rightarrow> bool \<Rightarrow> bool" where
  "clientMetadataTargetAllowed a allowLoopback =
     (if IsLoopback a then allowLoopback
      else \<not> IsPrivate a \<and> \<not> IsLinkLocalUnicast a \<and> \<not> IsLinkLocalMulticast a \<and>
           \<not> IsInterfaceLocalMulticast a \<and> \<not> IsMulticast a \<and> \<not> IsUnspecified a)"

text \<open>
  The dial loop over the resolved addresses: the connection or the last error, and the addresses
  that were dialled, in order. \<open>dial\<close> is the outcome of connecting to an address.
\<close>

fun dial_loop ::
  "bool \<Rightarrow> (ip \<Rightarrow> 'conn result) \<Rightarrow> goerr option \<Rightarrow> ip list \<Rightarrow> ('conn result option \<times> goerr option) \<times> ip list" where
  "dial_loop allowLoopback dial lastErr [] = ((None, lastErr), [])"
| "dial_loop allowLoopback dial lastErr (a # as) =
     (if \<not> clientMetadataTargetAllowed a allowLoopback
      then dial_loop allowLoopback dial (Some (Wrap ''blocked'' (Sentinel errBlockedTarget))) as
      else (case dial a of
              Inl e \<Rightarrow>
                (case dial_loop allowLoopback dial (Some e) as of (r, tried) \<Rightarrow> (r, a # tried))
            | Inr conn \<Rightarrow> ((Some (Inr conn), None), [a])))"

definition DialContext ::
  "bool \<Rightarrow> (string \<Rightarrow> ip list result) \<Rightarrow> (ip \<Rightarrow> 'conn result) \<Rightarrow> string \<Rightarrow> 'conn result \<times> ip list" where
  "DialContext allowLoopback lookup dial host =
     (case lookup host of
        Inl e \<Rightarrow> (Inl (Wrap ''client metadata: resolve'' e), [])
      | Inr addrs \<Rightarrow>
          if addrs = [] then (Inl (Wrap ''no addresses'' (Sentinel errBlockedTarget)), [])
          else (case dial_loop allowLoopback dial None addrs of
                  ((Some r, _), tried) \<Rightarrow> (r, tried)
                | ((None, Some e), tried) \<Rightarrow> (Inl e, tried)
                | ((None, None), tried) \<Rightarrow> (Inl (Sentinel errBlockedTarget), tried)))"

text \<open>\<^verbatim>\<open>CheckRedirect\<close>, given the number of requests already made and the parsed target.\<close>

definition CheckRedirect :: "bool \<Rightarrow> nat \<Rightarrow> url \<Rightarrow> unit result" where
  "CheckRedirect allowLoopback via_count target =
     (if via_count \<ge> clientMetadataMaxRedirects then Inl (md_error ''exceeded 3 redirects'')
      else if \<not> clientMetadataURL target allowLoopback then Inl (md_error ''redirect to disallowed URL'')
      else Inr ())"

section \<open>What a resolved client may be\<close>

definition metadata_client_ok :: "fetcher \<Rightarrow> string \<Rightarrow> Client \<Rightarrow> bool" where
  "metadata_client_ok f clientID c =
     (cl_ID c = clientID \<and> clientMetadataURLString clientID (ft_allowLoopback f) \<and>
      cl_IsPublic c \<and> cl_ClientSecretHash c = [] \<and> cl_TokenAuthMethod c = ''none'' \<and>
      cl_RedirectURIs c \<noteq> [] \<and> (\<forall>uri \<in> set (cl_RedirectURIs c). safe_redirect uri) \<and>
      set (cl_GrantTypes c) \<subseteq> {''authorization_code'', ''refresh_token''} \<and> set (cl_ResponseTypes c) \<subseteq> {''code''} \<and>
      set (cl_Scopes c) \<subseteq> set (ft_allowed f) \<and> set (cl_Audience c) \<subseteq> {ft_audience f} \<and>
      cl_Name c \<noteq> [] \<and> length (cl_Name c) \<le> 200)"

lemma validateMetadata_Inr:
  "validateMetadataGrantTypes gs = Inr () \<Longrightarrow> set gs \<subseteq> {''authorization_code'', ''refresh_token''}"
  "validateMetadataResponseTypes rs = Inr () \<Longrightarrow> set rs \<subseteq> {''code''}"
  by (auto simp: validateMetadataGrantTypes_def validateMetadataResponseTypes_def find_None_iff
      supportedMetadataGrantTypes_def supportedMetadataResponseTypes_def split: option.splits)

lemma metadata_name_bounds: "metadata_name n \<noteq> [] \<and> length (metadata_name n) \<le> 200"
  by (auto simp: metadata_name_def Let_def maxClientNameLen_def defaultClientName_def)

lemma bind_res_Inr [simp]: "bind_res r k = Inr y \<longleftrightarrow> (\<exists>x. r = Inr x \<and> k x = Inr y)"
  by (cases r) (auto simp: bind_res_def)

lemma clientFromDocument_Inr:
  assumes "clientFromDocument f clientID document = Inr c" "clientMetadataURLString clientID (ft_allowLoopback f)"
  shows "metadata_client_ok f clientID c \<and> md_ClientID document = clientID"
proof -
  from assms(1) obtain scopes str where
    id: "md_ClientID document = clientID" and red: "md_RedirectURIs document \<noteq> []"
    "first_error validateRedirectURI (md_RedirectURIs document) = None"
    and gr: "validateMetadataGrantTypes (md_GrantTypes document) = Inr ()"
    and rt: "validateMetadataResponseTypes (md_ResponseTypes document) = Inr ()"
    and sc: "normalizeScopesWithDefault (md_Scope document) (ft_defaultScopes f) (ft_allowedScopes f)
               (ft_allowed f) = Inr (scopes, str)"
    and c: "c = \<lparr>cl_ID = clientID, cl_Name = metadata_name (md_ClientName document),
                  cl_RedirectURIs = md_RedirectURIs document,
                  cl_GrantTypes = (if md_GrantTypes document = [] then [''authorization_code'', ''refresh_token'']
                                   else md_GrantTypes document),
                  cl_ResponseTypes = (if md_ResponseTypes document = [] then [''code'']
                                      else md_ResponseTypes document),
                  cl_Scopes = scopes, cl_Audience = audienceArguments f, cl_IsPublic = True,
                  cl_ClientSecretHash = [], cl_TokenAuthMethod = authMethodNone,
                  cl_LogoURI = md_LogoURI document\<rparr>"
    by (auto simp: clientFromDocument_def redirects_result_def split: if_splits sum.splits option.splits)
  show ?thesis
    using assms(2) red gr rt id validateMetadata_Inr(1) [OF gr] validateMetadata_Inr(2) [OF rt]
      normalizeScopesWithDefault_Inr [OF sc] metadata_name_bounds [of "md_ClientName document"]
    by (auto simp: metadata_client_ok_def c audienceArguments_def authMethodNone_def first_error_None
        validateRedirectURI_iff)
qed

text \<open>A scope outside the allowed ones refuses the whole document; it is not dropped from the request.\<close>

lemma document_scope_not_intersected:
  assumes "go_TrimSpace (md_Scope document) \<noteq> []" "\<not> set (go_Fields (md_Scope document)) \<subseteq> set (ft_allowed f)"
  shows "\<exists>e. clientFromDocument f clientID document = Inl e"
proof (cases "clientFromDocument f clientID document")
  case (Inr c)
  then obtain scopes str where
    "normalizeScopesWithDefault (md_Scope document) (ft_defaultScopes f) (ft_allowedScopes f) (ft_allowed f)
       = Inr (scopes, str)"
    by (auto simp: clientFromDocument_def split: if_splits sum.splits)
  with assms(1) have "normalizeScopes (md_Scope document) (ft_allowed f) = Inr (scopes, str)"
    by (simp add: normalizeScopesWithDefault_def)
  with assms(2) show ?thesis using normalizeScopes_Inr by blast
qed auto

section \<open>The cache\<close>

definition cache_inv :: "fetcher \<Rightarrow> metadata_cache \<Rightarrow> bool" where
  "cache_inv f cache =
     (gm_wf cache \<and> length cache \<le> clientMetadataMaxCacheItems \<and>
      (\<forall>(cid, entry) \<in> set cache. metadata_client_ok f cid (cd_client entry)))"

lemma length_gm_put: "length (gm_put k v m) \<le> Suc (length m)"
  by (induction m) (auto simp: gm_put_def)

lemma length_gm_del_mem: "k \<in> fst ` set m \<Longrightarrow> length (gm_del k m) < length m"
  by (auto simp: gm_del_def AList.delete_eq length_filter_less)

lemma set_gm_put: "(k', v') \<in> set (gm_put k v m) \<Longrightarrow> (k', v') = (k, v) \<or> (k', v') \<in> set m"
  by (induction m) (auto simp: gm_put_def split: if_splits)

lemma length_gm_put_mem: "k \<in> fst ` set m \<Longrightarrow> length (gm_put k v m) = length m"
  by (induction m) (auto simp: gm_put_def)

lemma cache_inv_del: "cache_inv f cache \<Longrightarrow> cache_inv f (gm_del k cache)"
proof -
  assume inv: "cache_inv f cache"
  have "length (gm_del k cache) \<le> length cache" by (simp add: gm_del_def AList.delete_eq)
  with inv show ?thesis by (auto simp: cache_inv_def set_gm_del)
qed

lemma cache_inv_cached: "cache_inv f cache \<Longrightarrow> cached f now cid cache = (r, c') \<Longrightarrow> cache_inv f c'"
  by (auto simp: cached_def cache_inv_del split: if_splits option.splits)

lemma length_evict_one:
  "cache \<noteq> [] \<Longrightarrow> length (evict_one victim cache) < length cache"
proof -
  assume "cache \<noteq> []"
  then have "fst (cache ! (victim mod length cache)) \<in> fst ` set cache" by simp
  from length_gm_del_mem [OF this] \<open>cache \<noteq> []\<close> show ?thesis by (simp add: evict_one_def)
qed

lemma cache_inv_store:
  assumes "cache_inv f cache" "metadata_client_ok f cid client"
  shows "cache_inv f (store_metadata now_evict now victim cid client lifetime cache)"
proof (cases "lifetime \<le> 0")
  case True
  with assms show ?thesis by (simp add: store_metadata_def)
next
  case False
  define c1 where "c1 = (if length cache \<ge> clientMetadataMaxCacheItems then evictExpiredLocked now_evict cache else cache)"
  define c2 where "c2 = (if length c1 \<ge> clientMetadataMaxCacheItems then evict_one victim c1 else c1)"
  have c1: "cache_inv f c1"
    using assms(1) unfolding c1_def cache_inv_def evictExpiredLocked_def
    by (auto intro: le_trans [OF length_filter_le])
  have "length c2 < clientMetadataMaxCacheItems"
  proof (cases "length c1 \<ge> clientMetadataMaxCacheItems")
    case True
    then have "c1 \<noteq> []" by (auto simp: clientMetadataMaxCacheItems_def)
    with length_evict_one [OF this, of victim] c1 True show ?thesis by (simp add: c2_def cache_inv_def)
  qed (simp add: c2_def)
  moreover have "cache_inv f c2" using c1 cache_inv_del unfolding c2_def evict_one_def by auto
  moreover have "store_metadata now_evict now victim cid client lifetime cache =
      gm_put cid \<lparr>cd_client = client, cd_expiresAt = time_Add now lifetime\<rparr> c2"
    using False by (simp add: store_metadata_def c1_def c2_def Let_def)
  ultimately show ?thesis using assms(2) length_gm_put [of cid _ c2]
    by (fastforce simp: cache_inv_def dest: set_gm_put intro: le_trans [OF length_gm_put])
qed

lemma ResolveClient_inv:
  assumes "cache_inv f cache" "ResolveClient f env cid cache = (r, cache')"
  shows "cache_inv f cache' \<and> (\<forall>c. r = Inr c \<longrightarrow> metadata_client_ok f cid c)"
proof (cases "clientMetadataURLString cid (ft_allowLoopback f)")
  case False
  with assms show ?thesis by (auto simp: ResolveClient_def)
next
  case True
  obtain hit c1 where hit: "cached f (rv_now_lookup env) cid cache = (hit, c1)" by fastforce
  note inv1 = cache_inv_cached [OF assms(1) hit]
  show ?thesis
  proof (cases hit)
    case (Some client)
    with hit obtain entry where "gm_get cache cid = Some entry" "client = cd_client entry"
      by (auto simp: cached_def split: if_splits option.splits)
    then have "metadata_client_ok f cid client"
      using assms(1) by (auto simp: cache_inv_def gm_get_in_set)
    with True hit Some assms(2) inv1 show ?thesis by (auto simp: ResolveClient_def)
  next
    case None
    show ?thesis
    proof (cases "fetch (rv_parse_time env) f (rv_http_Do env) (rv_now_fetch env) cid")
      case (Inl e)
      with True hit None assms(2) inv1 show ?thesis by (auto simp: ResolveClient_def)
    next
      case (Inr dt)
      with True hit None assms(2) inv1 clientFromDocument_Inr [OF _ True, of "fst dt"] cache_inv_store [OF inv1]
      show ?thesis by (cases dt) (auto simp: ResolveClient_def split: sum.splits)
    qed
  qed
qed

fun resolve_history :: "fetcher \<Rightarrow> (resolve_env \<times> string) list \<Rightarrow> metadata_cache \<Rightarrow> metadata_cache" where
  "resolve_history f [] cache = cache"
| "resolve_history f ((env, cid) # rs) cache = resolve_history f rs (snd (ResolveClient f env cid cache))"

lemma resolve_history_inv: "cache_inv f cache \<Longrightarrow> cache_inv f (resolve_history f rs cache)"
proof (induction f rs cache rule: resolve_history.induct)
  case (2 f env cid rs cache)
  have "cache_inv f (snd (ResolveClient f env cid cache))"
    using ResolveClient_inv [OF 2(2), of env cid] by (metis prod.collapse)
  with 2(1) show ?case by simp
qed simp

section \<open>Blocked addresses\<close>

lemma dial_loop_allowed:
  "dial_loop allowLoopback dial e addrs = (r, tried) \<Longrightarrow>
   \<forall>a \<in> set tried. a \<in> set addrs \<and> clientMetadataTargetAllowed a allowLoopback"
  by (induction addrs arbitrary: e r tried) (fastforce split: if_splits sum.splits prod.splits)+

lemma DialContext_allowed:
  assumes "DialContext allowLoopback lookup dial host = (r, tried)" "a \<in> set tried"
  shows "clientMetadataTargetAllowed a allowLoopback"
proof (cases "lookup host")
  case (Inl e)
  with assms show ?thesis by (simp add: DialContext_def)
next
  case (Inr addrs)
  obtain lr t where "dial_loop allowLoopback dial None addrs = (lr, t)" by fastforce
  with assms Inr dial_loop_allowed [OF this] show ?thesis
    by (cases lr) (auto simp: DialContext_def split: if_splits option.splits)
qed

lemma octet_ranges:
  fixes q :: "8 word"
  shows "(q AND 0xf0 = 16) = (16 \<le> q \<and> q \<le> 31)" "(q AND 0xf0 = 0xe0) = (224 \<le> q \<and> q \<le> 239)"
proof -
  have tab: "list_all (\<lambda>n. ((word_of_nat n :: 8 word) AND 0xf0 = 16) = (16 \<le> n \<and> n \<le> 31) \<and>
      ((word_of_nat n :: 8 word) AND 0xf0 = 0xe0) = (224 \<le> n \<and> n \<le> 239)) [0..<256]"
    by code_simp
  have mem: "unat q \<in> set [0..<256]" using unsigned_less [where w = q and 'a = nat] by simp
  from bspec [OF tab [unfolded list_all_iff] mem]
  show "(q AND 0xf0 = 16) = (16 \<le> q \<and> q \<le> 31)" "(q AND 0xf0 = 0xe0) = (224 \<le> q \<and> q \<le> 239)"
    by (simp_all add: word_le_nat_alt)
qed

section \<open>Properties\<close>

text \<open>
  C14 (no access to internal networks). Whatever names resolve to and whatever connections fail, the
  client that fetches metadata documents in production dials no loopback, unspecified, private,
  link-local or multicast address, of either IP version; on IPv4 these are the ranges written out.
\<close>

theorem metadata_fetch_avoids_internal_addresses:
  assumes "DialContext False lookup dial host = (r, tried)" "a \<in> set tried"
  shows "\<not> IsLoopback a \<and> \<not> IsUnspecified a \<and> \<not> IsPrivate a \<and> \<not> IsLinkLocalUnicast a \<and> \<not> IsMulticast a \<and>
    (\<forall>p q x y. To4 a = Some [p, q, x, y] \<longrightarrow>
       p \<noteq> 127 \<and> p \<noteq> 10 \<and> \<not> (p = 172 \<and> 16 \<le> q \<and> q \<le> 31) \<and> \<not> (p = 192 \<and> q = 168) \<and>
       \<not> (p = 169 \<and> q = 254) \<and> \<not> (224 \<le> p \<and> p \<le> 239))"
proof -
  have ok: "\<not> IsLoopback a" "\<not> IsUnspecified a" "\<not> IsPrivate a" "\<not> IsLinkLocalUnicast a" "\<not> IsMulticast a"
    using DialContext_allowed [OF assms] by (auto simp: clientMetadataTargetAllowed_def split: if_splits)
  show ?thesis
  proof (intro conjI ok allI impI)
    fix p q x y
    assume v4: "To4 a = Some [p, q, x, y]"
    from ok(1) v4 show "p \<noteq> 127" by (simp add: IsLoopback_def)
    from ok(3) v4 show "p \<noteq> 10" "\<not> (p = 192 \<and> q = 168)" by (auto simp: IsPrivate_def)
    from ok(3) v4 show "\<not> (p = 172 \<and> 16 \<le> q \<and> q \<le> 31)" by (auto simp: IsPrivate_def octet_ranges)
    from ok(4) v4 show "\<not> (p = 169 \<and> q = 254)" by (auto simp: IsLinkLocalUnicast_def)
    from ok(5) v4 show "\<not> (224 \<le> p \<and> p \<le> 239)" by (auto simp: IsMulticast_def octet_ranges)
  qed
qed

theorem metadata_fetch_avoids_internal_addresses_witness:
  "DialContext False (\<lambda>_. Inr [[10, 0, 0, 1], [93, 184, 216, 34]]) Inr ''example'' = (Inr [93, 184, 216, 34], [[93, 184, 216, 34]]) \<and>
   \<not> IsPrivate [93, 184, 216, 34]"
proof -
  have z: "replicate 4 (0 :: 8 word) = [0, 0, 0, 0]" by (simp add: numeral_eq_Suc)
  have z16: "[93, 184, 216, 34] \<noteq> replicate 16 (0 :: 8 word)" by (auto dest: arg_cong [of _ _ length])
  have d: "DialContext False (\<lambda>_. Inr [[10, 0, 0, 1], [93, 184, 216, 34]]) Inr ''example'' = (Inr [93, 184, 216, 34], [[93, 184, 216, 34]])"
    by (simp add: DialContext_def clientMetadataTargetAllowed_def IsLoopback_def IsPrivate_def IsLinkLocalUnicast_def
        IsLinkLocalMulticast_def IsInterfaceLocalMulticast_def IsMulticast_def IsUnspecified_def To4_def z z16)
  from metadata_fetch_avoids_internal_addresses [OF d, of "[93, 184, 216, 34]"] d show ?thesis by simp
qed

text \<open>
  C24 (a document cannot widen its access). After any history of resolutions, from an empty cache, a
  client resolved from a metadata document has the URL it was fetched from as its ID, is public and
  without secret, redirects only to HTTPS or loopback addresses, and has only scopes the server
  serves, its audience and the supported grants; the cache never holds more than 256 documents.
\<close>

theorem metadata_clients_bounded:
  assumes "ResolveClient f env cid (resolve_history f history []) = (r, cache)"
  shows "length cache \<le> 256 \<and> (\<forall>c. r = Inr c \<longrightarrow> metadata_client_ok f cid c)"
proof -
  have "cache_inv f (resolve_history f history [])"
    by (rule resolve_history_inv) (simp add: cache_inv_def)
  from ResolveClient_inv [OF this assms] show ?thesis
    by (simp add: cache_inv_def clientMetadataMaxCacheItems_def)
qed

definition ex_policy :: ClientMetadataPolicy where
  "ex_policy = \<lparr>mp_Audience = ''https://mcp'', mp_AllowedScopes = [''read''], mp_DefaultScopes = []\<rparr>"

definition ex_document :: clientMetadataDocument where
  "ex_document = \<lparr>md_ClientID = ''https://a/c'', md_ClientName = ''App'', md_RedirectURIs = [''http://localhost/cb''],
     md_GrantTypes = [], md_ResponseTypes = [], md_TokenEndpointAuthMethod = [], md_Scope = [],
     md_ApplicationType = ''native'', md_LogoURI = []\<rparr>"

definition ex_resolve :: resolve_env where
  "ex_resolve = \<lparr>rv_now_lookup = 1, rv_now_fetch = 2, rv_now_evict = 3, rv_now_store = 3,
     rv_http_Do = (\<lambda>_. Inr \<lparr>mr_StatusCode = 200, mr_Header = [(''Cache-Control'', [''max-age=9''])], mr_Document = Inr ex_document\<rparr>),
     rv_parse_time = (\<lambda>_. Inl (Plain ''no time'')), rv_victim = 0\<rparr>"

lemma ex_metadata_url: "clientMetadataURLString ''https://a/c'' False"
  by code_simp

lemma ex_resolves:
  "\<exists>c cache. ResolveClient (NewClientIDMetadataFetcher False 0 ex_policy) ex_resolve ''https://a/c'' [] = (Inr c, cache) \<and>
     cl_Scopes c = [''read'']"
  by (simp add: ResolveClient_def NewClientIDMetadataFetcher_def ex_metadata_url cached_def fetch_def
      ex_resolve_def clientFromDocument_def ex_document_def redirects_result_def ex_redirect_valid
      bind_res_def validateMetadataGrantTypes_def validateMetadataResponseTypes_def
      validateMetadataApplicationType_def validateMetadataAuthMethod_def supportedMetadataApplicationTypes_def
      validateLogoURI_def normalizeScopesWithDefault_def ex_policy_def scopeSet_def graph_char_def Let_def)

theorem metadata_clients_bounded_witness:
  "\<exists>c cache. ResolveClient (NewClientIDMetadataFetcher False 0 ex_policy) ex_resolve ''https://a/c'' [] = (Inr c, cache) \<and>
     metadata_client_ok (NewClientIDMetadataFetcher False 0 ex_policy) ''https://a/c'' c"
proof -
  from ex_resolves obtain c cache where
    r: "ResolveClient (NewClientIDMetadataFetcher False 0 ex_policy) ex_resolve ''https://a/c'' [] = (Inr c, cache)" by blast
  then have "ResolveClient (NewClientIDMetadataFetcher False 0 ex_policy) ex_resolve ''https://a/c''
      (resolve_history (NewClientIDMetadataFetcher False 0 ex_policy) [] []) = (Inr c, cache)" by simp
  from metadata_clients_bounded [OF this] r show ?thesis by blast
qed

text \<open>
  A resolution that cannot fetch answers only with a document cached
  under that ID whose lifetime has not ended; an expired one is dropped from the cache.
\<close>

lemma metadata_cache_is_fresh:
  assumes "\<forall>u. \<exists>e. rv_http_Do env u = Inl e" "ResolveClient f env cid cache = (r, cache')" "gm_wf cache"
  shows "(\<forall>c. r = Inr c \<longrightarrow>
           (\<exists>entry. gm_get cache cid = Some entry \<and> c = cd_client entry \<and>
                    rv_now_lookup env < cd_expiresAt entry \<and> cache' = cache)) \<and>
         (\<forall>entry. clientMetadataURLString cid (ft_allowLoopback f) \<and> 0 < ft_cacheTTL f \<and>
            gm_get cache cid = Some entry \<and> cd_expiresAt entry \<le> rv_now_lookup env \<longrightarrow>
            gm_get cache' cid = None)"
proof -
  from assms(1) obtain e where "rv_http_Do env cid = Inl e" by blast
  then have fetch: "\<exists>e. fetch pt f (rv_http_Do env) now cid = Inl e" for pt now by (simp add: fetch_def)
  obtain hit c1 where hit: "cached f (rv_now_lookup env) cid cache = (hit, c1)" by fastforce
  from fetch [of "rv_parse_time env" "rv_now_fetch env"] assms(2) hit show ?thesis
    by (cases hit) (auto simp: ResolveClient_def cached_def time_After_def split: if_splits option.splits)
qed

lemma metadata_cache_is_fresh_witness:
  "gm_get (snd (ResolveClient (NewClientIDMetadataFetcher False 0 ex_policy)
     (ex_resolve\<lparr>rv_now_lookup := 5, rv_http_Do := (\<lambda>_. Inl (Plain ''down''))\<rparr>) ''https://a/c''
     [(''https://a/c'', \<lparr>cd_client = ex_client, cd_expiresAt = 5\<rparr>)])) ''https://a/c'' = None"
proof -
  let ?f = "NewClientIDMetadataFetcher False 0 ex_policy"
  let ?env = "ex_resolve\<lparr>rv_now_lookup := 5, rv_http_Do := (\<lambda>_. Inl (Plain ''down''))\<rparr>"
  let ?cache = "[(''https://a/c'', \<lparr>cd_client = ex_client, cd_expiresAt = 5\<rparr>)]"
  obtain r cache' where r: "ResolveClient ?f ?env ''https://a/c'' ?cache = (r, cache')" by fastforce
  have "\<forall>u. \<exists>e. rv_http_Do ?env u = Inl e" "gm_wf ?cache" by (simp_all add: gm_wf_def)
  from metadata_cache_is_fresh [OF this(1) r this(2)] r ex_metadata_url show ?thesis
    by (simp add: NewClientIDMetadataFetcher_def DefaultClientMetadataCacheTTL_def time_Minute_def time_Second_def)
qed

text \<open>A \<^verbatim>\<open>max-age\<close> above the configured cache time is honoured as it stands.\<close>

lemma parse_86400s: "ParseDuration ''86400s'' = Inr 86400000000000"
  by code_simp

lemma max_age_exceeds_cache_ttl:
  "cacheLifetime pt [(''Cache-Control'', [''max-age=86400''])] (5 * time_Minute) now = 24 * time_Hour"
proof -
  have cc: "go_ToLower (header_Get [(''Cache-Control'', [''max-age=86400''])] ''Cache-Control'') = ''max-age=86400''"
    by code_simp
  have nc: "\<not> go_Contains ''max-age=86400'' ''no-store''" "\<not> go_Contains ''max-age=86400'' ''no-cache''"
    by code_simp+
  have "go_TrimSpace ''max-age=86400'' = ''max-age=86400''"
    by (rule go_TrimSpace_graph) (simp_all add: graph_char_def)
  then have ma: "find_max_age (go_Split ''max-age=86400'' (CHR '','')) = Some ''86400''"
    by (simp add: go_CutPrefix_def go_HasPrefix_def)
  have "''86400'' @ ''s'' = ''86400s''" by simp
  then show ?thesis unfolding cacheLifetime_def cc Let_def using nc ma parse_86400s
    by (simp add: time_Hour_def time_Minute_def time_Second_def)
qed

end
