(* ===== verification/AuditEvents.thy ===== *)
theory AuditEvents
  imports GoHttp
begin

text \<open>
  Package audit (\<^verbatim>\<open>audit/emitter.go\<close>): the event record and the emitter interface. An emitter belongs
  to the consumer, so it is a parameter: a function from an event to the error it returns, if any.
  Operations that emit return the list of the events they handed to the emitter.
\<close>

record Event =
  ev_EntityType :: string
  ev_EntityID :: string
  ev_Action :: string
  ev_ActorUserID :: "string option"
  ev_ClientID :: string
  ev_Scope :: string
  ev_PayloadHash :: string
  ev_Metadata :: "json gomap"
  ev_Timestamp :: gotime

type_synonym emitter = "Event \<Rightarrow> goerr option"

definition Discard :: emitter where
  "Discard = (\<lambda>_. None)"

definition zero_Event :: Event where
  "zero_Event =
     \<lparr>ev_EntityType = [], ev_EntityID = [], ev_Action = [], ev_ActorUserID = None,
      ev_ClientID = [], ev_Scope = [], ev_PayloadHash = [], ev_Metadata = [], ev_Timestamp = 0\<rparr>"

end
