(* ===== verification/TokenEndpoint.thy ===== *)
theory TokenEndpoint
  imports ClientMetadata AuditEvents
begin

text \<open>
  The OAuth provider (\<^verbatim>\<open>oauth/provider.go\<close>, \<^verbatim>\<open>oauth/config.go\<close>, \<^verbatim>\<open>oauth/handlers.go\<close>,
  \<^verbatim>\<open>oauth/session.go\<close>, \<^verbatim>\<open>oauth/pkce.go\<close>): configuration defaults, the authorization, token and
  revocation handlers, and the replay cache that answers a repeated refresh with the response of
  the first. The OAuth engine (fosite) is a record of functions over its own state; what it writes
  to a response is the list of writer calls it makes.
\<close>

section \<open>Configuration\<close>

record Config =
  cf_Secret :: string
  cf_Issuer :: string
  cf_Audience :: string
  cf_HasStore :: bool
  cf_HasKeyManager :: bool
  cf_AllowedScopes :: "string list"
  cf_DefaultScopes :: "string list"
  cf_AccessTokenLifespan :: duration
  cf_RefreshTokenLifespan :: duration
  cf_AuthorizeCodeLifespan :: duration
  cf_IDTokenLifespan :: duration
  cf_AuditEmitter :: "emitter option"
  cf_RefreshReplayWindow :: duration
  cf_MetadataDisabled :: bool
  cf_MetadataAllowLoopback :: bool
  cf_MetadataCacheTTL :: duration

definition DefaultAccessTokenLifespan :: duration where "DefaultAccessTokenLifespan = time_Hour"
definition DefaultRefreshTokenLifespan :: duration where "DefaultRefreshTokenLifespan = 30 * 24 * time_Hour"

definition or_default :: "duration \<Rightarrow> duration \<Rightarrow> duration" where
  "or_default d def = (if d = 0 then def else d)"

text \<open>\<open>rand_bytes\<close> is the outcome of reading 32 random bytes, used when no secret is configured.\<close>

definition config_applyDefaults :: "string result \<Rightarrow> Config \<Rightarrow> Config result" where
  "config_applyDefaults rand_bytes c =
     (let c1 = c\<lparr>cf_AuditEmitter := (case cf_AuditEmitter c of None \<Rightarrow> Some Discard | e \<Rightarrow> e),
                 cf_AccessTokenLifespan := or_default (cf_AccessTokenLifespan c) DefaultAccessTokenLifespan,
                 cf_RefreshTokenLifespan := or_default (cf_RefreshTokenLifespan c) DefaultRefreshTokenLifespan,
                 cf_AuthorizeCodeLifespan := or_default (cf_AuthorizeCodeLifespan c) (10 * time_Minute),
                 cf_IDTokenLifespan := or_default (cf_IDTokenLifespan c) time_Hour\<rparr>
      in bind_res
           (if cf_Secret c1 = [] then
              (case rand_bytes of
                 Inl e \<Rightarrow> Inl (Wrap ''generate OAuth secret'' e)
               | Inr bytes \<Rightarrow> Inr (c1\<lparr>cf_Secret := bytes\<rparr>))
            else Inr c1)
           (\<lambda>c2.
              if length (cf_Secret c2) \<noteq> 32 then
                Inl (Plain (''oauth secret must be exactly 32 bytes, got '' @ FormatInt (int (length (cf_Secret c2)))))
              else if cf_Issuer c2 = [] then Inl (Plain ''oauth issuer is required'')
              else
                (let c3 = (if cf_Audience c2 = []
                           then c2\<lparr>cf_Audience := go_TrimRight (cf_Issuer c2) (CHR ''/'') @ ''/mcp''\<rparr> else c2)
                 in if \<not> cf_HasStore c3 then Inl (Plain ''oauth store is required'')
                    else if \<not> cf_HasKeyManager c3 then Inl (Plain ''oauth key manager is required'')
                    else Inr c3)))"

text \<open>\<^verbatim>\<open>newOAuthStorage\<close>: the metadata fetcher consulted after a store miss, unless disabled.\<close>

definition newOAuthStorage :: "Config \<Rightarrow> fetcher option" where
  "newOAuthStorage c =
     (if cf_MetadataDisabled c then None
      else Some (NewClientIDMetadataFetcher (cf_MetadataAllowLoopback c) (cf_MetadataCacheTTL c)
             \<lparr>mp_Audience = cf_Audience c, mp_AllowedScopes = cf_AllowedScopes c,
              mp_DefaultScopes = cf_DefaultScopes c\<rparr>))"

section \<open>Sessions and PKCE\<close>

record Subject =
  sj_ID :: string
  sj_Email :: string
  sj_GrantedScopes :: "string list"
  sj_Extra :: "json gomap"

text \<open>The fields of the OIDC session that \<^verbatim>\<open>NewSession\<close> fills in.\<close>

record DefaultSession =
  ds_ClaimsSubject :: string
  ds_ClaimsRequestedAt :: gotime
  ds_ClaimsExtra :: "json gomap"
  ds_Subject :: string
  ds_Username :: string

definition NewSession :: "gotime \<Rightarrow> Subject \<Rightarrow> DefaultSession" where
  "NewSession now subject =
     \<lparr>ds_ClaimsSubject = sj_ID subject, ds_ClaimsRequestedAt = now,
      ds_ClaimsExtra = fold (\<lambda>(key, v). gm_put key v) (sj_Extra subject) [(''email'', JStr (sj_Email subject))],
      ds_Subject = sj_ID subject, ds_Username = sj_Email subject\<rparr>"

record PKCEPair =
  pk_Verifier :: string
  pk_Challenge :: string
  pk_Method :: string

definition randomURLValue :: "string result \<Rightarrow> string result" where
  "randomURLValue rand_bytes =
     (case rand_bytes of Inl e \<Rightarrow> Inl (Wrap ''rand'' e) | Inr v \<Rightarrow> Inr (RawURL_EncodeToString v))"

definition PKCEChallenge :: "(string \<Rightarrow> string) \<Rightarrow> string \<Rightarrow> string" where
  "PKCEChallenge sha256 verifier = RawURL_EncodeToString (sha256 verifier)"

definition NewPKCEPair :: "(string \<Rightarrow> string) \<Rightarrow> string result \<Rightarrow> PKCEPair result" where
  "NewPKCEPair sha256 rand_bytes =
     (case randomURLValue rand_bytes of
        Inl e \<Rightarrow> Inl e
      | Inr verifier \<Rightarrow>
          Inr \<lparr>pk_Verifier = verifier, pk_Challenge = PKCEChallenge sha256 verifier, pk_Method = ''S256''\<rparr>)"

definition RandomState :: "string result \<Rightarrow> string result" where
  "RandomState rand_bytes = randomURLValue rand_bytes"

definition validCodeChallenge :: "string \<Rightarrow> string \<Rightarrow> bool" where
  "validCodeChallenge challenge meth =
     (if meth \<noteq> ''S256'' then False
      else if length challenge \<noteq> 43 then False
      else (case RawURL_DecodeString challenge of Inl _ \<Rightarrow> False | Inr _ \<Rightarrow> True))"

section \<open>Recording a response\<close>

text \<open>The calls an engine makes on a response writer.\<close>

datatype wop = OpHeader "header \<Rightarrow> header" | OpWriteHeader int | OpWrite chunk

record tokenResponseRecorder =
  tr_header :: header
  tr_body :: "chunk list"
  tr_status :: int

definition newTokenResponseRecorder :: tokenResponseRecorder where
  "newTokenResponseRecorder = \<lparr>tr_header = [], tr_body = [], tr_status = 0\<rparr>"

fun recorder_op :: "wop \<Rightarrow> tokenResponseRecorder \<Rightarrow> tokenResponseRecorder" where
  "recorder_op (OpHeader f) r = r\<lparr>tr_header := f (tr_header r)\<rparr>"
| "recorder_op (OpWriteHeader status) r = r\<lparr>tr_status := status\<rparr>"
| "recorder_op (OpWrite c) r =
     (let r' = (if tr_status r = 0 then r\<lparr>tr_status := 200\<rparr> else r) in r'\<lparr>tr_body := tr_body r' @ [c]\<rparr>)"

record replayedTokenResponse =
  rp_body :: "chunk list"
  rp_header :: header
  rp_status :: int
  rp_rotatedAt :: gotime
  rp_firstReplayAt :: gotime
  rp_replayCount :: int
  rp_expiresAt :: gotime

definition recorder_replay :: "tokenResponseRecorder \<Rightarrow> replayedTokenResponse" where
  "recorder_replay r =
     \<lparr>rp_body = tr_body r, rp_header = tr_header r,
      rp_status = (if tr_status r = 0 then 200 else tr_status r),
      rp_rotatedAt = 0, rp_firstReplayAt = 0, rp_replayCount = 0, rp_expiresAt = 0\<rparr>"

definition add_header_values :: "header \<Rightarrow> header \<Rightarrow> header" where
  "add_header_values src dst = fold (\<lambda>(key, vs) h. fold (header_Add key) vs h) src dst"

text \<open>The recorded body goes out chunk by chunk; the code has the chunks in one buffer.\<close>

definition writeReplay :: "replayedTokenResponse \<Rightarrow> writer \<Rightarrow> writer" where
  "writeReplay replay w =
     fold w_Write (rp_body replay)
       (w_WriteHeader (rp_status replay) (w_header (add_header_values (rp_header replay)) w))"

section \<open>The replay cache\<close>

type_synonym replay_cache = "replayedTokenResponse gomap"

text \<open>\<open>sha256_hex\<close> is the lower-case hexadecimal SHA-256 digest.\<close>

definition refreshReplayKey :: "(string \<Rightarrow> string) \<Rightarrow> string \<Rightarrow> string \<Rightarrow> string" where
  "refreshReplayKey sha256_hex clientID refreshToken = sha256_hex (clientID @ [CHR 0x00] @ refreshToken)"

definition cache_replay :: "string \<Rightarrow> gotime \<Rightarrow> replay_cache \<Rightarrow> replayedTokenResponse option \<times> replay_cache" where
  "cache_replay key now entries =
     (case gm_get entries key of
        None \<Rightarrow> (None, entries)
      | Some entry \<Rightarrow>
          if \<not> time_After (rp_expiresAt entry) now then (None, gm_del key entries)
          else
            (let e1 = (if time_IsZero (rp_firstReplayAt entry) then entry\<lparr>rp_firstReplayAt := now\<rparr> else entry);
                 e2 = e1\<lparr>rp_replayCount := wrap64 (rp_replayCount e1 + 1)\<rparr>
             in (Some e2, gm_put key e2 entries)))"

definition cache_set :: "string \<Rightarrow> replayedTokenResponse \<Rightarrow> replay_cache \<Rightarrow> replay_cache" where
  "cache_set key entry entries = gm_put key entry entries"

definition storeRefreshReplay ::
  "duration \<Rightarrow> string \<Rightarrow> replayedTokenResponse \<Rightarrow> gotime \<Rightarrow> replay_cache \<Rightarrow> replay_cache" where
  "storeRefreshReplay replayWindow key replay rotationAt entries =
     (if rp_status replay < 200 \<or> rp_status replay \<ge> 300 then entries
      else cache_set key
             \<lparr>rp_body = rp_body replay, rp_header = rp_header replay, rp_status = rp_status replay,
              rp_rotatedAt = rotationAt, rp_firstReplayAt = 0, rp_replayCount = 0,
              rp_expiresAt = time_Add rotationAt replayWindow\<rparr> entries)"

section \<open>The engine and the provider\<close>

text \<open>
  An access or authorization request of the engine, as far as the handlers use it.
  \<open>en_NewAccessRequest\<close> gives an error, with the request as far as it was built, or an accepted
  request, which always has a client.
\<close>

record engine_request =
  er_ClientID :: "string option"
  er_RequestedScopes :: "string list"
  er_GrantedScopes :: "string list"
  er_RequestedAudience :: "string list"
  er_GrantedAudience :: "string list"

record ('fs, 'resp) engine =
  en_NewAccessRequest :: "url_values \<Rightarrow> 'fs \<Rightarrow> (engine_request option \<times> goerr + engine_request) \<times> 'fs"
  en_NewAccessResponse :: "engine_request \<Rightarrow> 'fs \<Rightarrow> 'resp result \<times> 'fs"
  en_WriteAccessError :: "engine_request option \<Rightarrow> goerr \<Rightarrow> wop list"
  en_WriteAccessResponse :: "engine_request \<Rightarrow> 'resp \<Rightarrow> wop list"
  en_GrantScope :: "string \<Rightarrow> engine_request \<Rightarrow> engine_request"
  en_GrantAudience :: "string \<Rightarrow> engine_request \<Rightarrow> engine_request"
  en_ErrorField :: "goerr \<Rightarrow> string option"

record Provider =
  pv_issuer :: string
  pv_audience :: string
  pv_auditEmitter :: "emitter option"
  pv_replayWindow :: duration

record 'fs token_state =
  ts_engine :: 'fs
  ts_cache :: replay_cache
  ts_events :: "Event list"

definition grantDefaultAudience :: "('fs, 'resp) engine \<Rightarrow> Provider \<Rightarrow> engine_request \<Rightarrow> engine_request" where
  "grantDefaultAudience en p rq =
     (let rq1 = (if er_RequestedAudience rq = [] \<and> pv_audience p \<noteq> []
                 then rq\<lparr>er_RequestedAudience := [pv_audience p]\<rparr> else rq)
      in fold (en_GrantAudience en) (er_RequestedAudience rq1) rq1)"

definition grantSubjectScopes :: "('fs, 'resp) engine \<Rightarrow> string list \<Rightarrow> engine_request \<Rightarrow> engine_request" where
  "grantSubjectScopes en granted rq =
     fold (\<lambda>scope r. if scope \<in> set granted then en_GrantScope en scope r else r) (er_RequestedScopes rq) rq"

definition oauthErrorCode :: "('fs, 'resp) engine \<Rightarrow> goerr \<Rightarrow> string" where
  "oauthErrorCode en err =
     (case en_ErrorField en err of Some f \<Rightarrow> if f \<noteq> [] then f else ''unknown'' | None \<Rightarrow> ''unknown'')"

definition merge_metadata :: "json gomap \<Rightarrow> json gomap \<Rightarrow> json gomap" where
  "merge_metadata extra m = fold (\<lambda>(k, v). gm_put k v) extra m"

definition emitTokenAudit ::
  "('fs, 'resp) engine \<Rightarrow> Provider \<Rightarrow> gotime \<Rightarrow> string \<Rightarrow> string \<Rightarrow> engine_request option \<Rightarrow> string \<Rightarrow> string \<Rightarrow>
   goerr option \<Rightarrow> bool \<Rightarrow> json gomap \<Rightarrow> 'fs token_state \<Rightarrow> 'fs token_state" where
  "emitTokenAudit en p now entityType action requester grantType clientID err replayed extra s =
     (case pv_auditEmitter p of
        None \<Rightarrow> s
      | Some _ \<Rightarrow>
          (let cid = (case requester of
                        Some rq \<Rightarrow> if clientID = [] then (case er_ClientID rq of Some c \<Rightarrow> c | None \<Rightarrow> []) else clientID
                      | None \<Rightarrow> clientID);
               m0 = [(''grant_type'', JStr grantType), (''replayed'', JBool replayed)];
               m1 = (case err of None \<Rightarrow> m0 | Some e \<Rightarrow> gm_put ''error_code'' (JStr (oauthErrorCode en e)) m0)
           in s\<lparr>ts_events := ts_events s @
                  [zero_Event\<lparr>ev_EntityType := entityType, ev_Action := action, ev_ClientID := cid,
                              ev_Scope := (case requester of Some rq \<Rightarrow> go_Join (er_GrantedScopes rq) '' '' | None \<Rightarrow> []),
                              ev_Metadata := merge_metadata extra m1, ev_Timestamp := now\<rparr>]\<rparr>))"

definition executeTokenRequest ::
  "('fs, 'resp) engine \<Rightarrow> Provider \<Rightarrow> gotime \<Rightarrow> url_values \<Rightarrow> string \<Rightarrow> string \<Rightarrow> bool \<Rightarrow> json gomap \<Rightarrow>
   'fs token_state \<Rightarrow> tokenResponseRecorder \<times> 'fs token_state" where
  "executeTokenRequest en p now_audit form grantType clientID replayed metadata s =
     (case en_NewAccessRequest en form (ts_engine s) of
        (Inl (requester, err), fs) \<Rightarrow>
          (fold recorder_op (en_WriteAccessError en requester err) newTokenResponseRecorder,
           emitTokenAudit en p now_audit ''oauth_token_exchange'' ''failed'' requester grantType clientID (Some err)
             replayed metadata (s\<lparr>ts_engine := fs\<rparr>))
      | (Inr requester, fs) \<Rightarrow>
          (let cid = (case er_ClientID requester of Some c \<Rightarrow> c | None \<Rightarrow> []);
               rq = grantDefaultAudience en p requester
           in (case en_NewAccessResponse en rq fs of
                 (Inl err, fs') \<Rightarrow>
                   (fold recorder_op (en_WriteAccessError en (Some rq) err) newTokenResponseRecorder,
                    emitTokenAudit en p now_audit ''oauth_token_exchange'' ''failed'' (Some rq) grantType cid (Some err)
                      replayed metadata (s\<lparr>ts_engine := fs'\<rparr>))
               | (Inr response, fs') \<Rightarrow>
                   (fold recorder_op (en_WriteAccessResponse en rq response) newTokenResponseRecorder,
                    (if grantType = ''refresh_token''
                     then emitTokenAudit en p now_audit ''oauth_refresh'' ''rotated'' (Some rq) grantType cid None
                            replayed metadata (s\<lparr>ts_engine := fs'\<rparr>)
                     else emitTokenAudit en p now_audit ''oauth_token'' ''issued'' (Some rq) grantType cid None
                            replayed metadata (s\<lparr>ts_engine := fs'\<rparr>))))))"

section \<open>The token handler\<close>

definition refreshAuditMetadata :: "Provider \<Rightarrow> string \<Rightarrow> json gomap" where
  "refreshAuditMetadata p key =
     [(''refresh_token_fingerprint'', JStr (take 32 key)),
      (''replay_window_seconds'', JInt (pv_replayWindow p div time_Second)),
      (''cache_response_returned'', JBool False)]"

definition emitRefreshReplayAudit ::
  "('fs, 'resp) engine \<Rightarrow> Provider \<Rightarrow> gotime \<Rightarrow> string \<Rightarrow> string \<Rightarrow> replayedTokenResponse \<Rightarrow> gotime \<Rightarrow>
   'fs token_state \<Rightarrow> 'fs token_state" where
  "emitRefreshReplayAudit en p now_audit clientID key replay now s =
     emitTokenAudit en p now_audit ''oauth_refresh'' ''replayed'' None ''refresh_token'' clientID None True
       (gm_put ''cache_response_returned'' (JBool True)
         (gm_put ''replay_count'' (JInt (rp_replayCount replay))
           (gm_put ''replay_age_seconds'' (JInt (let d = time_Sub now (rp_rotatedAt replay)
                                              in sgn d * (\<bar>d\<bar> div time_Second)))
             (gm_put ''first_replay_at'' (JTime (rp_firstReplayAt replay))
               (gm_put ''rotation_at'' (JTime (rp_rotatedAt replay)) (refreshAuditMetadata p key)))))) s"

text \<open>
  What the environment supplies to one token request: clock readings in the order taken, and
  whether the request joined a refresh of the same key already in flight (\<^verbatim>\<open>singleflight\<close>), whose
  outcome it then shares.
\<close>

record refreshReplayOutcome =
  ro_response :: replayedTokenResponse
  ro_isReplay :: bool

record token_env =
  tn_now :: gotime
  tn_now_inner :: gotime
  tn_rotationAt :: gotime
  tn_now_audit :: gotime
  tn_joined :: "refreshReplayOutcome option"

text \<open>The function run under \<^verbatim>\<open>singleflight\<close> by the request that owns the flight.\<close>

definition refresh_flight ::
  "('fs, 'resp) engine \<Rightarrow> Provider \<Rightarrow> token_env \<Rightarrow> url_values \<Rightarrow> string \<Rightarrow> string \<Rightarrow> 'fs token_state \<Rightarrow>
   refreshReplayOutcome \<times> 'fs token_state" where
  "refresh_flight en p env form clientID key s =
     (case cache_replay key (tn_now_inner env) (ts_cache s) of
        (Some replay, c1) \<Rightarrow> (\<lparr>ro_response = replay, ro_isReplay = True\<rparr>, s\<lparr>ts_cache := c1\<rparr>)
      | (None, c1) \<Rightarrow>
          (let metadata = gm_put ''rotation_at'' (JTime (tn_rotationAt env)) (refreshAuditMetadata p key);
               (recorder, s1) = executeTokenRequest en p (tn_now_audit env) form ''refresh_token'' clientID False
                                  metadata (s\<lparr>ts_cache := c1\<rparr>);
               replay = recorder_replay recorder
           in (\<lparr>ro_response = replay, ro_isReplay = False\<rparr>,
               s1\<lparr>ts_cache := storeRefreshReplay (pv_replayWindow p) key replay (tn_rotationAt env) (ts_cache s1)\<rparr>)))"

definition handleReplayableRefresh ::
  "(string \<Rightarrow> string) \<Rightarrow> ('fs, 'resp) engine \<Rightarrow> Provider \<Rightarrow> token_env \<Rightarrow> url_values \<Rightarrow> string \<Rightarrow>
   'fs token_state \<times> writer \<Rightarrow> 'fs token_state \<times> writer" where
  "handleReplayableRefresh sha256_hex en p env form clientID sw =
     (let (s, w) = sw;
          refreshToken = values_Get form ''refresh_token'';
          key = refreshReplayKey sha256_hex clientID refreshToken;
          now = tn_now env
      in if refreshToken = [] then
           (case executeTokenRequest en p (tn_now_audit env) form ''refresh_token'' clientID False [] s of
              (recorder, s1) \<Rightarrow> (s1, writeReplay (recorder_replay recorder) w))
         else
           (case cache_replay key now (ts_cache s) of
              (Some replay, c1) \<Rightarrow>
                (emitRefreshReplayAudit en p (tn_now_audit env) clientID key replay now (s\<lparr>ts_cache := c1\<rparr>),
                 writeReplay replay w)
            | (None, c1) \<Rightarrow>
                (let s1 = s\<lparr>ts_cache := c1\<rparr>
                 in (case tn_joined env of
                       None \<Rightarrow>
                         (case refresh_flight en p env form clientID key s1 of
                            (outcome, s2) \<Rightarrow>
                              if rp_status (ro_response outcome) = 0
                              then (s2, http_Error ''token exchange failed'' 500 w)
                              else
                                ((if ro_isReplay outcome
                                  then emitRefreshReplayAudit en p (tn_now_audit env) clientID key
                                         (ro_response outcome) now s2 else s2),
                                 writeReplay (ro_response outcome) w))
                     | Some outcome \<Rightarrow>
                         if rp_status (ro_response outcome) = 0
                         then (s1, http_Error ''token exchange failed'' 500 w)
                         else
                           (case cache_replay key now (ts_cache s1) of
                              (Some replay, c2) \<Rightarrow>
                                (emitRefreshReplayAudit en p (tn_now_audit env) clientID key replay now
                                   (s1\<lparr>ts_cache := c2\<rparr>), writeReplay replay w)
                            | (None, c2) \<Rightarrow> (s1\<lparr>ts_cache := c2\<rparr>, writeReplay (ro_response outcome) w))))))"

text \<open>The outcome of \<^verbatim>\<open>ParseForm\<close> behind the one-megabyte reader.\<close>

datatype form_result = FormOK url_values | FormTooLarge | FormBad

definition TokenHandler ::
  "(string \<Rightarrow> string) \<Rightarrow> ('fs, 'resp) engine \<Rightarrow> Provider \<Rightarrow> token_env \<Rightarrow> string \<Rightarrow> form_result \<Rightarrow>
   'fs token_state \<times> writer \<Rightarrow> 'fs token_state \<times> writer" where
  "TokenHandler sha256_hex en p env meth body sw =
     (case sw of (s, w) \<Rightarrow>
        if meth \<noteq> ''POST'' then (s, http_Error ''method not allowed'' 405 w)
        else (case body of
                FormTooLarge \<Rightarrow> (s, http_Error ''request body too large'' 413 w)
              | FormBad \<Rightarrow> (s, http_Error ''invalid form'' 400 w)
              | FormOK form \<Rightarrow>
                  (let grantType = values_Get form ''grant_type''; clientID = values_Get form ''client_id''
                   in if grantType = ''refresh_token'' \<and> pv_replayWindow p > 0
                      then handleReplayableRefresh sha256_hex en p env form clientID (s, w)
                      else (case executeTokenRequest en p (tn_now_audit env) form grantType clientID False [] s of
                              (recorder, s1) \<Rightarrow> (s1, writeReplay (recorder_replay recorder) w)))))"

section \<open>Authorization and revocation handlers\<close>

text \<open>
  The engine's part in the authorization endpoint; what it writes goes straight to the response
  writer.
\<close>

record ('fs, 'aresp) authorize_engine =
  ae_NewAuthorizeRequest :: "url_values \<Rightarrow> 'fs \<Rightarrow> (engine_request \<times> goerr option) \<times> 'fs"
  ae_NewAuthorizeResponse :: "engine_request \<Rightarrow> DefaultSession \<Rightarrow> 'fs \<Rightarrow> 'aresp result \<times> 'fs"
  ae_AddParameter :: "string \<Rightarrow> string \<Rightarrow> 'aresp \<Rightarrow> 'aresp"
  ae_WriteAuthorizeError :: "engine_request \<Rightarrow> goerr \<Rightarrow> writer \<Rightarrow> writer"
  ae_WriteAuthorizeResponse :: "engine_request \<Rightarrow> 'aresp \<Rightarrow> writer \<Rightarrow> writer"
  ae_NewRevocationRequest :: "url_values \<Rightarrow> 'fs \<Rightarrow> goerr option \<times> 'fs"
  ae_WriteRevocationResponse :: "goerr option \<Rightarrow> writer \<Rightarrow> writer"

definition AddIssuerParameter :: "('fs, 'aresp) authorize_engine \<Rightarrow> Provider \<Rightarrow> 'aresp \<Rightarrow> 'aresp" where
  "AddIssuerParameter ae p response =
     (if pv_issuer p = [] then response else ae_AddParameter ae ''iss'' (pv_issuer p) response)"

definition AuthorizeHandler ::
  "('fs, 'resp) engine \<Rightarrow> ('fs, 'aresp) authorize_engine \<Rightarrow> Provider \<Rightarrow> Subject result \<Rightarrow> gotime \<Rightarrow> string \<Rightarrow>
   url_values \<Rightarrow> 'fs \<times> writer \<Rightarrow> 'fs \<times> writer" where
  "AuthorizeHandler en ae p resolve now meth query fsw =
     (case fsw of (fs, w) \<Rightarrow>
        if meth \<noteq> ''GET'' \<and> meth \<noteq> ''POST'' then (fs, http_Error ''method not allowed'' 405 w)
        else if length (values_Get query ''state'') < 8 then (fs, http_Error ''invalid_state'' 400 w)
        else if \<not> validCodeChallenge (values_Get query ''code_challenge'')
                    (values_Get query ''code_challenge_method'')
        then (fs, http_Error ''invalid_code_challenge'' 400 w)
        else
          (case ae_NewAuthorizeRequest ae query fs of
             ((rq, Some err), fs1) \<Rightarrow> (fs1, ae_WriteAuthorizeError ae rq err w)
           | ((rq, None), fs1) \<Rightarrow>
               (case resolve of
                  Inl err \<Rightarrow> (fs1, ae_WriteAuthorizeError ae rq err w)
                | Inr subject \<Rightarrow>
                    (let rq2 = grantDefaultAudience en p (grantSubjectScopes en (sj_GrantedScopes subject) rq)
                     in (case ae_NewAuthorizeResponse ae rq2 (NewSession now subject) fs1 of
                           (Inl err, fs2) \<Rightarrow> (fs2, ae_WriteAuthorizeError ae rq2 err w)
                         | (Inr response, fs2) \<Rightarrow>
                             (fs2, ae_WriteAuthorizeResponse ae rq2 (AddIssuerParameter ae p response) w))))))"

definition RevokeHandler ::
  "('fs, 'aresp) authorize_engine \<Rightarrow> string \<Rightarrow> url_values \<Rightarrow> 'fs \<times> writer \<Rightarrow> 'fs \<times> writer" where
  "RevokeHandler ae meth form fsw =
     (case fsw of (fs, w) \<Rightarrow>
        if meth \<noteq> ''POST'' then (fs, http_Error ''method not allowed'' 405 w)
        else (case ae_NewRevocationRequest ae form fs of
                (Some err, fs') \<Rightarrow> (fs', ae_WriteRevocationResponse ae (Some err) w)
              | (None, fs') \<Rightarrow> (fs', ae_WriteRevocationResponse ae None w)))"

section \<open>Replayed responses\<close>

text \<open>Two cache entries that answer with the same response and expire together.\<close>

definition same_response :: "replayedTokenResponse \<Rightarrow> replayedTokenResponse \<Rightarrow> bool" where
  "same_response e e' =
     (rp_body e' = rp_body e \<and> rp_header e' = rp_header e \<and> rp_status e' = rp_status e \<and>
      rp_expiresAt e' = rp_expiresAt e)"

definition cache_holds :: "string \<Rightarrow> replayedTokenResponse \<Rightarrow> replay_cache \<Rightarrow> bool" where
  "cache_holds key e c = (\<exists>e'. gm_get c key = Some e' \<and> same_response e e')"

lemma same_response_write: "same_response e e' \<Longrightarrow> writeReplay e' w = writeReplay e w"
  by (simp add: same_response_def writeReplay_def)

lemma cache_replay_live:
  assumes "cache_holds key e c" "now < rp_expiresAt e"
  obtains e' c' where "cache_replay key now c = (Some e', c')" "same_response e e'"
  using assms by (auto simp: cache_replay_def cache_holds_def same_response_def time_After_def Let_def)

lemma cache_replay_keeps:
  assumes "cache_holds key e c" "now < rp_expiresAt e" "cache_replay k now c = (r, c')"
  shows "cache_holds key e c'"
proof -
  from assms(1) obtain e0 where e0: "gm_get c key = Some e0" "same_response e e0" by (auto simp: cache_holds_def)
  show ?thesis
  proof (cases "k = key")
    case True
    with assms(2,3) e0 show ?thesis
      by (auto simp: cache_replay_def cache_holds_def same_response_def time_After_def Let_def split: if_splits)
  next
    case False
    with assms(3) e0 show ?thesis
      by (auto simp: cache_replay_def cache_holds_def Let_def split: if_splits option.splits)
  qed
qed

lemma emitTokenAudit_state [simp]:
  "ts_engine (emitTokenAudit en p now et ac rq gt cid err rep m s) = ts_engine s"
  "ts_cache (emitTokenAudit en p now et ac rq gt cid err rep m s) = ts_cache s"
  by (simp_all add: emitTokenAudit_def Let_def split: option.splits)

lemma emitRefreshReplayAudit_state [simp]:
  "ts_engine (emitRefreshReplayAudit en p na cid key r now s) = ts_engine s"
  "ts_cache (emitRefreshReplayAudit en p na cid key r now s) = ts_cache s"
  by (simp_all add: emitRefreshReplayAudit_def)

lemma executeTokenRequest_cache:
  "executeTokenRequest en p na form gt cid rep m s = (r, s') \<Longrightarrow> ts_cache s' = ts_cache s"
  by (auto simp: executeTokenRequest_def Let_def split: prod.splits option.splits sum.splits if_splits)

text \<open>The recorded response depends only on the request and the engine's state.\<close>

lemma executeTokenRequest_recorder:
  "fst (executeTokenRequest en p na form gt cid rep m s) =
   fst (executeTokenRequest en p 0 form [] [] False [] \<lparr>ts_engine = ts_engine s, ts_cache = [], ts_events = []\<rparr>)"
  by (simp add: executeTokenRequest_def Let_def split: prod.splits option.splits sum.splits)

lemma refresh_flight_keeps:
  assumes "cache_holds key e (ts_cache s)" "tn_now_inner env < rp_expiresAt e" "k \<noteq> key"
    and "refresh_flight en p env form cid k s = (out, s')"
  shows "cache_holds key e (ts_cache s')"
proof -
  obtain r c1 where c1: "cache_replay k (tn_now_inner env) (ts_cache s) = (r, c1)" by fastforce
  note keep = cache_replay_keeps [OF assms(1,2) c1]
  show ?thesis
  proof (cases r)
    case (Some replay)
    with assms(4) c1 keep show ?thesis by (auto simp: refresh_flight_def)
  next
    case None
    obtain rec s1 where ex: "executeTokenRequest en p (tn_now_audit env) form ''refresh_token'' cid False
        (gm_put ''rotation_at'' (JTime (tn_rotationAt env)) (refreshAuditMetadata p k)) (s\<lparr>ts_cache := c1\<rparr>) = (rec, s1)"
      by fastforce
    from executeTokenRequest_cache [OF ex] None assms(3,4) c1 ex keep show ?thesis
      by (auto simp: refresh_flight_def storeRefreshReplay_def cache_set_def cache_holds_def Let_def)
  qed
qed

lemma handleReplayableRefresh_keeps:
  assumes "cache_holds key e (ts_cache s)" "tn_now env < rp_expiresAt e" "tn_now_inner env < rp_expiresAt e"
    and "handleReplayableRefresh sha en p env form cid (s, w) = (s', w')"
  shows "cache_holds key e (ts_cache s')"
proof -
  let ?k = "refreshReplayKey sha cid (values_Get form ''refresh_token'')"
  obtain r c1 where c1: "cache_replay ?k (tn_now env) (ts_cache s) = (r, c1)" by fastforce
  note keep = cache_replay_keeps [OF assms(1,2) c1]
  have hit: "r \<noteq> None" if "?k = key" using cache_replay_live [OF assms(1,2)] c1 that by auto
  have "cache_holds key e c2" if "cache_replay ?k (tn_now env) c1 = (r2, c2)" for r2 c2
    by (rule cache_replay_keeps [OF keep assms(2) that])
  moreover have "cache_holds key e (ts_cache s2)"
    if "refresh_flight en p env form cid ?k (s\<lparr>ts_cache := c1\<rparr>) = (out, s2)" "r = None" for out s2
    using refresh_flight_keeps [OF _ assms(3) _ that(1), of key] keep hit that(2) by fastforce
  ultimately show ?thesis using assms(1,4) c1 keep
    by (auto simp: handleReplayableRefresh_def Let_def executeTokenRequest_cache
        split: if_splits option.splits prod.splits)
qed

lemma TokenHandler_keeps:
  assumes "cache_holds key e (ts_cache s)" "tn_now env < rp_expiresAt e" "tn_now_inner env < rp_expiresAt e"
    and "TokenHandler sha en p env meth body (s, w) = (s', w')"
  shows "cache_holds key e (ts_cache s')"
  using assms handleReplayableRefresh_keeps
  by (auto simp: TokenHandler_def Let_def executeTokenRequest_cache
      split: if_splits form_result.splits prod.splits)

fun token_requests ::
  "(string \<Rightarrow> string) \<Rightarrow> ('fs, 'resp) engine \<Rightarrow> Provider \<Rightarrow> (token_env \<times> form_result) list \<Rightarrow> 'fs token_state \<Rightarrow>
   'fs token_state" where
  "token_requests sha en p [] s = s"
| "token_requests sha en p ((env, body) # rs) s =
     token_requests sha en p rs (fst (TokenHandler sha en p env ''POST'' body (s, new_writer)))"

lemma token_requests_keep:
  assumes "cache_holds key e (ts_cache s)"
    and "\<forall>(env, _) \<in> set rs. tn_now env < rp_expiresAt e \<and> tn_now_inner env < rp_expiresAt e"
  shows "cache_holds key e (ts_cache (token_requests sha en p rs s))"
  using assms
proof (induction sha en p rs s rule: token_requests.induct)
  case (2 sha en p env body rs s)
  obtain s1 w1 where h: "TokenHandler sha en p env ''POST'' body (s, new_writer) = (s1, w1)" by fastforce
  from 2(3) have "cache_holds key e (ts_cache s1)" by (intro TokenHandler_keeps [OF 2(2) _ _ h]) auto
  with 2(1,3) h show ?case by simp
qed simp

section \<open>Status codes of recorded responses\<close>

text \<open>The engine sends final status codes, never informational ones.\<close>

definition final_statuses :: "('fs, 'resp) engine \<Rightarrow> bool" where
  "final_statuses en =
     ((\<forall>rq err st. OpWriteHeader st \<in> set (en_WriteAccessError en rq err) \<longrightarrow> 200 \<le> st) \<and>
      (\<forall>rq resp st. OpWriteHeader st \<in> set (en_WriteAccessResponse en rq resp) \<longrightarrow> 200 \<le> st))"

lemma recorder_ops_status:
  assumes "\<And>st. OpWriteHeader st \<in> set ops \<Longrightarrow> 200 \<le> st" "tr_status r = 0 \<or> 200 \<le> tr_status r"
  shows "tr_status (fold recorder_op ops r) = 0 \<or> 200 \<le> tr_status (fold recorder_op ops r)"
  using assms
proof (induction ops arbitrary: r)
  case (Cons op ops)
  have "tr_status (recorder_op op r) = 0 \<or> 200 \<le> tr_status (recorder_op op r)"
    using Cons.prems by (cases op) (auto simp: Let_def)
  with Cons show ?case by simp
qed simp

lemma recorder_replay_status:
  assumes "final_statuses en" "executeTokenRequest en p na form gt cid rep m s = (rec, s')"
  shows "200 \<le> rp_status (recorder_replay rec)"
proof -
  have "\<exists>ops. rec = fold recorder_op ops newTokenResponseRecorder \<and> (\<forall>st. OpWriteHeader st \<in> set ops \<longrightarrow> 200 \<le> st)"
    using assms by (auto simp: executeTokenRequest_def final_statuses_def Let_def split: prod.splits sum.splits)
  then have "tr_status rec = 0 \<or> 200 \<le> tr_status rec"
    using recorder_ops_status [of _ newTokenResponseRecorder] by (auto simp: newTokenResponseRecorder_def)
  then show ?thesis by (auto simp: recorder_replay_def)
qed

lemma w_Writes_status: "w_status w \<noteq> 0 \<Longrightarrow> w_status (fold w_Write cs w) = w_status w"
  by (induction cs arbitrary: w) auto

lemma writeReplay_status: "200 \<le> rp_status r \<Longrightarrow> w_status (writeReplay r new_writer) = rp_status r"
  by (simp add: writeReplay_def w_Writes_status w_WriteHeader_def informational_def new_writer_def)

text \<open>A request for a refresh token, and the cache key it is answered under.\<close>

definition refresh_form :: "string \<Rightarrow> string \<Rightarrow> url_values \<Rightarrow> bool" where
  "refresh_form cid tok form =
     (values_Get form ''grant_type'' = ''refresh_token'' \<and> values_Get form ''client_id'' = cid \<and>
      values_Get form ''refresh_token'' = tok \<and> tok \<noteq> [])"

lemma first_refresh:
  assumes "refresh_form cid tok form" "pv_replayWindow p > 0" "tn_joined env = None"
    and "gm_get (ts_cache s) (refreshReplayKey sha cid tok) = None"
    and "TokenHandler sha en p env ''POST'' (FormOK form) (s, w) = (s1, w1)"
  obtains rec se m where
    "executeTokenRequest en p (tn_now_audit env) form ''refresh_token'' cid False m s = (rec, se)"
    "ts_engine s1 = ts_engine se" "w1 = writeReplay (recorder_replay rec) w"
    "ts_cache s1 = storeRefreshReplay (pv_replayWindow p) (refreshReplayKey sha cid tok) (recorder_replay rec)
                     (tn_rotationAt env) (ts_cache s)"
proof -
  let ?k = "refreshReplayKey sha cid tok"
  let ?m = "gm_put ''rotation_at'' (JTime (tn_rotationAt env)) (refreshAuditMetadata p ?k)"
  obtain rec se where ex: "executeTokenRequest en p (tn_now_audit env) form ''refresh_token'' cid False ?m s = (rec, se)"
    by fastforce
  have miss: "cache_replay ?k now (ts_cache s) = (None, ts_cache s)" for now using assms(4) by (simp add: cache_replay_def)
  have "rp_status (recorder_replay rec) \<noteq> 0" by (simp add: recorder_replay_def)
  with assms ex miss executeTokenRequest_cache [OF ex] show thesis
    by (intro that [OF ex]) (auto simp: TokenHandler_def refresh_form_def handleReplayableRefresh_def refresh_flight_def Let_def)
qed

lemma replayed_refresh:
  assumes "refresh_form cid tok form" "pv_replayWindow p > 0"
    and "cache_holds (refreshReplayKey sha cid tok) e (ts_cache s)" "tn_now env < rp_expiresAt e"
    and "TokenHandler sha en p env ''POST'' (FormOK form) (s, w) = (s1, w1)"
  shows "w1 = writeReplay e w" "ts_engine s1 = ts_engine s"
proof -
  obtain e' c' where e': "cache_replay (refreshReplayKey sha cid tok) (tn_now env) (ts_cache s) = (Some e', c')"
      "same_response e e'"
    by (rule cache_replay_live [OF assms(3,4)])
  with assms(1,2,5) same_response_write [OF e'(2)] show "w1 = writeReplay e w" "ts_engine s1 = ts_engine s"
    by (auto simp: TokenHandler_def refresh_form_def handleReplayableRefresh_def Let_def)
qed

section \<open>Properties of the token endpoint\<close>

text \<open>
  C2 (a repeated refresh is answered once). After a refresh of a token has succeeded, every further
  refresh with the same client and token, until the replay window that began at the rotation is
  over, gets the very same response, and the engine is not asked again: whatever token requests
  are handled in between, a client that lost the first answer receives the tokens already issued
  and no second rotation takes place.\<close>

theorem refresh_answered_once:
  assumes "final_statuses en" "pv_replayWindow p > 0"
    and "refresh_form cid tok form" "refresh_form cid tok form'"
    and "gm_get (ts_cache s) (refreshReplayKey sha cid tok) = None" "tn_joined env = None"
    and "TokenHandler sha en p env ''POST'' (FormOK form) (s, new_writer) = (s1, w1)"
    and "200 \<le> w_status w1" "w_status w1 < 300"
    and "\<forall>(env'', _) \<in> set rs. tn_now env'' < tn_rotationAt env + pv_replayWindow p \<and>
                               tn_now_inner env'' < tn_rotationAt env + pv_replayWindow p"
    and "tn_now env' < tn_rotationAt env + pv_replayWindow p"
  shows "snd (TokenHandler sha en p env' ''POST'' (FormOK form') (token_requests sha en p rs s1, new_writer)) = w1 \<and>
         ts_engine (fst (TokenHandler sha en p env' ''POST'' (FormOK form') (token_requests sha en p rs s1, new_writer))) =
           ts_engine (token_requests sha en p rs s1)"
proof -
  let ?k = "refreshReplayKey sha cid tok"
  obtain rec se m where ex: "executeTokenRequest en p (tn_now_audit env) form ''refresh_token'' cid False m s = (rec, se)"
    and w1: "w1 = writeReplay (recorder_replay rec) new_writer"
    and c1: "ts_cache s1 = storeRefreshReplay (pv_replayWindow p) ?k (recorder_replay rec) (tn_rotationAt env) (ts_cache s)"
    by (rule first_refresh [OF assms(3,2,6,5,7)])
  note st = recorder_replay_status [OF assms(1) ex]
  define e where "e = (recorder_replay rec)\<lparr>rp_expiresAt := tn_rotationAt env + pv_replayWindow p\<rparr>"
  have ee: "rp_expiresAt e = tn_rotationAt env + pv_replayWindow p" by (simp add: e_def)
  have we: "writeReplay e w = writeReplay (recorder_replay rec) w" for w by (simp add: e_def writeReplay_def)
  from st assms(9) w1 writeReplay_status [OF st] have "cache_holds ?k e (ts_cache s1)"
    by (simp add: c1 storeRefreshReplay_def cache_set_def cache_holds_def same_response_def e_def time_Add_def)
  then have held: "cache_holds ?k e (ts_cache (token_requests sha en p rs s1))"
    by (rule token_requests_keep) (use assms(10) in \<open>simp add: e_def\<close>)
  obtain s3 w3 where h: "TokenHandler sha en p env' ''POST'' (FormOK form') (token_requests sha en p rs s1, new_writer) = (s3, w3)"
    by fastforce
  from replayed_refresh [OF assms(4,2) held _ h] assms(11) show ?thesis by (simp add: h we w1 ee)
qed

text \<open>An engine that accepts every request and counts the tokens it has issued.\<close>

definition counting_engine :: "(nat, nat) engine" where
  "counting_engine =
     \<lparr>en_NewAccessRequest = (\<lambda>form fs.
        (Inr \<lparr>er_ClientID = Some (values_Get form ''client_id''), er_RequestedScopes = [''read''],
              er_GrantedScopes = [''read''], er_RequestedAudience = [], er_GrantedAudience = []\<rparr>, fs)),
      en_NewAccessResponse = (\<lambda>rq fs. (Inr fs, fs + 1)),
      en_WriteAccessError = (\<lambda>rq err. [OpWriteHeader 400]),
      en_WriteAccessResponse = (\<lambda>rq n. [OpHeader (header_Set ''Cache-Control'' ''no-store''), OpWriteHeader 200,
                                          OpWrite (JsonDoc (JInt (int n)))]),
      en_GrantScope = (\<lambda>sc rq. rq\<lparr>er_GrantedScopes := er_GrantedScopes rq @ [sc]\<rparr>),
      en_GrantAudience = (\<lambda>a rq. rq\<lparr>er_GrantedAudience := er_GrantedAudience rq @ [a]\<rparr>),
      en_ErrorField = (\<lambda>_. None)\<rparr>"

definition sample_provider :: Provider where
  "sample_provider =
     \<lparr>pv_issuer = ''https://as'', pv_audience = ''https://as/mcp'', pv_auditEmitter = None,
      pv_replayWindow = 30 * time_Second\<rparr>"

definition sample_refresh :: url_values where
  "sample_refresh =
     [(''grant_type'', [''refresh_token'']), (''client_id'', [''c1'']), (''refresh_token'', [''rt1''])]"

definition env_at :: "gotime \<Rightarrow> token_env" where
  "env_at t = \<lparr>tn_now = t, tn_now_inner = t, tn_rotationAt = t, tn_now_audit = t, tn_joined = None\<rparr>"

definition fresh_tokens :: "nat token_state" where
  "fresh_tokens = \<lparr>ts_engine = 0, ts_cache = [], ts_events = []\<rparr>"

lemma counting_engine_statuses: "final_statuses counting_engine"
  by (simp add: final_statuses_def counting_engine_def)

lemma sample_refresh_form: "refresh_form ''c1'' ''rt1'' sample_refresh"
  by code_simp

theorem refresh_answered_once_witness:
  "snd (TokenHandler id counting_engine sample_provider (env_at 2000) ''POST'' (FormOK sample_refresh)
     (fst (TokenHandler id counting_engine sample_provider (env_at 1000) ''POST'' (FormOK sample_refresh)
        (fresh_tokens, new_writer)), new_writer)) =
   snd (TokenHandler id counting_engine sample_provider (env_at 1000) ''POST'' (FormOK sample_refresh)
     (fresh_tokens, new_writer))"
proof -
  let ?h = "TokenHandler id counting_engine sample_provider (env_at 1000) ''POST'' (FormOK sample_refresh) (fresh_tokens, new_writer)"
  have "w_status (snd ?h) = 200" by code_simp
  then show ?thesis
    using refresh_answered_once [of counting_engine sample_provider "''c1''" "''rt1''" sample_refresh sample_refresh
        fresh_tokens id "env_at 1000" "fst ?h" "snd ?h" "[]" "env_at 2000"]
      counting_engine_statuses sample_refresh_form
    by (simp add: sample_provider_def env_at_def fresh_tokens_def time_Second_def)
qed

text \<open>
  A refresh that was not answered with a success leaves the
  replay cache as it was, so the next attempt with the same token is decided by the engine again:
  it is answered with what the engine says then.\<close>

lemma failed_refresh_not_replayed:
  assumes "final_statuses en" "pv_replayWindow p > 0" "refresh_form cid tok form"
    and "gm_get (ts_cache s) (refreshReplayKey sha cid tok) = None" "tn_joined env = None" "tn_joined env' = None"
    and "TokenHandler sha en p env ''POST'' (FormOK form) (s, new_writer) = (s1, w1)"
    and "w_status w1 < 200 \<or> 300 \<le> w_status w1"
  shows "ts_cache s1 = ts_cache s \<and>
         snd (TokenHandler sha en p env' ''POST'' (FormOK form) (s1, new_writer)) =
           writeReplay (recorder_replay (fst (executeTokenRequest en p (tn_now_audit env') form ''refresh_token'' cid
             False [] s1))) new_writer"
proof -
  obtain rec se m where ex: "executeTokenRequest en p (tn_now_audit env) form ''refresh_token'' cid False m s = (rec, se)"
    and w1: "w1 = writeReplay (recorder_replay rec) new_writer"
    and c1: "ts_cache s1 = storeRefreshReplay (pv_replayWindow p) (refreshReplayKey sha cid tok) (recorder_replay rec)
              (tn_rotationAt env) (ts_cache s)"
    by (rule first_refresh [OF assms(3,2,5,4,7)])
  have c: "ts_cache s1 = ts_cache s"
    using assms(8) w1 writeReplay_status [OF recorder_replay_status [OF assms(1) ex]]
    by (auto simp: c1 storeRefreshReplay_def)
  obtain s2 w2 where h: "TokenHandler sha en p env' ''POST'' (FormOK form) (s1, new_writer) = (s2, w2)" by fastforce
  obtain rec2 se2 m2 where "executeTokenRequest en p (tn_now_audit env') form ''refresh_token'' cid False m2 s1 = (rec2, se2)"
    and "w2 = writeReplay (recorder_replay rec2) new_writer"
    using first_refresh [OF assms(3,2,6) _ h] assms(4) c by metis
  then show ?thesis using c h by (metis executeTokenRequest_recorder fst_conv snd_conv)
qed

lemma failed_refresh_not_replayed_witness:
  "\<exists>s1. s1 = fst (TokenHandler id (counting_engine\<lparr>en_NewAccessResponse := (\<lambda>rq fs. (Inl (Plain ''denied''), fs))\<rparr>) sample_provider
           (env_at 1000) ''POST'' (FormOK sample_refresh) (fresh_tokens, new_writer)) \<and> ts_cache s1 = ts_cache fresh_tokens"
proof -
  let ?en = "counting_engine\<lparr>en_NewAccessResponse := (\<lambda>rq fs. (Inl (Plain ''denied''), fs))\<rparr>"
  let ?h = "TokenHandler id ?en sample_provider (env_at 1000) ''POST'' (FormOK sample_refresh) (fresh_tokens, new_writer)"
  have "w_status (snd ?h) = 400" by code_simp
  then show ?thesis
    using failed_refresh_not_replayed [of ?en sample_provider "''c1''" "''rt1''" sample_refresh
        fresh_tokens id "env_at 1000" "env_at 2000" "fst ?h" "snd ?h"]
      sample_refresh_form
    by (simp add: sample_provider_def env_at_def fresh_tokens_def time_Second_def final_statuses_def counting_engine_def)
qed

section \<open>Properties of the authorization endpoint\<close>

text \<open>
  The engine's side of a grant: a new request has nothing granted yet, and granting adds one scope
  or audience and leaves the rest alone.
\<close>

definition grants_ok :: "('fs, 'resp) engine \<Rightarrow> bool" where
  "grants_ok en =
     ((\<forall>sc rq. set (er_GrantedScopes (en_GrantScope en sc rq)) = insert sc (set (er_GrantedScopes rq)) \<and>
               er_RequestedScopes (en_GrantScope en sc rq) = er_RequestedScopes rq \<and>
               er_RequestedAudience (en_GrantScope en sc rq) = er_RequestedAudience rq \<and>
               er_GrantedAudience (en_GrantScope en sc rq) = er_GrantedAudience rq) \<and>
      (\<forall>a rq. set (er_GrantedAudience (en_GrantAudience en a rq)) = insert a (set (er_GrantedAudience rq)) \<and>
              er_RequestedScopes (en_GrantAudience en a rq) = er_RequestedScopes rq \<and>
              er_GrantedScopes (en_GrantAudience en a rq) = er_GrantedScopes rq \<and>
              er_RequestedAudience (en_GrantAudience en a rq) = er_RequestedAudience rq))"

definition new_requests_ungranted :: "('fs, 'aresp) authorize_engine \<Rightarrow> bool" where
  "new_requests_ungranted ae =
     (\<forall>q fs. case fst (ae_NewAuthorizeRequest ae q fs) of
                (rq, _) \<Rightarrow> er_GrantedScopes rq = [] \<and> er_GrantedAudience rq = [])"

lemma grant_scopes_fold:
  fixes granted :: "string list"
  assumes "grants_ok en"
  defines "g \<equiv> fold (\<lambda>scope r. if scope \<in> set granted then en_GrantScope en scope r else r)"
  shows "set (er_GrantedScopes (g scs rq)) = set (er_GrantedScopes rq) \<union> (set scs \<inter> set granted)"
    and "er_RequestedScopes (g scs rq) = er_RequestedScopes rq"
    and "er_RequestedAudience (g scs rq) = er_RequestedAudience rq"
    and "er_GrantedAudience (g scs rq) = er_GrantedAudience rq"
  using assms(1) by (induction scs arbitrary: rq) (auto simp: g_def grants_ok_def)

lemma grant_audience_fold:
  assumes "grants_ok en"
  shows "set (er_GrantedAudience (fold (en_GrantAudience en) as rq)) = set (er_GrantedAudience rq) \<union> set as"
    and "er_RequestedScopes (fold (en_GrantAudience en) as rq) = er_RequestedScopes rq"
    and "er_GrantedScopes (fold (en_GrantAudience en) as rq) = er_GrantedScopes rq"
    and "er_RequestedAudience (fold (en_GrantAudience en) as rq) = er_RequestedAudience rq"
  using assms by (induction as arbitrary: rq) (auto simp: grants_ok_def)

lemma grantSubjectScopes_grants:
  assumes "grants_ok en"
  shows "set (er_GrantedScopes (grantSubjectScopes en granted rq)) =
           set (er_GrantedScopes rq) \<union> (set (er_RequestedScopes rq) \<inter> set granted)"
    and "er_RequestedScopes (grantSubjectScopes en granted rq) = er_RequestedScopes rq"
    and "er_RequestedAudience (grantSubjectScopes en granted rq) = er_RequestedAudience rq"
    and "er_GrantedAudience (grantSubjectScopes en granted rq) = er_GrantedAudience rq"
  by (simp_all add: grantSubjectScopes_def grant_scopes_fold [OF assms])

lemma grantDefaultAudience_grants:
  assumes "grants_ok en"
  shows "set (er_GrantedAudience (grantDefaultAudience en p rq)) =
           set (er_GrantedAudience rq) \<union>
           (if er_RequestedAudience rq = [] \<and> pv_audience p \<noteq> [] then {pv_audience p} else set (er_RequestedAudience rq))"
    and "er_RequestedScopes (grantDefaultAudience en p rq) = er_RequestedScopes rq"
    and "er_GrantedScopes (grantDefaultAudience en p rq) = er_GrantedScopes rq"
    and "er_RequestedAudience (grantDefaultAudience en p rq) =
           (if er_RequestedAudience rq = [] \<and> pv_audience p \<noteq> [] then [pv_audience p] else er_RequestedAudience rq)"
  by (simp_all add: grantDefaultAudience_def Let_def grant_audience_fold [OF assms])

text \<open>
  The requests for which the engine may issue a code: a \<^verbatim>\<open>GET\<close> or \<^verbatim>\<open>POST\<close> with an 8-character state
  and an S256 challenge, from a signed-in subject, granting no more than the scopes the client asked
  for and the subject holds, and the audience asked for or, without one, the server's own.
\<close>

definition code_allowed ::
  "Provider \<Rightarrow> Subject result \<Rightarrow> gotime \<Rightarrow> string \<Rightarrow> url_values \<Rightarrow> engine_request \<Rightarrow> DefaultSession \<Rightarrow> bool" where
  "code_allowed p resolve now meth query rq sess =
     ((meth = ''GET'' \<or> meth = ''POST'') \<and> 8 \<le> length (values_Get query ''state'') \<and>
      values_Get query ''code_challenge_method'' = ''S256'' \<and> length (values_Get query ''code_challenge'') = 43 \<and>
      (case resolve of
         Inl _ \<Rightarrow> False
       | Inr subject \<Rightarrow>
           sess = NewSession now subject \<and>
           set (er_GrantedScopes rq) = set (er_RequestedScopes rq) \<inter> set (sj_GrantedScopes subject) \<and>
           set (er_GrantedAudience rq) = set (er_RequestedAudience rq) \<and>
           (er_RequestedAudience rq = [] \<longrightarrow> pv_audience p = [])))"


definition code_engine :: "(nat, string) authorize_engine" where
  "code_engine =
     \<lparr>ae_NewAuthorizeRequest = (\<lambda>q fs.
        ((\<lparr>er_ClientID = Some (values_Get q ''client_id''), er_RequestedScopes = [''read'', ''admin''],
           er_GrantedScopes = [], er_RequestedAudience = [], er_GrantedAudience = []\<rparr>, None), fs)),
      ae_NewAuthorizeResponse = (\<lambda>rq sess fs. (Inr ''code'', fs + 1)),
      ae_AddParameter = (\<lambda>k v r. r @ k @ v),
      ae_WriteAuthorizeError = (\<lambda>rq err. http_Error (err_text err) 400),
      ae_WriteAuthorizeResponse = (\<lambda>rq r. w_Write (Bytes r)),
      ae_NewRevocationRequest = (\<lambda>q fs. (None, fs)),
      ae_WriteRevocationResponse = (\<lambda>e. w_WriteHeader 200)\<rparr>"

definition code_query :: url_values where
  "code_query =
     [(''state'', [''0123456789'']), (''code_challenge_method'', [''S256'']), (''code_challenge'', [replicate 43 CHR ''A''])]"


text \<open>
  Client values pass the checks. The verifier and challenge of \<^verbatim>\<open>NewPKCEPair\<close> satisfy
  RFC 7636 (43 characters of the base64url alphabet, the challenge the S256 image of the verifier)
  and, with a state of \<^verbatim>\<open>RandomState\<close>, they pass the checks of the authorization handler.\<close>

lemma pkce_pair_accepted:
  assumes "\<forall>x. length (sha256 x) = 32" "length r1 = 32" "length r2 = 16"
    and "NewPKCEPair sha256 (Inr r1) = Inr pair" "RandomState (Inr r2) = Inr st"
  shows "validCodeChallenge (pk_Challenge pair) (pk_Method pair) \<and>
         pk_Challenge pair = PKCEChallenge sha256 (pk_Verifier pair) \<and> length (pk_Verifier pair) = 43 \<and>
         RawURL_DecodeString (pk_Verifier pair) = Inr r1 \<and> 8 \<le> length st"
  using assms
  by (auto simp: NewPKCEPair_def RandomState_def randomURLValue_def PKCEChallenge_def validCodeChallenge_def
      RawURL_length)

lemma pkce_pair_accepted_witness:
  "validCodeChallenge (PKCEChallenge (\<lambda>_. replicate 32 CHR ''x'') (RawURL_EncodeToString (replicate 32 CHR ''r''))) ''S256''"
  using pkce_pair_accepted [of "\<lambda>_. replicate 32 CHR ''x''" "replicate 32 CHR ''r''" "replicate 16 CHR ''s''"
      "\<lparr>pk_Verifier = RawURL_EncodeToString (replicate 32 CHR ''r''),
       pk_Challenge = PKCEChallenge (\<lambda>_. replicate 32 CHR ''x'') (RawURL_EncodeToString (replicate 32 CHR ''r'')),
       pk_Method = ''S256''\<rparr>" "RawURL_EncodeToString (replicate 16 CHR ''s'')"]
  by (simp add: NewPKCEPair_def RandomState_def randomURLValue_def)

text \<open>
  Configuration. A configuration that \<^verbatim>\<open>applyDefaults\<close> accepts has a 32-byte secret, an issuer
  and an audience, a store and a key manager, and a nonzero lifespan for every kind of token; the
  settings that were given are kept.\<close>

lemma config_defaults:
  assumes "config_applyDefaults rand c = Inr c'"
  shows "length (cf_Secret c') = 32 \<and> cf_Issuer c' = cf_Issuer c \<and> cf_Issuer c' \<noteq> [] \<and> cf_Audience c' \<noteq> [] \<and>
         cf_HasStore c' \<and> cf_HasKeyManager c' \<and> cf_AuditEmitter c' \<noteq> None \<and>
         0 \<notin> {cf_AccessTokenLifespan c', cf_RefreshTokenLifespan c', cf_AuthorizeCodeLifespan c', cf_IDTokenLifespan c'} \<and>
         (cf_Secret c \<noteq> [] \<longrightarrow> cf_Secret c' = cf_Secret c) \<and> (cf_Audience c \<noteq> [] \<longrightarrow> cf_Audience c' = cf_Audience c)"
proof -
  have nz: "or_default d def \<noteq> 0" if "def \<noteq> 0" for d def using that by (simp add: or_default_def)
  have "DefaultAccessTokenLifespan \<noteq> 0" "DefaultRefreshTokenLifespan \<noteq> 0" "10 * time_Minute \<noteq> 0" "time_Hour \<noteq> 0"
    by (simp_all add: DefaultAccessTokenLifespan_def DefaultRefreshTokenLifespan_def time_Hour_def time_Minute_def time_Second_def)
  note n = this [THEN nz]
  show ?thesis using assms
    by (auto simp: config_applyDefaults_def bind_res_def Let_def n n [symmetric] split: if_splits sum.splits option.splits)
qed

lemma config_defaults_witness:
  "length (cf_Secret (case config_applyDefaults (Inr (replicate 32 CHR ''k''))
     \<lparr>cf_Secret = [], cf_Issuer = ''https://as/'', cf_Audience = [], cf_HasStore = True, cf_HasKeyManager = True,
      cf_AllowedScopes = [], cf_DefaultScopes = [], cf_AccessTokenLifespan = 0, cf_RefreshTokenLifespan = 0,
      cf_AuthorizeCodeLifespan = 0, cf_IDTokenLifespan = 0, cf_AuditEmitter = None, cf_RefreshReplayWindow = 0,
      cf_MetadataDisabled = False, cf_MetadataAllowLoopback = False, cf_MetadataCacheTTL = 0\<rparr> of Inr c \<Rightarrow> c)) = 32"
  using config_defaults [of "Inr (replicate 32 CHR ''k'')"
     "\<lparr>cf_Secret = [], cf_Issuer = ''https://as/'', cf_Audience = [], cf_HasStore = True, cf_HasKeyManager = True,
      cf_AllowedScopes = [], cf_DefaultScopes = [], cf_AccessTokenLifespan = 0, cf_RefreshTokenLifespan = 0,
      cf_AuthorizeCodeLifespan = 0, cf_IDTokenLifespan = 0, cf_AuditEmitter = None, cf_RefreshReplayWindow = 0,
      cf_MetadataDisabled = False, cf_MetadataAllowLoopback = False, cf_MetadataCacheTTL = 0\<rparr>"]
  by (simp add: config_applyDefaults_def bind_res_def Let_def)

end
