(* ===== verification/ApprovalStores.thy ===== *)
theory ApprovalStores
  imports TokenEndpoint
begin

text \<open>
  The approval tokens of the consent flow (\<^verbatim>\<open>oauth/consent/params.go\<close>, \<^verbatim>\<open>default_store.go\<close>,
  \<^verbatim>\<open>hmacstore/store.go\<close>, \<^verbatim>\<open>sessionstore/store.go\<close>, \<^verbatim>\<open>sessionstore/backend.go\<close>): the signed in-process
  store and the session-backed store, and the contract of \<^verbatim>\<open>ApprovalTokenStore\<close> they both keep, as
  the locale \<open>approval_tokens\<close>. SHA-256, HMAC and random bytes are parameters.
\<close>

section \<open>Authorization parameters\<close>

definition form_only_keys :: "string list" where
  "form_only_keys = [''username'', ''password'', ''action'', ''approval_token'', ''challenge_id'', ''challenge_response'']"

definition oauthAuthorizeValues :: "url_values \<Rightarrow> url_values" where
  "oauthAuthorizeValues vs =
     fold (\<lambda>(key, vals) clean. if key \<in> set form_only_keys then clean else fold (values_Add key) vals clean) vs []"

definition ParamsDigest :: "(string \<Rightarrow> string) \<Rightarrow> url_values \<Rightarrow> string" where
  "ParamsDigest sha256 vs = RawURL_EncodeToString (sha256 (values_Encode (oauthAuthorizeValues vs)))"

definition normalizeOAuthStringSlice :: "string list \<Rightarrow> string list" where
  "normalizeOAuthStringSlice vs =
     fold (\<lambda>v out. let trimmed = go_TrimSpace v
                   in if trimmed = [] then out else if trimmed \<in> set out then out else out @ [trimmed]) vs []"

definition approvalTokenTTL :: duration where "approvalTokenTTL = 5 * time_Minute"

definition ErrApprovalTokenInvalid :: goerr where
  "ErrApprovalTokenInvalid = Sentinel ''consent: approval token invalid''"

definition zero_Subject :: Subject where
  "zero_Subject = \<lparr>sj_ID = [], sj_Email = [], sj_GrantedScopes = [], sj_Extra = []\<rparr>"

section \<open>The signed store\<close>

record defaultApprovalStore =
  as_key :: string
  as_issued :: "gotime gomap"

definition newDefaultApprovalStore :: "string \<Rightarrow> defaultApprovalStore" where
  "newDefaultApprovalStore key = \<lparr>as_key = key, as_issued = []\<rparr>"

definition approval_sign :: "(string \<Rightarrow> string \<Rightarrow> string) \<Rightarrow> defaultApprovalStore \<Rightarrow> string \<Rightarrow> string" where
  "approval_sign hmac s payload = RawURL_EncodeToString (hmac (as_key s) payload)"

definition newApprovalNonce :: "string result \<Rightarrow> string result" where
  "newApprovalNonce rand =
     (case rand of Inl e \<Rightarrow> Inl (Wrap ''approval token nonce'' e) | Inr buf \<Rightarrow> Inr (RawURL_EncodeToString buf))"

definition deleteStored :: "string \<Rightarrow> defaultApprovalStore \<Rightarrow> defaultApprovalStore" where
  "deleteStored token s = s\<lparr>as_issued := gm_del token (as_issued s)\<rparr>"

definition consumeStored :: "gotime \<Rightarrow> string \<Rightarrow> defaultApprovalStore \<Rightarrow> bool \<times> defaultApprovalStore" where
  "consumeStored now token s =
     (case gm_get (as_issued s) token of
        None \<Rightarrow> (False, s)
      | Some expiresAt \<Rightarrow> (time_Before now expiresAt, s\<lparr>as_issued := gm_del token (as_issued s)\<rparr>))"

text \<open>Of the two clock readings of a call, the signed store takes only the first when issuing.\<close>

type_synonym clocks = "gotime \<times> gotime"

definition approval_Issue ::
  "(string \<Rightarrow> string) \<Rightarrow> (string \<Rightarrow> string \<Rightarrow> string) \<Rightarrow> clocks \<Rightarrow> string result \<Rightarrow> Subject \<Rightarrow> url_values \<Rightarrow>
   defaultApprovalStore \<Rightarrow> string result \<times> defaultApprovalStore" where
  "approval_Issue sha256 hmac now rand subject params s =
     (let expiresAt = time_Unix (time_Add (fst now) approvalTokenTTL)
      in (case newApprovalNonce rand of
            Inl e \<Rightarrow> (Inl e, s)
          | Inr nonce \<Rightarrow>
              (let payload = sj_ID subject @ ''|'' @ FormatInt expiresAt @ ''|'' @ ParamsDigest sha256 params @ ''|'' @ nonce;
                   signature = approval_sign hmac s payload;
                   token = RawURL_EncodeToString (payload @ ''|'' @ signature)
               in (Inr token, s\<lparr>as_issued := gm_put token (time_of_Unix expiresAt) (as_issued s)\<rparr>))))"

definition approval_Consume ::
  "(string \<Rightarrow> string) \<Rightarrow> (string \<Rightarrow> string \<Rightarrow> string) \<Rightarrow> clocks \<Rightarrow> string \<Rightarrow> url_values \<Rightarrow>
   defaultApprovalStore \<Rightarrow> Subject result \<times> defaultApprovalStore" where
  "approval_Consume sha256 hmac now token params s =
     (if token = [] then (Inl ErrApprovalTokenInvalid, s)
      else (case RawURL_DecodeString token of
              Inl _ \<Rightarrow> (Inl ErrApprovalTokenInvalid, s)
            | Inr decoded \<Rightarrow>
                (let parts = go_Split decoded (CHR ''|'')
                 in if length parts \<noteq> 4 \<and> length parts \<noteq> 5 then (Inl ErrApprovalTokenInvalid, s)
                    else
                      (let signature = last parts; payload = go_Join (butlast parts) ''|''
                       in if signature \<noteq> approval_sign hmac s payload then (Inl ErrApprovalTokenInvalid, s)
                          else (case ParseInt64 (parts ! 1) of
                                  Inl _ \<Rightarrow> (Inl ErrApprovalTokenInvalid, s)
                                | Inr expiresAt \<Rightarrow>
                                    if time_Unix (fst now) > expiresAt
                                    then (Inl ErrApprovalTokenInvalid, deleteStored token s)
                                    else if parts ! 2 \<noteq> ParamsDigest sha256 params then (Inl ErrApprovalTokenInvalid, s)
                                    else (case consumeStored (snd now) token s of
                                            (False, s') \<Rightarrow> (Inl ErrApprovalTokenInvalid, s')
                                          | (True, s') \<Rightarrow> (Inr (zero_Subject\<lparr>sj_ID := parts ! 0\<rparr>), s')))))))"

text \<open>Package \<^verbatim>\<open>hmacstore\<close> has the same code under its own name.\<close>

definition hmacstore_New :: "string \<Rightarrow> defaultApprovalStore" where
  "hmacstore_New key = newDefaultApprovalStore key"

definition hmacstore_Issue ::
  "(string \<Rightarrow> string) \<Rightarrow> (string \<Rightarrow> string \<Rightarrow> string) \<Rightarrow> clocks \<Rightarrow> string result \<Rightarrow> Subject \<Rightarrow> url_values \<Rightarrow>
   defaultApprovalStore \<Rightarrow> string result \<times> defaultApprovalStore" where
  "hmacstore_Issue sha256 hmac now rand subject params s = approval_Issue sha256 hmac now rand subject params s"

definition hmacstore_Consume ::
  "(string \<Rightarrow> string) \<Rightarrow> (string \<Rightarrow> string \<Rightarrow> string) \<Rightarrow> clocks \<Rightarrow> string \<Rightarrow> url_values \<Rightarrow>
   defaultApprovalStore \<Rightarrow> Subject result \<times> defaultApprovalStore" where
  "hmacstore_Consume sha256 hmac now token params s = approval_Consume sha256 hmac now token params s"

section \<open>The session-backed store\<close>

definition sessionstore_ErrNotFound :: string where "sessionstore_ErrNotFound = ''sessionstore: not found''"

record Entry =
  en_SubjectID :: string
  en_SubjectEmail :: string
  en_SubjectExtra :: "json gomap"
  en_Params :: url_values
  en_ExpiresAt :: gotime

record 'b SessionBackend =
  sb_Put :: "gotime \<Rightarrow> string \<Rightarrow> Entry \<Rightarrow> duration \<Rightarrow> 'b \<Rightarrow> goerr option \<times> 'b"
  sb_Pull :: "gotime \<Rightarrow> string \<Rightarrow> 'b \<Rightarrow> Entry result \<times> 'b"

record memoryItem =
  mi_entry :: Entry
  mi_expiresAt :: gotime

type_synonym MemoryBackend = "memoryItem gomap"

definition NewMemoryBackend :: MemoryBackend where "NewMemoryBackend = []"

definition mem_Put :: "gotime \<Rightarrow> string \<Rightarrow> Entry \<Rightarrow> duration \<Rightarrow> MemoryBackend \<Rightarrow> goerr option \<times> MemoryBackend" where
  "mem_Put now key entry ttl b = (None, gm_put key \<lparr>mi_entry = entry, mi_expiresAt = time_Add now ttl\<rparr> b)"

definition mem_Pull :: "gotime \<Rightarrow> string \<Rightarrow> MemoryBackend \<Rightarrow> Entry result \<times> MemoryBackend" where
  "mem_Pull now key b =
     (case gm_get b key of
        None \<Rightarrow> (Inl (Sentinel sessionstore_ErrNotFound), b)
      | Some item \<Rightarrow>
          (let b' = gm_del key b
           in if time_After now (mi_expiresAt item) then (Inl (Sentinel sessionstore_ErrNotFound), b')
              else (Inr (mi_entry item), b')))"

definition memory_backend :: "MemoryBackend SessionBackend" where
  "memory_backend = \<lparr>sb_Put = mem_Put, sb_Pull = mem_Pull\<rparr>"

definition session_newKey :: "string result \<Rightarrow> string result" where
  "session_newKey rand = (case rand of Inl e \<Rightarrow> Inl e | Inr buf \<Rightarrow> Inr (RawURL_EncodeToString buf))"

definition cloneValues :: "url_values \<Rightarrow> url_values" where
  "cloneValues m = map (\<lambda>(key, vals). (key, vals)) m"

definition session_Issue ::
  "'b SessionBackend \<Rightarrow> (string \<Rightarrow> string) \<Rightarrow> clocks \<Rightarrow> string result \<Rightarrow> Subject \<Rightarrow> url_values \<Rightarrow> 'b \<Rightarrow>
   string result \<times> 'b" where
  "session_Issue backend sha256 now rand subject params b =
     (case session_newKey rand of
        Inl e \<Rightarrow> (Inl e, b)
      | Inr key \<Rightarrow>
          (let entry = \<lparr>en_SubjectID = sj_ID subject, en_SubjectEmail = sj_Email subject, en_SubjectExtra = sj_Extra subject,
                        en_Params = cloneValues params, en_ExpiresAt = time_Add (fst now) approvalTokenTTL\<rparr>
           in (case sb_Put backend (snd now) key entry approvalTokenTTL b of
                 (Some e, b') \<Rightarrow> (Inl e, b')
               | (None, b') \<Rightarrow> (Inr (key @ ''.'' @ ParamsDigest sha256 params), b'))))"

definition session_Consume ::
  "'b SessionBackend \<Rightarrow> (string \<Rightarrow> string) \<Rightarrow> clocks \<Rightarrow> string \<Rightarrow> url_values \<Rightarrow> 'b \<Rightarrow> Subject result \<times> 'b" where
  "session_Consume backend sha256 now token params b =
     (case go_Cut token (CHR ''.'') of
        None \<Rightarrow> (Inl ErrApprovalTokenInvalid, b)
      | Some (key, digest) \<Rightarrow>
          if key = [] \<or> digest = [] then (Inl ErrApprovalTokenInvalid, b)
          else if digest \<noteq> ParamsDigest sha256 params then (Inl ErrApprovalTokenInvalid, b)
          else (case sb_Pull backend (fst now) key b of
                  (Inl err, b') \<Rightarrow>
                    (Inl (if errors_is err sessionstore_ErrNotFound then ErrApprovalTokenInvalid else err), b')
                | (Inr entry, b') \<Rightarrow>
                    if time_After (snd now) (en_ExpiresAt entry) then (Inl ErrApprovalTokenInvalid, b')
                    else if ParamsDigest sha256 (en_Params entry) \<noteq> digest then (Inl ErrApprovalTokenInvalid, b')
                    else (Inr \<lparr>sj_ID = en_SubjectID entry, sj_Email = en_SubjectEmail entry, sj_GrantedScopes = [],
                               sj_Extra = en_SubjectExtra entry\<rparr>, b')))"

section \<open>The contract of an approval-token store\<close>

text \<open>
  \<open>pending s t\<close> is what the token \<open>t\<close> is still good for: the subject it was issued to, the digest of
  the parameters and the instant it expires. \<open>admits\<close> says which subjects and parameters the store
  can issue a usable token for.
\<close>

type_synonym grant = "string \<times> string \<times> gotime"

datatype approval_op = IssueOp clocks "string result" Subject url_values | ConsumeOp clocks string url_values
datatype approval_res = Issued "string result" | Consumed "Subject result"

fun approval_step ::
  "(clocks \<Rightarrow> string result \<Rightarrow> Subject \<Rightarrow> url_values \<Rightarrow> 's \<Rightarrow> string result \<times> 's) \<Rightarrow>
   (clocks \<Rightarrow> string \<Rightarrow> url_values \<Rightarrow> 's \<Rightarrow> Subject result \<times> 's) \<Rightarrow> approval_op \<Rightarrow> 's \<Rightarrow> approval_res \<times> 's" where
  "approval_step issue consume (IssueOp now r subj ps) s = (case issue now r subj ps s of (x, s') \<Rightarrow> (Issued x, s'))"
| "approval_step issue consume (ConsumeOp now t ps) s = (case consume now t ps s of (x, s') \<Rightarrow> (Consumed x, s'))"

fun run_approvals ::
  "(clocks \<Rightarrow> string result \<Rightarrow> Subject \<Rightarrow> url_values \<Rightarrow> 's \<Rightarrow> string result \<times> 's) \<Rightarrow>
   (clocks \<Rightarrow> string \<Rightarrow> url_values \<Rightarrow> 's \<Rightarrow> Subject result \<times> 's) \<Rightarrow> approval_op list \<Rightarrow> 's \<Rightarrow>
   (approval_op \<times> approval_res) list \<times> 's" where
  "run_approvals issue consume [] s = ([], s)"
| "run_approvals issue consume (op # ops) s =
     (let (x, s1) = approval_step issue consume op s; (log, s2) = run_approvals issue consume ops s1
      in ((op, x) # log, s2))"

text \<open>
  \<open>unspent log t (i, d) now\<close>: the last thing \<open>log\<close> says about \<open>t\<close> is that it was issued, to the subject
  \<open>i\<close> for parameters with digest \<open>d\<close>, no longer ago than the lifetime of a token.
\<close>

definition spent_in :: "string \<Rightarrow> (approval_op \<times> approval_res) list \<Rightarrow> bool" where
  "spent_in t log = (\<exists>now ps subj. (ConsumeOp now t ps, Consumed (Inr subj)) \<in> set log)"

definition unspent ::
  "(url_values \<Rightarrow> string) \<Rightarrow> (approval_op \<times> approval_res) list \<Rightarrow> string \<Rightarrow> string \<Rightarrow> string \<Rightarrow> gotime \<Rightarrow> bool" where
  "unspent digest log t i d now =
     (\<exists>before_log after_log now0 r subj0 ps0.
        log = before_log @ (IssueOp now0 r subj0 ps0, Issued (Inr t)) # after_log \<and>
        sj_ID subj0 = i \<and> digest ps0 = d \<and> now \<le> fst now0 + approvalTokenTTL \<and> \<not> spent_in t after_log)"

lemma unspent_snoc:
  assumes "unspent digest log t i d now" "\<not> spent_in t [e]"
  shows "unspent digest (log @ [e]) t i d now"
proof -
  obtain a b now0 r subj0 ps0 where "log = a @ (IssueOp now0 r subj0 ps0, Issued (Inr t)) # b" "sj_ID subj0 = i"
      "digest ps0 = d" "now \<le> fst now0 + approvalTokenTTL" "\<not> spent_in t b"
    using assms(1) unfolding unspent_def by blast
  with assms(2) show ?thesis
    unfolding unspent_def
    by (intro exI [of _ a] exI [of _ "b @ [e]"] exI [of _ now0] exI [of _ r] exI [of _ subj0] exI [of _ ps0])
      (auto simp: spent_in_def)
qed

lemma unspent_issued:
  "unspent digest (log @ [(IssueOp now0 r subj0 ps0, Issued (Inr t))]) t (sj_ID subj0) (digest ps0) now"
  if "now \<le> fst now0 + approvalTokenTTL"
  unfolding unspent_def
  by (intro exI [of _ log] exI [of _ "[]"] exI [of _ now0] exI [of _ r] exI [of _ subj0] exI [of _ ps0])
    (use that in \<open>auto simp: spent_in_def\<close>)

lemma unspent_mono:
  assumes "now \<le> e" "unspent digest log t i d e"
  shows "unspent digest log t i d now"
proof -
  obtain a b now0 r subj0 ps0 where "log = a @ (IssueOp now0 r subj0 ps0, Issued (Inr t)) # b" "sj_ID subj0 = i"
      "digest ps0 = d" "e \<le> fst now0 + approvalTokenTTL" "\<not> spent_in t b"
    using assms(2) unfolding unspent_def by blast
  with assms(1) show ?thesis
    unfolding unspent_def
    by (intro exI [of _ a] exI [of _ b] exI [of _ now0] exI [of _ r] exI [of _ subj0] exI [of _ ps0]) auto
qed

locale approval_tokens =
  fixes issue :: "clocks \<Rightarrow> string result \<Rightarrow> Subject \<Rightarrow> url_values \<Rightarrow> 's \<Rightarrow> string result \<times> 's"
    and consume :: "clocks \<Rightarrow> string \<Rightarrow> url_values \<Rightarrow> 's \<Rightarrow> Subject result \<times> 's"
    and digest :: "url_values \<Rightarrow> string"
    and pending :: "'s \<Rightarrow> string \<Rightarrow> grant option"
    and ok :: "'s \<Rightarrow> bool"
    and admits :: "clocks \<Rightarrow> string result \<Rightarrow> Subject \<Rightarrow> url_values \<Rightarrow> bool"
  assumes issue_ok: "ok s \<Longrightarrow> issue now r subj ps s = (x, s') \<Longrightarrow> ok s'"
    and consume_ok: "ok s \<Longrightarrow> consume now t ps s = (y, s') \<Longrightarrow> ok s'"
    and issue_within: "ok s \<Longrightarrow> issue now r subj ps s = (x, s') \<Longrightarrow> pending s' t' = Some g \<Longrightarrow>
           pending s t' = Some g \<or>
           x = Inr t' \<and> (\<exists>e. g = (sj_ID subj, digest ps, e) \<and> e \<le> fst now + approvalTokenTTL)"
    and issue_pending: "ok s \<Longrightarrow> issue now r subj ps s = (Inr t, s') \<Longrightarrow> admits now r subj ps \<Longrightarrow>
           \<exists>e. pending s' t = Some (sj_ID subj, digest ps, e) \<and> fst now + approvalTokenTTL - time_Second < e"
    and consume_granted: "ok s \<Longrightarrow> consume now t ps s = (Inr subj, s') \<Longrightarrow>
           pending s' t = None \<and> (\<exists>e. pending s t = Some (sj_ID subj, digest ps, e) \<and> min (fst now) (snd now) \<le> e)"
    and consume_within: "ok s \<Longrightarrow> consume now t ps s = (y, s') \<Longrightarrow> pending s' t' = Some g \<Longrightarrow> pending s t' = Some g"
    and consume_others: "ok s \<Longrightarrow> consume now t ps s = (y, s') \<Longrightarrow> pending s t \<noteq> None \<Longrightarrow> t' \<noteq> t \<Longrightarrow>
           pending s' t' = pending s t'"
    and consume_live: "ok s \<Longrightarrow> pending s t = Some (i, digest ps, e) \<Longrightarrow> fst now < e \<Longrightarrow> snd now < e \<Longrightarrow>
           \<exists>subj s'. consume now t ps s = (Inr subj, s') \<and> sj_ID subj = i"
begin

definition justified :: "(approval_op \<times> approval_res) list \<Rightarrow> 's \<Rightarrow> bool" where
  "justified log s = (\<forall>t i d e. pending s t = Some (i, d, e) \<longrightarrow> unspent digest log t i d e)"

lemma step_ok: "ok s \<Longrightarrow> approval_step issue consume op s = (x, s') \<Longrightarrow> ok s'"
  by (cases op) (auto intro: issue_ok consume_ok split: prod.splits)

lemma step_justified:
  assumes "ok s" "justified log s" "approval_step issue consume op s = (x, s')"
  shows "justified (log @ [(op, x)]) s'"
proof (cases op)
  case (IssueOp now r subj ps)
  with assms(3) obtain y where y: "issue now r subj ps s = (y, s')" "x = Issued y" by (auto split: prod.splits)
  show ?thesis unfolding justified_def
  proof (intro allI impI)
    fix t i d e assume p: "pending s' t = Some (i, d, e)"
    from issue_within [OF assms(1) y(1) p] show "unspent digest (log @ [(op, x)]) t i d e"
    proof
      assume "pending s t = Some (i, d, e)"
      with assms(2) IssueOp show ?thesis by (auto simp: justified_def spent_in_def intro!: unspent_snoc)
    next
      assume "y = Inr t \<and> (\<exists>e'. (i, d, e) = (sj_ID subj, digest ps, e') \<and> e' \<le> fst now + approvalTokenTTL)"
      with IssueOp y(2) show ?thesis by (auto intro: unspent_issued)
    qed
  qed
next
  case (ConsumeOp now t0 ps)
  with assms(3) obtain y where y: "consume now t0 ps s = (y, s')" "x = Consumed y" by (auto split: prod.splits)
  show ?thesis unfolding justified_def
  proof (intro allI impI)
    fix t i d e assume p: "pending s' t = Some (i, d, e)"
    have "\<not> spent_in t [(op, x)]"
    proof
      assume "spent_in t [(op, x)]"
      with y ConsumeOp obtain subj where "consume now t ps s = (Inr subj, s')" by (auto simp: spent_in_def)
      from consume_granted [OF assms(1) this] p show False by simp
    qed
    with consume_within [OF assms(1) y(1) p] assms(2) show "unspent digest (log @ [(op, x)]) t i d e"
      by (auto simp: justified_def intro: unspent_snoc)
  qed
qed

lemma step_consumed:
  assumes "ok s" "justified log s" "approval_step issue consume (ConsumeOp now t ps) s = (Consumed (Inr subj), s')"
  shows "unspent digest log t (sj_ID subj) (digest ps) (min (fst now) (snd now))"
proof -
  from assms(3) have "consume now t ps s = (Inr subj, s')" by (auto split: prod.splits)
  from consume_granted [OF assms(1) this] obtain e where
    "pending s t = Some (sj_ID subj, digest ps, e)" "min (fst now) (snd now) \<le> e" by auto
  with assms(2) have "unspent digest log t (sj_ID subj) (digest ps) e" by (auto simp: justified_def)
  with \<open>min (fst now) (snd now) \<le> e\<close> show ?thesis by (rule unspent_mono)
qed

lemma run_single_use:
  assumes "ok s" "justified log0 s" "fst (run_approvals issue consume ops s) = a @ (ConsumeOp now t ps, Consumed (Inr subj)) # b"
  shows "unspent digest (log0 @ a) t (sj_ID subj) (digest ps) (min (fst now) (snd now))"
  using assms
proof (induction ops arbitrary: s log0 a)
  case (Cons op ops)
  obtain x s1 where st: "approval_step issue consume op s = (x, s1)" by fastforce
  show ?case
  proof (cases a)
    case Nil
    with Cons.prems st show ?thesis by (auto simp: Let_def split: prod.splits intro: step_consumed)
  next
    case (Cons e a')
    with Cons.prems(3) st have "e = (op, x)" "fst (run_approvals issue consume ops s1) = a' @ (ConsumeOp now t ps, Consumed (Inr subj)) # b"
      by (auto simp: Let_def split: prod.splits)
    with Cons.IH [OF step_ok [OF Cons.prems(1) st] step_justified [OF Cons.prems(1,2) st]] Cons show ?thesis by simp
  qed
qed simp

lemma issue_then_consume:
  assumes "ok s" "issue now r subj ps s = (Inr t, s1)" "admits now r subj ps"
    and "fst now' \<le> fst now + approvalTokenTTL - time_Second" "snd now' \<le> fst now + approvalTokenTTL - time_Second"
    and "digest ps' = digest ps"
  shows "\<exists>subj' s2. consume now' t ps' s1 = (Inr subj', s2) \<and> sj_ID subj' = sj_ID subj"
proof -
  from issue_pending [OF assms(1,2,3)] obtain e where
    "pending s1 t = Some (sj_ID subj, digest ps', e)" "fst now + approvalTokenTTL - time_Second < e"
    unfolding assms(6) by blast
  with consume_live [OF issue_ok [OF assms(1,2)], of t "sj_ID subj" ps' e now'] assms(4,5) show ?thesis by simp
qed

end

section \<open>The signed store keeps the contract\<close>

definition approval_payload :: "string \<Rightarrow> int \<Rightarrow> string \<Rightarrow> string \<Rightarrow> string" where
  "approval_payload i sec d nonce = i @ ''|'' @ FormatInt sec @ ''|'' @ d @ ''|'' @ nonce"

definition approval_pending :: "defaultApprovalStore \<Rightarrow> string \<Rightarrow> grant option" where
  "approval_pending s t =
     (case gm_get (as_issued s) t of
        None \<Rightarrow> None
      | Some expiresAt \<Rightarrow>
          (case RawURL_DecodeString t of
             Inl _ \<Rightarrow> None
           | Inr decoded \<Rightarrow>
               (let parts = go_Split decoded (CHR ''|'')
                in if length parts = 5 \<and> ParseInt64 (parts ! 1) = Inr (time_Unix expiresAt)
                   then Some (parts ! 0, parts ! 2, expiresAt) else None)))"

definition approval_signed :: "(string \<Rightarrow> string \<Rightarrow> string) \<Rightarrow> defaultApprovalStore \<Rightarrow> string \<Rightarrow> gotime \<Rightarrow> bool" where
  "approval_signed hmac s t e =
     (\<exists>i sec d nonce. e = time_of_Unix sec \<and> CHR ''|'' \<notin> set d \<and> CHR ''|'' \<notin> set nonce \<and>
        t = RawURL_EncodeToString (approval_payload i sec d nonce @ ''|'' @
              approval_sign hmac s (approval_payload i sec d nonce)))"

definition approval_ok :: "(string \<Rightarrow> string \<Rightarrow> string) \<Rightarrow> defaultApprovalStore \<Rightarrow> bool" where
  "approval_ok hmac s = (\<forall>t e. gm_get (as_issued s) t = Some e \<longrightarrow> approval_signed hmac s t e)"

definition approval_admits :: "clocks \<Rightarrow> string result \<Rightarrow> Subject \<Rightarrow> url_values \<Rightarrow> bool" where
  "approval_admits now r subj ps =
     (CHR ''|'' \<notin> set (sj_ID subj) \<and> in_int64 (time_Unix (fst now + approvalTokenTTL)))"

lemma FormatInt_no_bar: "CHR ''|'' \<notin> set (FormatInt n)"
  using FormatInt_chars [of "CHR ''|''" n] by (auto simp: dec_digit_def Let_def)

lemma encoded_no_bar: "CHR ''|'' \<notin> set (RawURL_EncodeToString x)"
  using RawURL_alphabet(1) [of "CHR ''|''" x] by auto

lemma RawURL_nonempty: "RawURL_EncodeToString x \<noteq> [] \<longleftrightarrow> x \<noteq> []"
proof -
  have "RawURL_EncodeToString x = [] \<longleftrightarrow> (4 * length x + 2) div 3 = 0" by (metis RawURL_length length_0_conv)
  also have "\<dots> \<longleftrightarrow> length x = 0" by linarith
  finally show ?thesis by simp
qed

lemma split_payload:
  assumes "CHR ''|'' \<notin> set d" "CHR ''|'' \<notin> set nonce" "CHR ''|'' \<notin> set sig"
  shows "go_Split (approval_payload i sec d nonce @ CHR ''|'' # sig) (CHR ''|'') =
         go_Split i (CHR ''|'') @ [FormatInt sec, d, nonce, sig]"
  unfolding approval_payload_def
  using assms FormatInt_no_bar [of sec]
  by (induction i "CHR ''|''" rule: go_Split.induct) (auto simp: go_Split_append go_Split_single split: list.splits)

lemma join_payload:
  "go_Join (go_Split i (CHR ''|'') @ [FormatInt sec, d, nonce]) ''|'' = approval_payload i sec d nonce"
proof -
  have "go_Join (xs @ ys) ''|'' = go_Join xs ''|'' @ ''|'' @ go_Join ys ''|''" if "xs \<noteq> []" "ys \<noteq> []" for xs ys :: "string list"
    using that by (induction xs "''|''" rule: go_Join.induct) (auto simp: neq_Nil_conv)
  then show ?thesis by (simp add: approval_payload_def go_Join_Split)
qed

lemma approval_ok_token:
  assumes "approval_ok hmac s" "gm_get (as_issued s) t = Some e"
  obtains i sec d nonce parts where "e = time_of_Unix sec" "t \<noteq> []"
    "RawURL_DecodeString t = Inr (approval_payload i sec d nonce @ CHR ''|'' # approval_sign hmac s (approval_payload i sec d nonce))"
    "go_Split (approval_payload i sec d nonce @ CHR ''|'' # approval_sign hmac s (approval_payload i sec d nonce)) (CHR ''|'') =
       go_Split i (CHR ''|'') @ [FormatInt sec, d, nonce, approval_sign hmac s (approval_payload i sec d nonce)]"
proof -
  from assms have "approval_signed hmac s t e" by (simp add: approval_ok_def)
  then obtain i sec d nonce where t: "e = time_of_Unix sec" "CHR ''|'' \<notin> set d" "CHR ''|'' \<notin> set nonce"
      "t = RawURL_EncodeToString (approval_payload i sec d nonce @ CHR ''|'' # approval_sign hmac s (approval_payload i sec d nonce))"
    by (auto simp: approval_signed_def)
  have "CHR ''|'' \<notin> set (approval_sign hmac s x)" for x by (simp add: approval_sign_def encoded_no_bar)
  note split_payload [OF t(2,3) this]
  moreover have "t \<noteq> []" unfolding t(4) RawURL_nonempty by simp
  ultimately show thesis using t(1,4) by (intro that) simp_all
qed

lemma approval_signed_issued [simp]: "approval_signed hmac (s\<lparr>as_issued := m\<rparr>) t e = approval_signed hmac s t e"
  by (simp add: approval_signed_def approval_sign_def)

lemma approval_ok_del: "approval_ok hmac s \<Longrightarrow> approval_ok hmac (s\<lparr>as_issued := gm_del t (as_issued s)\<rparr>)"
  by (simp add: approval_ok_def)

lemma approval_Issue_token:
  assumes "approval_Issue sha hmac now r subj ps s = (Inr t, s')"
  defines "sec \<equiv> time_Unix (fst now + approvalTokenTTL)"
  obtains nonce where "CHR ''|'' \<notin> set nonce"
    "t = RawURL_EncodeToString (approval_payload (sj_ID subj) sec (ParamsDigest sha ps) nonce @ CHR ''|'' #
       approval_sign hmac s (approval_payload (sj_ID subj) sec (ParamsDigest sha ps) nonce))"
    "s' = s\<lparr>as_issued := gm_put t (time_of_Unix sec) (as_issued s)\<rparr>"
proof -
  from assms obtain nonce where n: "newApprovalNonce r = Inr nonce" by (cases "newApprovalNonce r") (auto simp: approval_Issue_def)
  then have "CHR ''|'' \<notin> set nonce" by (auto simp: newApprovalNonce_def encoded_no_bar split: sum.splits)
  with assms n show thesis
    by (intro that) (auto simp: approval_Issue_def Let_def time_Add_def approval_payload_def sec_def)
qed

lemma approval_Issue_ok:
  assumes "approval_ok hmac s" "approval_Issue sha hmac now r subj ps s = (x, s')"
  shows "approval_ok hmac s'"
proof (cases x)
  case (Inl e)
  with assms show ?thesis by (auto simp: approval_Issue_def Let_def split: sum.splits)
next
  case (Inr t)
  define sec where "sec = time_Unix (fst now + approvalTokenTTL)"
  obtain nonce where t: "CHR ''|'' \<notin> set nonce"
    "t = RawURL_EncodeToString (approval_payload (sj_ID subj) sec (ParamsDigest sha ps) nonce @ CHR ''|'' #
       approval_sign hmac s (approval_payload (sj_ID subj) sec (ParamsDigest sha ps) nonce))"
    "s' = s\<lparr>as_issued := gm_put t (time_of_Unix sec) (as_issued s)\<rparr>"
    by (rule approval_Issue_token [OF assms(2) [unfolded Inr], folded sec_def])
  have "CHR ''|'' \<notin> set (ParamsDigest sha ps)" by (simp add: ParamsDigest_def encoded_no_bar)
  with t(1,2) have "approval_signed hmac s t (time_of_Unix sec)" unfolding approval_signed_def by auto
  with assms(1) show ?thesis by (simp add: approval_ok_def t(3))
qed

lemma approval_Issue_pending:
  assumes "approval_Issue sha hmac now r subj ps s = (Inr t, s')"
  shows "approval_pending s' t =
           (if approval_admits now r subj ps
            then Some (sj_ID subj, ParamsDigest sha ps, time_of_Unix (time_Unix (fst now + approvalTokenTTL)))
            else approval_pending s' t)"
    and "approval_pending s' t = Some g \<Longrightarrow> g = (sj_ID subj, ParamsDigest sha ps, time_of_Unix (time_Unix (fst now + approvalTokenTTL)))"
    and "t' \<noteq> t \<Longrightarrow> approval_pending s' t' = approval_pending s t'"
proof -
  define sec where "sec = time_Unix (fst now + approvalTokenTTL)"
  obtain nonce where t: "CHR ''|'' \<notin> set nonce"
    "t = RawURL_EncodeToString (approval_payload (sj_ID subj) sec (ParamsDigest sha ps) nonce @ CHR ''|'' #
       approval_sign hmac s (approval_payload (sj_ID subj) sec (ParamsDigest sha ps) nonce))"
    "s' = s\<lparr>as_issued := gm_put t (time_of_Unix sec) (as_issued s)\<rparr>"
    by (rule approval_Issue_token [OF assms, folded sec_def])
  have dec: "RawURL_DecodeString t = Inr (approval_payload (sj_ID subj) sec (ParamsDigest sha ps) nonce @ CHR ''|'' #
       approval_sign hmac s (approval_payload (sj_ID subj) sec (ParamsDigest sha ps) nonce))" by (simp add: t(2))
  have sp: "go_Split (approval_payload (sj_ID subj) sec (ParamsDigest sha ps) nonce @ CHR ''|'' #
       approval_sign hmac s (approval_payload (sj_ID subj) sec (ParamsDigest sha ps) nonce)) (CHR ''|'') =
     go_Split (sj_ID subj) (CHR ''|'') @ [FormatInt sec, ParamsDigest sha ps, nonce,
       approval_sign hmac s (approval_payload (sj_ID subj) sec (ParamsDigest sha ps) nonce)]"
    by (rule split_payload) (simp_all add: t(1) ParamsDigest_def approval_sign_def encoded_no_bar)
  have one: "\<exists>y. go_Split (sj_ID subj) (CHR ''|'') = [y]" if "length (go_Split (sj_ID subj) (CHR ''|'')) = Suc 0"
    using that by (cases "go_Split (sj_ID subj) (CHR ''|'')") auto
  show "approval_pending s' t =
           (if approval_admits now r subj ps
            then Some (sj_ID subj, ParamsDigest sha ps, time_of_Unix (time_Unix (fst now + approvalTokenTTL)))
            else approval_pending s' t)"
    by (simp add: approval_pending_def dec t(3) sp Let_def approval_admits_def go_Split_single ParseInt64_FormatInt flip: sec_def)
  show "approval_pending s' t = Some g \<Longrightarrow> g = (sj_ID subj, ParamsDigest sha ps, time_of_Unix (time_Unix (fst now + approvalTokenTTL)))"
    using one go_Join_Split [of "sj_ID subj" "CHR ''|''"]
    by (auto simp: approval_pending_def dec t(3) sp Let_def simp flip: sec_def split: if_splits)
  show "t' \<noteq> t \<Longrightarrow> approval_pending s' t' = approval_pending s t'"
    by (simp add: approval_pending_def t(3))
qed

lemma approval_Consume_state:
  assumes "approval_Consume sha hmac now t ps s = (y, s')"
  shows "s' = s \<or> s' = s\<lparr>as_issued := gm_del t (as_issued s)\<rparr>"
  using assms
  by (auto simp: approval_Consume_def deleteStored_def consumeStored_def Let_def
      split: if_splits sum.splits option.splits bool.splits prod.splits)

lemma approval_Consume_granted:
  assumes "approval_ok hmac s" "approval_Consume sha hmac now t ps s = (Inr subj, s')"
  shows "s' = s\<lparr>as_issued := gm_del t (as_issued s)\<rparr>"
    and "\<exists>e. approval_pending s t = Some (sj_ID subj, ParamsDigest sha ps, e) \<and> snd now < e"
proof -
  from assms(2) obtain decoded x e where c: "RawURL_DecodeString t = Inr decoded"
      "length (go_Split decoded (CHR ''|'')) = 4 \<or> length (go_Split decoded (CHR ''|'')) = 5"
      "ParseInt64 (go_Split decoded (CHR ''|'') ! 1) = Inr x" "go_Split decoded (CHR ''|'') ! 2 = ParamsDigest sha ps"
      "gm_get (as_issued s) t = Some e" "snd now < e" "s' = s\<lparr>as_issued := gm_del t (as_issued s)\<rparr>"
      "sj_ID subj = go_Split decoded (CHR ''|'') ! 0"
    by (auto simp: approval_Consume_def consumeStored_def Let_def time_Before_def
        split: if_splits sum.splits option.splits bool.splits prod.splits)
  then show "s' = s\<lparr>as_issued := gm_del t (as_issued s)\<rparr>" by simp
  obtain i sec d nonce where t: "e = time_of_Unix sec"
    "RawURL_DecodeString t = Inr (approval_payload i sec d nonce @ CHR ''|'' # approval_sign hmac s (approval_payload i sec d nonce))"
    "go_Split (approval_payload i sec d nonce @ CHR ''|'' # approval_sign hmac s (approval_payload i sec d nonce)) (CHR ''|'') =
       go_Split i (CHR ''|'') @ [FormatInt sec, d, nonce, approval_sign hmac s (approval_payload i sec d nonce)]"
    by (rule approval_ok_token [OF assms(1) c(5)])
  have dec: "decoded = approval_payload i sec d nonce @ CHR ''|'' # approval_sign hmac s (approval_payload i sec d nonce)"
    using c(1) t(2) by simp
  obtain y where y: "go_Split i (CHR ''|'') = [y]"
    using c(2) unfolding dec t(3) by (cases "go_Split i (CHR ''|'')") auto
  have "ParseInt64 (FormatInt sec) = Inr sec"
    using c(3) unfolding dec t(3) y by (simp add: ParseInt64_FormatInt_range split: if_splits)
  then have "approval_pending s t = Some (y, d, e)" by (simp add: approval_pending_def c(5) t(2,3) y Let_def t(1))
  with c(4,6,8) show "\<exists>e. approval_pending s t = Some (sj_ID subj, ParamsDigest sha ps, e) \<and> snd now < e"
    unfolding dec t(3) y by simp
qed

lemma approval_Consume_live:
  assumes "approval_ok hmac s" "approval_pending s t = Some (i, ParamsDigest sha ps, e)" "fst now < e" "snd now < e"
  shows "\<exists>subj s'. approval_Consume sha hmac now t ps s = (Inr subj, s') \<and> sj_ID subj = i"
proof -
  from assms(2) have g: "gm_get (as_issued s) t = Some e"
    by (auto simp: approval_pending_def Let_def split: option.splits sum.splits if_splits)
  obtain i' sec d nonce where t: "e = time_of_Unix sec" "t \<noteq> []"
    "RawURL_DecodeString t = Inr (approval_payload i' sec d nonce @ CHR ''|'' # approval_sign hmac s (approval_payload i' sec d nonce))"
    "go_Split (approval_payload i' sec d nonce @ CHR ''|'' # approval_sign hmac s (approval_payload i' sec d nonce)) (CHR ''|'') =
       go_Split i' (CHR ''|'') @ [FormatInt sec, d, nonce, approval_sign hmac s (approval_payload i' sec d nonce)]"
    by (rule approval_ok_token [OF assms(1) g])
  from assms(2) g t(3,4) have "length (go_Split i' (CHR ''|'')) = 1"
    by (simp add: approval_pending_def Let_def split: if_splits)
  then obtain y where y: "go_Split i' (CHR ''|'') = [y]" by (cases "go_Split i' (CHR ''|'')") auto
  from assms(2) g t(1,3,4) y have p: "y = i" "d = ParamsDigest sha ps" "ParseInt64 (FormatInt sec) = Inr sec"
    by (simp_all add: approval_pending_def Let_def split: if_splits)
  have unix: "\<not> sec < time_Unix (fst now)"
    using assms(3) time_of_Unix_le [of "fst now"] by (auto simp: t(1) time_of_Unix_def)
  have join: "go_Join [y, FormatInt sec, d, nonce] ''|'' = approval_payload i' sec d nonce"
    using join_payload [of i' sec d nonce] by (simp add: y)
  show ?thesis
    using assms(4) join unix t(2) g
    by (simp add: approval_Consume_def t(3,4) y Let_def p(1,3) consumeStored_def time_Before_def zero_Subject_def
        flip: p(2))
qed

interpretation signed: approval_tokens "approval_Issue sha hmac" "approval_Consume sha hmac" "ParamsDigest sha"
  approval_pending "approval_ok hmac" approval_admits for sha hmac
proof unfold_locales
  fix s now r subj ps x s' t' g
  assume a: "approval_ok hmac s" "approval_Issue sha hmac now r subj ps s = (x, s')" "approval_pending s' t' = Some g"
  show "approval_pending s t' = Some g \<or>
     x = Inr t' \<and> (\<exists>e. g = (sj_ID subj, ParamsDigest sha ps, e) \<and> e \<le> fst now + approvalTokenTTL)"
  proof (cases x)
    case (Inl e)
    with a show ?thesis by (auto simp: approval_Issue_def Let_def split: sum.splits)
  next
    case (Inr t)
    with approval_Issue_pending(2,3) a(2,3) time_of_Unix_le show ?thesis by (cases "t' = t") metis+
  qed
next
  fix s now r subj ps t s'
  assume "approval_Issue sha hmac now r subj ps s = (Inr t, s')" "approval_admits now r subj ps"
  then show "\<exists>e. approval_pending s' t = Some (sj_ID subj, ParamsDigest sha ps, e) \<and> fst now + approvalTokenTTL - time_Second < e"
    using approval_Issue_pending(1) [of sha hmac now r subj ps s t s'] time_of_Unix_gt by auto
next
  fix s now t ps subj s'
  assume "approval_ok hmac s" "approval_Consume sha hmac now t ps s = (Inr subj, s')"
  from approval_Consume_granted [OF this]
  show "approval_pending s' t = None \<and>
     (\<exists>e. approval_pending s t = Some (sj_ID subj, ParamsDigest sha ps, e) \<and> min (fst now) (snd now) \<le> e)"
    by (auto simp: approval_pending_def)
qed (use approval_Consume_state in \<open>fastforce intro: approval_Issue_ok approval_Consume_live approval_ok_del
       simp: approval_pending_def split: if_splits\<close>)+

section \<open>The session-backed store keeps the contract\<close>

definition session_pending :: "(string \<Rightarrow> string) \<Rightarrow> MemoryBackend \<Rightarrow> string \<Rightarrow> grant option" where
  "session_pending sha256 b t =
     (case go_Cut t (CHR ''.'') of
        None \<Rightarrow> None
      | Some (key, d) \<Rightarrow>
          if key = [] \<or> d = [] then None
          else (case gm_get b key of
                  None \<Rightarrow> None
                | Some item \<Rightarrow>
                    if ParamsDigest sha256 (en_Params (mi_entry item)) = d
                    then Some (en_SubjectID (mi_entry item), d, min (mi_expiresAt item) (en_ExpiresAt (mi_entry item)))
                    else None))"

definition session_admits :: "(string \<Rightarrow> string) \<Rightarrow> clocks \<Rightarrow> string result \<Rightarrow> Subject \<Rightarrow> url_values \<Rightarrow> bool" where
  "session_admits sha256 now r subj ps =
     (fst now \<le> snd now \<and> (case r of Inl _ \<Rightarrow> False | Inr buf \<Rightarrow> buf \<noteq> []) \<and> ParamsDigest sha256 ps \<noteq> [])"

lemma cloneValues_id [simp]: "cloneValues m = m"
  by (simp add: cloneValues_def)

lemma session_Issue_memory:
  assumes "session_Issue memory_backend sha now r subj ps b = (Inr t, b')"
  obtains buf where "r = Inr buf" "t = RawURL_EncodeToString buf @ CHR ''.'' # ParamsDigest sha ps"
    "b' = gm_put (RawURL_EncodeToString buf)
       \<lparr>mi_entry = \<lparr>en_SubjectID = sj_ID subj, en_SubjectEmail = sj_Email subj, en_SubjectExtra = sj_Extra subj,
                    en_Params = ps, en_ExpiresAt = fst now + approvalTokenTTL\<rparr>,
        mi_expiresAt = snd now + approvalTokenTTL\<rparr> b"
  using assms
  by (cases r) (auto simp: session_Issue_def session_newKey_def memory_backend_def mem_Put_def time_Add_def Let_def)

lemma cut_session_token: "go_Cut (RawURL_EncodeToString buf @ CHR ''.'' # d) (CHR ''.'') = Some (RawURL_EncodeToString buf, d)"
  by (rule go_Cut_append) (use RawURL_alphabet(2) in auto)

lemma session_Consume_state:
  assumes "session_Consume memory_backend sha now t ps b = (y, b')"
  shows "b' = b \<or> (\<exists>key. go_Cut t (CHR ''.'') = Some (key, ParamsDigest sha ps) \<and> b' = gm_del key b)"
  using assms
  by (auto simp: session_Consume_def memory_backend_def mem_Pull_def Let_def
      split: option.splits if_splits prod.splits sum.splits)

lemma session_token_eq:
  assumes "go_Cut t (CHR ''.'') = Some (key, d)" "go_Cut t' (CHR ''.'') = Some (key, d)"
  shows "t' = t"
  using go_Cut_Some [OF assms(1)] go_Cut_Some [OF assms(2)] by simp

lemma session_pending_cut:
  "go_Cut t (CHR ''.'') = None \<Longrightarrow> session_pending sha b t = None"
  "go_Cut t (CHR ''.'') = Some (key, d) \<Longrightarrow> gm_get b key = gm_get b' key \<Longrightarrow> session_pending sha b t = session_pending sha b' t"
  "go_Cut t (CHR ''.'') = Some (key, d) \<Longrightarrow> gm_get b key = None \<Longrightarrow> session_pending sha b t = None"
  "go_Cut t (CHR ''.'') = Some (key, d) \<Longrightarrow> gm_get b key = Some item \<Longrightarrow> session_pending sha b t = Some g \<Longrightarrow>
     d = ParamsDigest sha (en_Params (mi_entry item)) \<and>
     g = (en_SubjectID (mi_entry item), d, min (mi_expiresAt item) (en_ExpiresAt (mi_entry item)))"
  by (simp_all add: session_pending_def split: if_splits)

lemma session_pending_del:
  assumes t: "go_Cut t (CHR ''.'') = Some (key, d)"
  shows "session_pending sha (gm_del key b) t = None"
    and "session_pending sha (gm_del key b) t' = Some g \<Longrightarrow> session_pending sha b t' = Some g"
    and "session_pending sha b t = Some g' \<Longrightarrow> t' \<noteq> t \<Longrightarrow> session_pending sha (gm_del key b) t' = session_pending sha b t'"
proof -
  show "session_pending sha (gm_del key b) t = None" by (rule session_pending_cut(3) [OF t]) simp
  have other: "session_pending sha (gm_del key b) t' = session_pending sha b t'"
    if "go_Cut t' (CHR ''.'') = Some (key', d')" "key' \<noteq> key" for key' d'
    by (rule session_pending_cut(2) [OF that(1)]) (simp add: that(2))
  have same: "session_pending sha (gm_del key b) t' = None" if "go_Cut t' (CHR ''.'') = Some (key, d')" for d'
    by (rule session_pending_cut(3) [OF that]) simp
  show "session_pending sha (gm_del key b) t' = Some g \<Longrightarrow> session_pending sha b t' = Some g"
    using other same session_pending_cut(1) [of t' sha "gm_del key b"]
    by (cases "go_Cut t' (CHR ''.'')") (force, metis option.distinct(1) surj_pair)
  assume p: "session_pending sha b t = Some g'" "t' \<noteq> t"
  show "session_pending sha (gm_del key b) t' = session_pending sha b t'"
  proof (cases "go_Cut t' (CHR ''.'')")
    case None
    then show ?thesis by (simp add: session_pending_cut(1))
  next
    case (Some kd)
    obtain key' d' where kd: "go_Cut t' (CHR ''.'') = Some (key', d')" using Some by (cases kd) simp
    have "session_pending sha b t' = None" if "key' = key"
    proof (rule ccontr)
      assume "session_pending sha b t' \<noteq> None"
      then obtain g where g: "session_pending sha b t' = Some g" by auto
      obtain item where it: "gm_get b key = Some item" using session_pending_cut(3) [OF t] p(1) by fastforce
      from session_pending_cut(4) [OF t it p(1)] session_pending_cut(4) [OF kd [unfolded that] it g] have "d = d'" by simp
      with session_token_eq [OF t, of t'] kd that p(2) show False by simp
    qed
    then show ?thesis using other same kd by metis
  qed
qed

lemma session_Consume_granted:
  assumes "session_Consume memory_backend sha now t ps b = (Inr subj, b')"
  shows "session_pending sha b' t = None \<and>
     (\<exists>e. session_pending sha b t = Some (sj_ID subj, ParamsDigest sha ps, e) \<and> min (fst now) (snd now) \<le> e)"
proof -
  obtain key where k: "go_Cut t (CHR ''.'') = Some (key, ParamsDigest sha ps)"
    using assms by (auto simp: session_Consume_def split: option.splits if_splits)
  with assms show ?thesis
    by (auto simp: session_Consume_def memory_backend_def mem_Pull_def Let_def session_pending_def time_After_def not_less
        split: option.splits if_splits prod.splits sum.splits)
qed

lemma session_Consume_live:
  assumes "session_pending sha b t = Some (i, ParamsDigest sha ps, e)" "fst now < e" "snd now < e"
  shows "\<exists>subj b'. session_Consume memory_backend sha now t ps b = (Inr subj, b') \<and> sj_ID subj = i"
  using assms
  by (auto simp: session_Consume_def memory_backend_def mem_Pull_def Let_def session_pending_def time_After_def
      split: option.splits if_splits prod.splits)

lemma session_Issue_pending:
  assumes "session_Issue memory_backend sha now r subj ps b = (Inr t, b')"
  shows "session_admits sha now r subj ps \<Longrightarrow> session_pending sha b' t = Some (sj_ID subj, ParamsDigest sha ps, fst now + approvalTokenTTL)"
    and "session_pending sha b' t' = Some g \<Longrightarrow> session_pending sha b t' = Some g \<or>
           t' = t \<and> (\<exists>e. g = (sj_ID subj, ParamsDigest sha ps, e) \<and> e \<le> fst now + approvalTokenTTL)"
    (is "_ \<Longrightarrow> ?thesis2")
proof -
  obtain buf where b: "r = Inr buf" "t = RawURL_EncodeToString buf @ CHR ''.'' # ParamsDigest sha ps"
    "b' = gm_put (RawURL_EncodeToString buf)
       \<lparr>mi_entry = \<lparr>en_SubjectID = sj_ID subj, en_SubjectEmail = sj_Email subj, en_SubjectExtra = sj_Extra subj,
                    en_Params = ps, en_ExpiresAt = fst now + approvalTokenTTL\<rparr>,
        mi_expiresAt = snd now + approvalTokenTTL\<rparr> b"
    by (rule session_Issue_memory [OF assms])
  note cut = cut_session_token [of buf "ParamsDigest sha ps", folded b(2)]
  show "session_admits sha now r subj ps \<Longrightarrow> session_pending sha b' t = Some (sj_ID subj, ParamsDigest sha ps, fst now + approvalTokenTTL)"
    using RawURL_nonempty [of buf] by (simp add: session_pending_def cut session_admits_def b(1,3))
  show "session_pending sha b' t' = Some g \<Longrightarrow> session_pending sha b t' = Some g \<or>
           t' = t \<and> (\<exists>e. g = (sj_ID subj, ParamsDigest sha ps, e) \<and> e \<le> fst now + approvalTokenTTL)"
  proof (cases "go_Cut t' (CHR ''.'')")
    case None
    then show "session_pending sha b' t' = Some g \<Longrightarrow> ?thesis2" by (simp add: session_pending_cut(1))
  next
    case (Some kd)
    obtain key' d' where kd: "go_Cut t' (CHR ''.'') = Some (key', d')" using Some by (cases kd) simp
    assume g: "session_pending sha b' t' = Some g"
    show ?thesis2
    proof (cases "key' = RawURL_EncodeToString buf")
      case True
      from session_pending_cut(4) [OF kd _ g] True have "d' = ParamsDigest sha ps"
          "g = (sj_ID subj, ParamsDigest sha ps, min (snd now) (fst now) + approvalTokenTTL)" by (simp_all add: b(3))
      with session_token_eq [OF cut] kd True show ?thesis by simp
    next
      case False
      with session_pending_cut(2) [OF kd, of b' b sha] g show ?thesis by (simp add: b(3))
    qed
  qed
qed

interpretation sessions: approval_tokens "session_Issue memory_backend sha" "session_Consume memory_backend sha"
  "ParamsDigest sha" "session_pending sha" "\<lambda>_. True" "session_admits sha" for sha
proof unfold_locales
  fix b now r subj ps x b' t' g
  assume a: "session_Issue memory_backend sha now r subj ps b = (x, b')" "session_pending sha b' t' = Some g"
  show "session_pending sha b t' = Some g \<or>
     x = Inr t' \<and> (\<exists>e. g = (sj_ID subj, ParamsDigest sha ps, e) \<and> e \<le> fst now + approvalTokenTTL)"
  proof (cases x)
    case (Inl e)
    with a show ?thesis
      by (auto simp: session_Issue_def session_newKey_def memory_backend_def mem_Put_def Let_def split: sum.splits)
  next
    case (Inr t)
    with session_Issue_pending(2) [of sha now r subj ps b t b' t' g] a show ?thesis by auto
  qed
next
  fix b now r subj ps t b'
  assume "session_Issue memory_backend sha now r subj ps b = (Inr t, b')" "session_admits sha now r subj ps"
  from session_Issue_pending(1) [OF this]
  show "\<exists>e. session_pending sha b' t = Some (sj_ID subj, ParamsDigest sha ps, e) \<and> fst now + approvalTokenTTL - time_Second < e"
    by (simp add: time_Second_def)
next
  fix b now t ps y b' t' g
  assume "session_Consume memory_backend sha now t ps b = (y, b')" "session_pending sha b' t' = Some g"
  then show "session_pending sha b t' = Some g"
    using session_Consume_state session_pending_del(2) by metis
next
  fix b now t ps y b' t'
  assume "session_Consume memory_backend sha now t ps b = (y, b')" "session_pending sha b t \<noteq> None" "t' \<noteq> t"
  then show "session_pending sha b' t' = session_pending sha b t'"
    using session_Consume_state session_pending_del(3) by (metis option.exhaust)
qed (use session_Consume_granted session_Consume_live in \<open>simp_all\<close>)

section \<open>What the parameter digest covers\<close>

lemma gm_get_add_all:
  "gm_get (fold (values_Add key) vals m) k =
     (if k = key \<and> vals \<noteq> [] then Some ((case gm_get m key of Some xs \<Rightarrow> xs | None \<Rightarrow> []) @ vals) else gm_get m k)"
  by (induction vals arbitrary: m) (auto simp: values_Add_def)

lemma gm_wf_add_all [simp]: "gm_wf m \<Longrightarrow> gm_wf (fold (values_Add key) vals m)"
  by (induction vals arbitrary: m) auto

lemma oauthAuthorizeValues_aux:
  assumes "distinct (map fst vs)" "\<forall>k \<in> fst ` set vs. gm_get m k = None"
  shows "gm_get (fold (\<lambda>(key, vals) clean. if key \<in> set form_only_keys then clean else fold (values_Add key) vals clean) vs m) k =
     (if k \<in> set form_only_keys then gm_get m k
      else (case gm_get vs k of Some (x # xs) \<Rightarrow> Some (x # xs) | _ \<Rightarrow> gm_get m k))"
  using assms
proof (induction vs arbitrary: m)
  case (Cons kv vs)
  obtain key vals where kv: "kv = (key, vals)" by fastforce
  let ?m = "if key \<in> set form_only_keys then m else fold (values_Add key) vals m"
  from Cons.prems kv have d: "distinct (map fst vs)" "key \<notin> fst ` set vs" "\<forall>k \<in> fst ` set vs. gm_get ?m k = None"
    by (auto simp: gm_get_add_all)
  have n: "gm_get vs key = None" "gm_get m key = None" using d(2) Cons.prems(2) by (simp_all add: gm_get_None kv)
  have c: "gm_get (kv # vs) k = (if k = key then Some vals else gm_get vs k)" by (simp add: gm_get_def kv)
  have step: "fold (\<lambda>(key, vals) clean. if key \<in> set form_only_keys then clean else fold (values_Add key) vals clean) (kv # vs) m =
    fold (\<lambda>(key, vals) clean. if key \<in> set form_only_keys then clean else fold (values_Add key) vals clean) vs ?m" by (simp add: kv)
  show ?case
    unfolding step Cons.IH [OF d(1,3)] c using n by (auto simp: gm_get_add_all simp del: fold_simps split: list.splits option.splits)
qed simp

lemma gm_get_oauthAuthorizeValues:
  assumes "gm_wf vs"
  shows "gm_get (oauthAuthorizeValues vs) k =
     (if k \<in> set form_only_keys then None else (case gm_get vs k of Some (x # xs) \<Rightarrow> Some (x # xs) | _ \<Rightarrow> None))"
  unfolding oauthAuthorizeValues_def
  by (subst oauthAuthorizeValues_aux) (use assms in \<open>auto simp: gm_wf_def split: option.splits list.splits\<close>)

lemma gm_wf_oauthAuthorizeValues [simp]: "gm_wf (oauthAuthorizeValues vs)"
proof -
  have "gm_wf (fold (\<lambda>(key, vals) clean. if key \<in> set form_only_keys then clean else fold (values_Add key) vals clean) vs m)"
    if "gm_wf m" for m using that by (induction vs arbitrary: m) (auto split: prod.splits)
  then show ?thesis by (simp add: oauthAuthorizeValues_def)
qed

section \<open>Properties\<close>



lemma justified_start:
  "signed.justified hmac log (newDefaultApprovalStore key)" "sessions.justified sha log NewMemoryBackend"
  by (simp_all add: signed.justified_def sessions.justified_def approval_pending_def newDefaultApprovalStore_def
      session_pending_def NewMemoryBackend_def split: option.splits)

text \<open>
  C5 (approval tokens of the signed store). In every history of a store, a token that was accepted had been
  issued before, to the subject it was accepted for and for parameters with the same digest, no longer ago
  than the token lifetime, and had not been accepted since: approval tokens cannot be forged, moved to
  another request, used late or used twice.\<close>

theorem signed_approvals_single_use:
  assumes "fst (run_approvals (approval_Issue sha hmac) (approval_Consume sha hmac) ops (newDefaultApprovalStore key)) =
           a @ (ConsumeOp now t ps, Consumed (Inr subj)) # b"
  shows "unspent (ParamsDigest sha) a t (sj_ID subj) (ParamsDigest sha ps) (min (fst now) (snd now))"
  using signed.run_single_use [OF _ justified_start(1) assms, of "[]"]
  by (simp add: approval_ok_def newDefaultApprovalStore_def)

definition sample_subject :: Subject where
  "sample_subject = \<lparr>sj_ID = ''u1'', sj_Email = ''u1@x'', sj_GrantedScopes = [], sj_Extra = []\<rparr>"

definition sample_params :: url_values where
  "sample_params = [(''client_id'', [''c1'']), (''state'', [''s'']), (''password'', [''pw''])]"

lemma sample_signed:
  obtains t s1 subj s2 where
    "approval_Issue id (\<lambda>k m. k) (1000, 0) (Inr ''r'') sample_subject sample_params (newDefaultApprovalStore ''k'') = (Inr t, s1)"
    "approval_Consume id (\<lambda>k m. k) (2000, 3000) t sample_params s1 = (Inr subj, s2)" "sj_ID subj = ''u1''"
proof -
  obtain t s1 where i: "approval_Issue id (\<lambda>k m. k) (1000, 0) (Inr ''r'') sample_subject sample_params
      (newDefaultApprovalStore ''k'') = (Inr t, s1)"
    by (simp add: approval_Issue_def newApprovalNonce_def Let_def)
  from signed.issue_then_consume [OF _ i, of "(2000, 3000)" sample_params] that [OF i] show thesis
    by (auto simp: approval_ok_def newDefaultApprovalStore_def approval_admits_def sample_subject_def in_int64_def
        time_Unix_def approvalTokenTTL_def time_Minute_def time_Second_def)
qed

theorem signed_approvals_single_use_witness:
  "\<exists>t. unspent (ParamsDigest id) [(IssueOp (1000, 0) (Inr ''r'') sample_subject sample_params, Issued (Inr t))] t ''u1''
         (ParamsDigest id sample_params) 2000"
proof -
  obtain t s1 subj s2 where
    "approval_Issue id (\<lambda>k m. k) (1000, 0) (Inr ''r'') sample_subject sample_params (newDefaultApprovalStore ''k'') = (Inr t, s1)"
    "approval_Consume id (\<lambda>k m. k) (2000, 3000) t sample_params s1 = (Inr subj, s2)" "sj_ID subj = ''u1''"
    by (rule sample_signed)
  with signed_approvals_single_use [of id "\<lambda>k m. k"
      "[IssueOp (1000, 0) (Inr ''r'') sample_subject sample_params, ConsumeOp (2000, 3000) t sample_params]" "''k''"
      "[(IssueOp (1000, 0) (Inr ''r'') sample_subject sample_params, Issued (Inr t))]" "(2000, 3000)" t sample_params subj "[]"]
  show ?thesis by auto
qed

text \<open>
  C6 (approval tokens of the session store). The same holds for the session-backed store over the
  in-memory backend.\<close>

theorem session_approvals_single_use:
  assumes "fst (run_approvals (session_Issue memory_backend sha) (session_Consume memory_backend sha) ops NewMemoryBackend) =
           a @ (ConsumeOp now t ps, Consumed (Inr subj)) # b"
  shows "unspent (ParamsDigest sha) a t (sj_ID subj) (ParamsDigest sha ps) (min (fst now) (snd now))"
  using sessions.run_single_use [OF TrueI justified_start(2) assms, of "[]"] by simp

theorem session_approvals_single_use_witness:
  "\<exists>t. unspent (ParamsDigest (\<lambda>_. ''d'')) [(IssueOp (1000, 1000) (Inr ''r'') sample_subject sample_params, Issued (Inr t))] t ''u1''
         (ParamsDigest (\<lambda>_. ''d'') sample_params) 2000"
proof -
  obtain t s1 where i: "session_Issue memory_backend (\<lambda>_. ''d'') (1000, 1000) (Inr ''r'') sample_subject sample_params
      NewMemoryBackend = (Inr t, s1)"
    by (simp add: session_Issue_def session_newKey_def memory_backend_def mem_Put_def Let_def)
  obtain subj s2 where c: "session_Consume memory_backend (\<lambda>_. ''d'') (2000, 3000) t sample_params s1 = (Inr subj, s2)" "sj_ID subj = ''u1''"
    using sessions.issue_then_consume [OF TrueI i, of "(2000, 3000)" sample_params] RawURL_nonempty [of "''d''"]
    by (auto simp: session_admits_def ParamsDigest_def sample_subject_def approvalTokenTTL_def time_Minute_def time_Second_def)
  from session_approvals_single_use [of "\<lambda>_. ''d''"
      "[IssueOp (1000, 1000) (Inr ''r'') sample_subject sample_params, ConsumeOp (2000, 3000) t sample_params]"
      "[(IssueOp (1000, 1000) (Inr ''r'') sample_subject sample_params, Issued (Inr t))]" "(2000, 3000)" t sample_params subj "[]"]
    i c show ?thesis by auto
qed

text \<open>
  C35 (an approval can be completed). A token issued by the signed store to a subject whose ID has no
  vertical bar is accepted once, for parameters with the same digest, until one second before its
  lifetime ends, and gives back the subject's ID.\<close>

theorem signed_approval_usable:
  assumes "approval_ok hmac s" "approval_Issue sha hmac now r subj ps s = (Inr t, s1)"
    and "CHR ''|'' \<notin> set (sj_ID subj)" "in_int64 (time_Unix (fst now + approvalTokenTTL))"
    and "fst now' \<le> fst now + approvalTokenTTL - time_Second" "snd now' \<le> fst now + approvalTokenTTL - time_Second"
    and "ParamsDigest sha ps' = ParamsDigest sha ps"
  shows "\<exists>s2. approval_Consume sha hmac now' t ps' s1 = (Inr (zero_Subject\<lparr>sj_ID := sj_ID subj\<rparr>), s2) \<and>
              gm_get (as_issued s2) t = None"
proof -
  from assms(3,4) have "approval_admits now r subj ps" by (simp add: approval_admits_def)
  from signed.issue_then_consume [OF assms(1,2) this assms(5,6,7)] obtain subj' s2 where
    c: "approval_Consume sha hmac now' t ps' s1 = (Inr subj', s2)" "sj_ID subj' = sj_ID subj" by auto
  from approval_Consume_granted(1) [OF approval_Issue_ok [OF assms(1,2)] c(1)] have "gm_get (as_issued s2) t = None" by simp
  moreover have "subj' = zero_Subject\<lparr>sj_ID := sj_ID subj'\<rparr>"
    using c(1) by (auto simp: approval_Consume_def zero_Subject_def Let_def split: if_splits sum.splits bool.splits prod.splits)
  ultimately show ?thesis using c by auto
qed

theorem signed_approval_usable_witness:
  "\<exists>t s1 s2. approval_Issue id (\<lambda>k m. k) (1000, 0) (Inr ''r'') sample_subject sample_params (newDefaultApprovalStore ''k'') = (Inr t, s1) \<and>
     approval_Consume id (\<lambda>k m. k) (2000, 3000) t sample_params s1 = (Inr (zero_Subject\<lparr>sj_ID := ''u1''\<rparr>), s2)"
proof -
  obtain t s1 where i: "approval_Issue id (\<lambda>k m. k) (1000, 0) (Inr ''r'') sample_subject sample_params
      (newDefaultApprovalStore ''k'') = (Inr t, s1)"
    by (simp add: approval_Issue_def newApprovalNonce_def Let_def)
  from signed_approval_usable [OF _ i, of "(2000, 3000)" sample_params] i show ?thesis
    by (auto simp: approval_ok_def newDefaultApprovalStore_def sample_subject_def in_int64_def
        time_Unix_def approvalTokenTTL_def time_Minute_def time_Second_def)
qed

text \<open>
  A token the signed store issues to a subject whose ID contains a
  vertical bar is always refused: such a subject can sign in but never approve.\<close>

lemma signed_approval_bar_subject:
  assumes "approval_Issue sha hmac now r subj ps s = (Inr t, s1)" "CHR ''|'' \<in> set (sj_ID subj)"
  shows "approval_Consume sha hmac now' t ps' s2 = (Inl ErrApprovalTokenInvalid, s2)"
proof -
  define sec where "sec = time_Unix (fst now + approvalTokenTTL)"
  obtain nonce where t: "CHR ''|'' \<notin> set nonce"
    "t = RawURL_EncodeToString (approval_payload (sj_ID subj) sec (ParamsDigest sha ps) nonce @ CHR ''|'' #
       approval_sign hmac s (approval_payload (sj_ID subj) sec (ParamsDigest sha ps) nonce))"
    by (rule approval_Issue_token [OF assms(1), folded sec_def])
  have "length (go_Split (approval_payload (sj_ID subj) sec (ParamsDigest sha ps) nonce @ CHR ''|'' #
       approval_sign hmac s (approval_payload (sj_ID subj) sec (ParamsDigest sha ps) nonce)) (CHR ''|'')) =
       Suc (count_list (sj_ID subj) (CHR ''|'')) + 4"
    using t(1) by (subst split_payload) (simp_all add: ParamsDigest_def approval_sign_def encoded_no_bar length_go_Split)
  moreover have "count_list (sj_ID subj) (CHR ''|'') \<noteq> 0" using assms(2) by (simp add: count_list_0_iff)
  ultimately show ?thesis by (simp add: approval_Consume_def t(2) Let_def)
qed

lemma signed_approval_bar_subject_witness:
  "\<exists>t s1. approval_Issue id (\<lambda>k m. k) (1000, 0) (Inr ''r'') (sample_subject\<lparr>sj_ID := ''auth0|7''\<rparr>) sample_params
       (newDefaultApprovalStore ''k'') = (Inr t, s1) \<and>
     approval_Consume id (\<lambda>k m. k) (2000, 3000) t sample_params s1 = (Inl ErrApprovalTokenInvalid, s1)"
proof -
  obtain t s1 where i: "approval_Issue id (\<lambda>k m. k) (1000, 0) (Inr ''r'') (sample_subject\<lparr>sj_ID := ''auth0|7''\<rparr>) sample_params
      (newDefaultApprovalStore ''k'') = (Inr t, s1)"
    by (simp add: approval_Issue_def newApprovalNonce_def Let_def)
  with signed_approval_bar_subject [OF i] show ?thesis by auto
qed

end
