(* ===== verification/ConsentFlow.thy ===== *)
theory ConsentFlow
  imports ApprovalStores
begin

text \<open>
  The consent handler (\<^verbatim>\<open>oauth/consent/handler.go\<close>, \<^verbatim>\<open>config.go\<close>, \<^verbatim>\<open>request.go\<close>, \<^verbatim>\<open>validate.go\<close>,
  \<^verbatim>\<open>redirect.go\<close>, \<^verbatim>\<open>audit.go\<close>, \<^verbatim>\<open>policy.go\<close>, \<^verbatim>\<open>page.go\<close>, \<^verbatim>\<open>error.go\<close>): sign-in, approval and denial of
  an authorization request. The OAuth engine, the authenticator, the renderer, the policy, the
  challenge provider and the approval store are the components of its configuration; a rendered
  page is the list of calls the renderer makes on the response writer.
\<close>

section \<open>Pages\<close>

datatype Page = PageLogin | PageConsent | PageRedirectBridge

record HiddenInput =
  hi_Name :: string
  hi_Value :: string

record PageData =
  pd_Authenticated :: bool
  pd_DisplayName :: string
  pd_ClientName :: string
  pd_Scopes :: "string list"
  pd_Resources :: "string list"
  pd_HiddenInputs :: "HiddenInput list"
  pd_FormAction :: string
  pd_Error :: string
  pd_RedirectURL :: string

definition zero_PageData :: PageData where
  "zero_PageData =
     \<lparr>pd_Authenticated = False, pd_DisplayName = [], pd_ClientName = [], pd_Scopes = [], pd_Resources = [],
      pd_HiddenInputs = [], pd_FormAction = [], pd_Error = [], pd_RedirectURL = []\<rparr>"

section \<open>Requests and responses\<close>

text \<open>An authorization request of the engine with the client's display name and its redirect URI.\<close>

record consent_request = engine_request +
  cq_ClientName :: "string option"
  cq_RedirectURI :: "url option"

definition ClientNameFromRequester :: "consent_request \<Rightarrow> string" where
  "ClientNameFromRequester rq =
     (case er_ClientID rq of
        None \<Rightarrow> ''your MCP client''
      | Some clientID \<Rightarrow>
          (let name = (case cq_ClientName rq of Some n \<Rightarrow> go_TrimSpace n | None \<Rightarrow> []); i = go_TrimSpace clientID
           in if name \<noteq> [] then name else if i \<noteq> [] then i else ''your MCP client''))"

definition response_query :: "url_values \<Rightarrow> url_values \<Rightarrow> url_values" where
  "response_query parameters query =
     fold (\<lambda>(key, vals) q. fold (values_Add key) vals (values_Del key q)) parameters query"

definition RedirectURLFromResponder :: "consent_request \<Rightarrow> url_values \<Rightarrow> string" where
  "RedirectURLFromResponder rq parameters =
     (case cq_RedirectURI rq of
        None \<Rightarrow> []
      | Some redirectURI \<Rightarrow>
          url_String (redirectURI\<lparr>u_RawQuery := values_Encode (response_query parameters (url_Query redirectURI))\<rparr>))"

definition HiddenInputs :: "url_values \<Rightarrow> HiddenInput list" where
  "HiddenInputs vs = concat (map (\<lambda>(key, vals). map (\<lambda>v. \<lparr>hi_Name = key, hi_Value = v\<rparr>) vals) vs)"

definition ResourcesFromValues :: "url_values \<Rightarrow> string list" where
  "ResourcesFromValues vs = normalizeOAuthStringSlice (case gm_get vs ''resource'' of Some rs \<Rightarrow> rs | None \<Rightarrow> [])"

definition cloneAndSet :: "url_values \<Rightarrow> string \<Rightarrow> string \<Rightarrow> url_values" where
  "cloneAndSet vs key v = values_Set key v vs"

section \<open>The handler's parts\<close>

record ('fs, 'resp) consent_engine =
  ce_NewAuthorizeRequest :: "string \<Rightarrow> header \<Rightarrow> 'fs \<Rightarrow> consent_request result \<times> 'fs"
  ce_GrantScope :: "string \<Rightarrow> consent_request \<Rightarrow> consent_request"
  ce_GrantAudience :: "string \<Rightarrow> consent_request \<Rightarrow> consent_request"
  ce_NewAuthorizeResponse :: "consent_request \<Rightarrow> DefaultSession \<Rightarrow> 'fs \<Rightarrow> 'resp result \<times> 'fs"
  ce_AddParameter :: "string \<Rightarrow> string \<Rightarrow> 'resp \<Rightarrow> 'resp"
  ce_GetParameters :: "'resp \<Rightarrow> url_values"
  ce_WriteAuthorizeError :: "consent_request \<Rightarrow> goerr \<Rightarrow> writer \<Rightarrow> writer"
  ce_WriteAuthorizeResponse :: "consent_request \<Rightarrow> 'resp \<Rightarrow> writer \<Rightarrow> writer"
  ce_ErrorToRFC6749Error :: "goerr \<Rightarrow> int \<times> json"

record consent_http =
  hq_Method :: string
  hq_Query :: url_values
  hq_Form :: form_result
  hq_Header :: header
  hq_RemoteAddr :: string

record ('s, 'fs, 'resp) consent_parts =
  cc_issuer :: string
  cc_engine :: "('fs, 'resp) consent_engine"
  cc_Authenticate :: "string \<Rightarrow> string \<Rightarrow> Subject result"
  cc_Render :: "Page \<Rightarrow> PageData \<Rightarrow> wop list"
  cc_Issue :: "clocks \<Rightarrow> string result \<Rightarrow> Subject \<Rightarrow> url_values \<Rightarrow> 's \<Rightarrow> string result \<times> 's"
  cc_Consume :: "clocks \<Rightarrow> string \<Rightarrow> url_values \<Rightarrow> 's \<Rightarrow> Subject result \<times> 's"
  cc_AllowsSkip :: "string option \<Rightarrow> Subject \<Rightarrow> string list \<Rightarrow> bool"
  cc_ValidateScopes :: "Subject \<Rightarrow> string list \<Rightarrow> goerr option"
  cc_Challenge :: "(Subject \<Rightarrow> string \<times> goerr option) option"
  cc_ResourceURL :: "consent_http \<Rightarrow> string result"
  cc_PublicURL :: string
  cc_FormPath :: string
  cc_uuid_Parse :: "string \<Rightarrow> string option"

record ('s, 'fs) consent_state =
  cs_engine :: 'fs
  cs_store :: 's
  cs_events :: "Event list"

text \<open>Random bytes and clock readings one request takes from its environment.\<close>

record consent_env =
  cv_clocks :: clocks
  cv_rand :: "string result"
  cv_now_session :: gotime
  cv_now_audit :: gotime

definition AlwaysAsk_AllowsSkip :: "string option \<Rightarrow> Subject \<Rightarrow> string list \<Rightarrow> bool" where
  "AlwaysAsk_AllowsSkip client subject scopes = False"

definition AlwaysAsk_ValidateScopes :: "Subject \<Rightarrow> string list \<Rightarrow> goerr option" where
  "AlwaysAsk_ValidateScopes subject scopes = None"

definition StaticResourceURL :: "string \<Rightarrow> consent_http \<Rightarrow> string result" where
  "StaticResourceURL u r = Inr u"

definition ErrChallengeRequired :: string where "ErrChallengeRequired = ''consent: additional challenge required''"
definition fosite_ErrAccessDenied :: goerr where "fosite_ErrAccessDenied = Sentinel ''access_denied''"
definition fosite_ErrInvalidRequest :: goerr where "fosite_ErrInvalidRequest = Sentinel ''invalid_request''"
definition fosite_ErrServerError :: goerr where "fosite_ErrServerError = Sentinel ''error''"

text \<open>\<^verbatim>\<open>WithHint\<close> and \<^verbatim>\<open>WithWrap\<close> of the engine's errors keep the error and add a text or a cause.\<close>

definition WithHint :: "goerr \<Rightarrow> string \<Rightarrow> goerr" where "WithHint e hint = Wrap hint e"
definition WithWrap :: "goerr \<Rightarrow> goerr \<Rightarrow> goerr" where "WithWrap e cause = Wrap (err_text cause) e"

section \<open>Writing pages, errors and redirects\<close>

fun apply_op :: "wop \<Rightarrow> writer \<Rightarrow> writer" where
  "apply_op (OpHeader f) w = w_header f w"
| "apply_op (OpWriteHeader st) w = w_WriteHeader st w"
| "apply_op (OpWrite c) w = w_Write c w"

definition render :: "('s, 'fs, 'resp) consent_parts \<Rightarrow> Page \<Rightarrow> PageData \<Rightarrow> writer \<Rightarrow> writer" where
  "render h page data w = fold apply_op (cc_Render h page data) w"

text \<open>What \<^verbatim>\<open>trackingWriter\<close> remembers of the calls made on it.\<close>

fun op_wrote :: "wop \<Rightarrow> bool" where
  "op_wrote (OpHeader f) = False"
| "op_wrote (OpWriteHeader st) = True"
| "op_wrote (OpWrite c) = (c \<noteq> Bytes [])"

definition hex_escape :: "char \<Rightarrow> string" where
  "hex_escape c =
     (let n = of_char c :: nat in if n < 128 then [c] else [CHR ''%'', hex_low (n div 16), hex_low (n mod 16)])"

text \<open>\<^verbatim>\<open>http.Redirect\<close> with status 302 to an absolute URL.\<close>

definition http_Redirect :: "string \<Rightarrow> string \<Rightarrow> writer \<Rightarrow> writer" where
  "http_Redirect meth u w =
     (let hadCT = gm_get (w_hdr w) ''Content-Type'' \<noteq> None;
          w1 = w_header (header_Set ''Location'' (concat (map hex_escape u))) w;
          w2 = (if \<not> hadCT \<and> (meth = ''GET'' \<or> meth = ''HEAD'')
                then w_header (header_Set ''Content-Type'' ''text/html; charset=utf-8'') w1 else w1);
          w3 = w_WriteHeader 302 w2
      in if \<not> hadCT \<and> meth = ''GET''
         then w_Write (Bytes (''<a href='' @ [CHR 0x22] @ concat (map html_escape u) @ [CHR 0x22] @ ''>Found</a>.'' @
                              [CHR 0x0A, CHR 0x0A])) w3
         else w3)"

definition WriteAuthorizeError :: "('fs, 'resp) consent_engine \<Rightarrow> goerr \<Rightarrow> writer \<Rightarrow> writer" where
  "WriteAuthorizeError en err w =
     (case ce_ErrorToRFC6749Error en err of
        (st, body) \<Rightarrow>
          (let status = (if st = 0 then 400 else st)
           in w_Write (JsonDoc body)
                (w_WriteHeader status
                  (w_header (header_Set ''Content-Type'' ''application/json;charset=UTF-8'' \<circ>
                             header_Set ''Pragma'' ''no-cache'' \<circ> header_Set ''Cache-Control'' ''no-store'') w))))"

definition renderLogin :: "('s, 'fs, 'resp) consent_parts \<Rightarrow> url_values \<Rightarrow> string \<Rightarrow> writer \<Rightarrow> writer" where
  "renderLogin h params msg w =
     render h PageLogin
       (zero_PageData\<lparr>pd_ClientName := ''your MCP client'', pd_Resources := ResourcesFromValues params,
                      pd_HiddenInputs := HiddenInputs params, pd_FormAction := cc_FormPath h, pd_Error := msg\<rparr>) w"

definition renderLoginWithChallenge :: "('s, 'fs, 'resp) consent_parts \<Rightarrow> url_values \<Rightarrow> string \<Rightarrow> writer \<Rightarrow> writer" where
  "renderLoginWithChallenge h params challengeID w =
     render h PageLogin
       (zero_PageData\<lparr>pd_HiddenInputs := HiddenInputs (cloneAndSet params ''challenge_id'' challengeID),
                      pd_FormAction := cc_FormPath h, pd_Error := ''additional verification required''\<rparr>) w"

section \<open>Audit events\<close>

definition clientIP :: "consent_http \<Rightarrow> string" where
  "clientIP r = (case net_SplitHostPort (hq_RemoteAddr r) of Inr (host, _) \<Rightarrow> host | Inl _ \<Rightarrow> hq_RemoteAddr r)"

definition ActionConsentApproved :: string where "ActionConsentApproved = ''oauth.consent.approved''"
definition ActionConsentDenied :: string where "ActionConsentDenied = ''oauth.consent.denied''"

definition emitConsentEvent ::
  "('s, 'fs, 'resp) consent_parts \<Rightarrow> consent_env \<Rightarrow> consent_http \<Rightarrow> string \<Rightarrow> consent_request \<Rightarrow> Subject \<Rightarrow> string \<Rightarrow>
   string list \<Rightarrow> ('s, 'fs) consent_state \<Rightarrow> ('s, 'fs) consent_state" where
  "emitConsentEvent h env r action requester subject decision resources s =
     (let clientID = (case er_ClientID requester of Some c \<Rightarrow> c | None \<Rightarrow> []);
          clientName = (case er_ClientID requester of Some c \<Rightarrow> ClientNameFromRequester requester | None \<Rightarrow> [])
      in s\<lparr>cs_events := cs_events s @
           [zero_Event\<lparr>ev_EntityType := ''oauth_authorize'', ev_EntityID := clientID, ev_Action := action,
                       ev_ClientID := clientID, ev_Scope := go_Join (er_RequestedScopes requester) '' '',
                       ev_Timestamp := cv_now_audit env,
                       ev_Metadata := [(''client_name'', JStr clientName), (''decision'', JStr decision),
                         (''ip'', JStr (clientIP r)), (''user_agent'', JStr (header_Get (hq_Header r) ''User-Agent'')),
                         (''resources'', if resources = [] then JNull else JArr (map JStr resources))],
                       ev_ActorUserID := (if sj_ID subject = [] then None else cc_uuid_Parse h (sj_ID subject))\<rparr>]\<rparr>)"

section \<open>The handler\<close>

definition buildAuthorizeRequest ::
  "('s, 'fs, 'resp) consent_parts \<Rightarrow> url_values \<Rightarrow> consent_http \<Rightarrow> 'fs \<Rightarrow> consent_request result \<times> 'fs" where
  "buildAuthorizeRequest h cleanParams r fs =
     (let rawURL = cc_PublicURL h @ cc_FormPath h @ ''?'' @ values_Encode cleanParams
      in (case url_Parse rawURL of
            Inl err \<Rightarrow> (Inl (WithWrap fosite_ErrServerError err), fs)
          | Inr _ \<Rightarrow> ce_NewAuthorizeRequest (cc_engine h) rawURL
                      (header_Del ''Content-Length'' (header_Del ''Content-Type'' (hq_Header r))) fs))"

definition validateResourceIndicators ::
  "('s, 'fs, 'resp) consent_parts \<Rightarrow> consent_http \<Rightarrow> url_values \<Rightarrow> goerr option" where
  "validateResourceIndicators h r params =
     (let resources = normalizeOAuthStringSlice (case gm_get params ''resource'' of Some rs \<Rightarrow> rs | None \<Rightarrow> [])
      in if resources = [] then None
         else (case cc_ResourceURL h r of
                 Inl _ \<Rightarrow> Some (WithHint fosite_ErrInvalidRequest ''invalid mcp host'')
               | Inr expected \<Rightarrow>
                   if length resources \<noteq> 1 \<or> hd resources \<noteq> expected
                   then Some (WithHint fosite_ErrInvalidRequest ''authorization request must target the current MCP resource'')
                   else None))"

definition completeApprove ::
  "('s, 'fs, 'resp) consent_parts \<Rightarrow> consent_env \<Rightarrow> consent_http \<Rightarrow> consent_request \<Rightarrow> url_values \<Rightarrow> Subject \<Rightarrow>
   ('s, 'fs) consent_state \<times> writer \<Rightarrow> ('s, 'fs) consent_state \<times> writer" where
  "completeApprove h env r requester cleanParams subject sw =
     (case sw of (s, w) \<Rightarrow>
        (let en = cc_engine h; requestedScopes = er_RequestedScopes requester
         in (case cc_ValidateScopes h subject requestedScopes of
               Some err \<Rightarrow> (s, ce_WriteAuthorizeError en requester (WithHint fosite_ErrAccessDenied (err_text err)) w)
             | None \<Rightarrow>
                 (let rq1 = fold (ce_GrantScope en) requestedScopes requester
                  in (case cc_ResourceURL h r of
                        Inl _ \<Rightarrow> (s, ce_WriteAuthorizeError en rq1 (WithHint fosite_ErrInvalidRequest ''invalid mcp host'') w)
                      | Inr resource \<Rightarrow>
                          (let rq2 = ce_GrantAudience en resource rq1
                           in (case ce_NewAuthorizeResponse en rq2 (NewSession (cv_now_session env) subject) (cs_engine s) of
                                 (Inl err, fs) \<Rightarrow> (s\<lparr>cs_engine := fs\<rparr>, ce_WriteAuthorizeError en rq2 err w)
                               | (Inr response0, fs) \<Rightarrow>
                                   (let response = (if cc_issuer h = [] then response0
                                                    else ce_AddParameter en ''iss'' (cc_issuer h) response0);
                                        s1 = emitConsentEvent h env r ActionConsentApproved rq2 subject ''approved''
                                               (ResourcesFromValues cleanParams) (s\<lparr>cs_engine := fs\<rparr>);
                                        redirectURL = RedirectURLFromResponder rq2 (ce_GetParameters en response)
                                    in if redirectURL = [] then (s1, ce_WriteAuthorizeResponse en rq2 response w)
                                       else
                                         (let data = zero_PageData\<lparr>pd_Authenticated := True,
                                                 pd_ClientName := ClientNameFromRequester rq2, pd_RedirectURL := redirectURL\<rparr>;
                                              ops = cc_Render h PageRedirectBridge data;
                                              w1 = render h PageRedirectBridge data w
                                          in if list_ex op_wrote ops then (s1, w1)
                                             else (s1, http_Redirect (hq_Method r) redirectURL w1))))))))))"

definition CompleteApprove ::
  "('s, 'fs, 'resp) consent_parts \<Rightarrow> consent_env \<Rightarrow> consent_http \<Rightarrow> consent_request \<Rightarrow> url_values \<Rightarrow> Subject \<Rightarrow>
   ('s, 'fs) consent_state \<times> writer \<Rightarrow> ('s, 'fs) consent_state \<times> writer" where
  "CompleteApprove h env r requester cleanParams subject sw = completeApprove h env r requester cleanParams subject sw"

definition handleLogin ::
  "('s, 'fs, 'resp) consent_parts \<Rightarrow> consent_env \<Rightarrow> consent_http \<Rightarrow> url_values \<Rightarrow> consent_request \<Rightarrow> url_values \<Rightarrow>
   ('s, 'fs) consent_state \<times> writer \<Rightarrow> ('s, 'fs) consent_state \<times> writer" where
  "handleLogin h env r form requester cleanParams sw =
     (case sw of (s, w) \<Rightarrow>
        (let en = cc_engine h; username = values_Get form ''username''; password = values_Get form ''password'';
             requestedScopes = er_RequestedScopes requester
         in if username = [] \<or> password = [] then (s, renderLogin h cleanParams ''username and password are required'' w)
            else (case cc_Authenticate h username password of
                    Inl _ \<Rightarrow> (s, renderLogin h cleanParams ''invalid email or password'' w)
                  | Inr subject \<Rightarrow>
                      (case cc_ValidateScopes h subject requestedScopes of
                         Some err \<Rightarrow> (s, ce_WriteAuthorizeError en requester (WithHint fosite_ErrAccessDenied (err_text err)) w)
                       | None \<Rightarrow>
                           if cc_AllowsSkip h (er_ClientID requester) subject requestedScopes
                           then completeApprove h env r requester cleanParams subject (s, w)
                           else
                             (case (case cc_Challenge h of
                                      None \<Rightarrow> None
                                    | Some begin_challenge \<Rightarrow>
                                        (case begin_challenge subject of
                                           (challengeID, None) \<Rightarrow> None
                                         | (challengeID, Some err) \<Rightarrow>
                                             if errors_is err ErrChallengeRequired
                                             then Some (renderLoginWithChallenge h cleanParams challengeID w)
                                             else Some (WriteAuthorizeError en (WithWrap fosite_ErrServerError err) w))) of
                                Some w' \<Rightarrow> (s, w')
                              | None \<Rightarrow>
                                  (case cc_Issue h (cv_clocks env) (cv_rand env) subject cleanParams (cs_store s) of
                                     (Inl err, st) \<Rightarrow>
                                       (s\<lparr>cs_store := st\<rparr>, WriteAuthorizeError en (WithWrap fosite_ErrServerError err) w)
                                   | (Inr token, st) \<Rightarrow>
                                       (let withToken = cloneAndSet cleanParams ''approval_token'' token
                                        in (s\<lparr>cs_store := st\<rparr>,
                                            render h PageConsent
                                              (zero_PageData\<lparr>pd_Authenticated := True, pd_DisplayName := sj_Email subject,
                                                pd_ClientName := ClientNameFromRequester requester,
                                                pd_Scopes := requestedScopes, pd_Resources := ResourcesFromValues withToken,
                                                pd_HiddenInputs := HiddenInputs withToken,
                                                pd_FormAction := cc_FormPath h\<rparr>) w))))))))"

definition handleApprove ::
  "('s, 'fs, 'resp) consent_parts \<Rightarrow> consent_env \<Rightarrow> consent_http \<Rightarrow> url_values \<Rightarrow> consent_request \<Rightarrow> url_values \<Rightarrow>
   ('s, 'fs) consent_state \<times> writer \<Rightarrow> ('s, 'fs) consent_state \<times> writer" where
  "handleApprove h env r form requester cleanParams sw =
     (case sw of (s, w) \<Rightarrow>
        (case cc_Consume h (cv_clocks env) (values_Get form ''approval_token'') cleanParams (cs_store s) of
           (Inl _, st) \<Rightarrow> (s\<lparr>cs_store := st\<rparr>, renderLogin h cleanParams ''approval expired; sign in again'' w)
         | (Inr subject, st) \<Rightarrow> completeApprove h env r requester cleanParams subject (s\<lparr>cs_store := st\<rparr>, w)))"

definition handlePost ::
  "('s, 'fs, 'resp) consent_parts \<Rightarrow> consent_env \<Rightarrow> consent_http \<Rightarrow>
   ('s, 'fs) consent_state \<times> writer \<Rightarrow> ('s, 'fs) consent_state \<times> writer" where
  "handlePost h env r sw =
     (case sw of (s, w) \<Rightarrow>
        (case hq_Form r of
           FormTooLarge \<Rightarrow> (s, http_Error ''invalid form body'' 400 w)
         | FormBad \<Rightarrow> (s, http_Error ''invalid form body'' 400 w)
         | FormOK form \<Rightarrow>
             (let cleanParams = oauthAuthorizeValues form; en = cc_engine h
              in (case buildAuthorizeRequest h cleanParams r (cs_engine s) of
                    (Inl err, fs) \<Rightarrow> (s\<lparr>cs_engine := fs\<rparr>, WriteAuthorizeError en err w)
                  | (Inr requester, fs) \<Rightarrow>
                      (let s1 = s\<lparr>cs_engine := fs\<rparr>; action = values_Get form ''action''
                       in (case validateResourceIndicators h r cleanParams of
                             Some err \<Rightarrow> (s1, WriteAuthorizeError en err w)
                           | None \<Rightarrow>
                               if action = ''login'' then handleLogin h env r form requester cleanParams (s1, w)
                               else if action = ''approve'' then handleApprove h env r form requester cleanParams (s1, w)
                               else if action = ''deny'' then
                                 (let st = snd (cc_Consume h (cv_clocks env) (values_Get form ''approval_token'')
                                                  cleanParams (cs_store s1))
                                  in (emitConsentEvent h env r ActionConsentDenied requester zero_Subject ''denied''
                                        (ResourcesFromValues cleanParams) (s1\<lparr>cs_store := st\<rparr>),
                                      ce_WriteAuthorizeError en requester fosite_ErrAccessDenied w))
                               else (s1, renderLogin h cleanParams ''unknown authorization action'' w)))))))"

definition consent_ServeHTTP ::
  "('s, 'fs, 'resp) consent_parts \<Rightarrow> consent_env \<Rightarrow> consent_http \<Rightarrow>
   ('s, 'fs) consent_state \<times> writer \<Rightarrow> ('s, 'fs) consent_state \<times> writer" where
  "consent_ServeHTTP h env r sw =
     (case sw of (s, w) \<Rightarrow>
        if hq_Method r = ''GET'' then (s, renderLogin h (hq_Query r) [] w)
        else if hq_Method r = ''POST'' then handlePost h env r (s, w)
        else (s, http_Error ''method not allowed'' 405 w))"

section \<open>Configuration\<close>

definition approvalSecretLength :: nat where "approvalSecretLength = 32"

record consent_Config =
  cg_HasProvider :: bool
  cg_HasAuthenticator :: bool
  cg_HasRenderer :: bool
  cg_HasApprovalStore :: bool
  cg_ApprovalSecret :: string
  cg_ConsentPolicy :: "((string option \<Rightarrow> Subject \<Rightarrow> string list \<Rightarrow> bool) \<times> (Subject \<Rightarrow> string list \<Rightarrow> goerr option)) option"
  cg_ResourceURL :: "(consent_http \<Rightarrow> string result) option"
  cg_PublicURL :: string
  cg_FormPath :: string
  cg_AuditEmitter :: "emitter option"
  cg_FormBodyLimit :: int

definition AlwaysAsk :: "(string option \<Rightarrow> Subject \<Rightarrow> string list \<Rightarrow> bool) \<times> (Subject \<Rightarrow> string list \<Rightarrow> goerr option)" where
  "AlwaysAsk = (AlwaysAsk_AllowsSkip, AlwaysAsk_ValidateScopes)"

definition consent_applyDefaults :: "consent_Config \<Rightarrow> consent_Config result" where
  "consent_applyDefaults c =
     (if \<not> cg_HasProvider c then Inl (Plain ''consent: Provider is required'')
      else if \<not> cg_HasAuthenticator c then Inl (Plain ''consent: Authenticator is required'')
      else if \<not> cg_HasRenderer c then Inl (Plain ''consent: Renderer is required'')
      else if cg_PublicURL c = [] then Inl (Plain ''consent: PublicURL is required'')
      else Inr (c\<lparr>cg_FormPath := (if cg_FormPath c = [] then ''/oauth/authorize'' else cg_FormPath c),
                  cg_ResourceURL := (case cg_ResourceURL c of
                                       None \<Rightarrow> Some (StaticResourceURL (cg_PublicURL c @ ''/mcp'')) | f \<Rightarrow> f),
                  cg_ConsentPolicy := (case cg_ConsentPolicy c of None \<Rightarrow> Some AlwaysAsk | p \<Rightarrow> p),
                  cg_AuditEmitter := (case cg_AuditEmitter c of None \<Rightarrow> Some Discard | e \<Rightarrow> e),
                  cg_FormBodyLimit := (if cg_FormBodyLimit c = 0 then 65536 else cg_FormBodyLimit c)\<rparr>))"

definition ValidateApprovalSecret :: "string \<Rightarrow> goerr option" where
  "ValidateApprovalSecret secret =
     (if length secret \<noteq> approvalSecretLength
      then Some (Plain (''consent: ApprovalSecret must be exactly '' @ FormatInt (int approvalSecretLength) @
                        '' bytes, got '' @ FormatInt (int (length secret))))
      else None)"

text \<open>The configuration in effect and the signed store set up when none was supplied.\<close>

definition NewHandler :: "string result \<Rightarrow> consent_Config \<Rightarrow> (consent_Config \<times> defaultApprovalStore option) result" where
  "NewHandler rand cfg =
     (case consent_applyDefaults cfg of
        Inl err \<Rightarrow> Inl err
      | Inr c \<Rightarrow>
          if cg_HasApprovalStore c then Inr (c, None)
          else if cg_ApprovalSecret c = [] then
            (case rand of
               Inl err \<Rightarrow> Inl err
             | Inr secret \<Rightarrow> Inr (c\<lparr>cg_ApprovalSecret := secret, cg_HasApprovalStore := True\<rparr>, Some (newDefaultApprovalStore secret)))
          else (case ValidateApprovalSecret (cg_ApprovalSecret c) of
                  Some err \<Rightarrow> Inl err
                | None \<Rightarrow> Inr (c\<lparr>cg_HasApprovalStore := True\<rparr>, Some (newDefaultApprovalStore (cg_ApprovalSecret c)))))"

section \<open>Who gets a code\<close>

text \<open>
  The authorization responses the handler may ask for: for a subject who has just signed in and for
  whom the policy skips the question, or for the subject of an approval token accepted for these
  parameters; in both cases with scopes the policy grants that subject and the server's resource as
  audience.
\<close>

definition code_consented ::
  "('s, 'fs, 'resp) consent_parts \<Rightarrow> consent_env \<Rightarrow> consent_http \<Rightarrow> 's \<Rightarrow> consent_request \<Rightarrow> DefaultSession \<Rightarrow> bool" where
  "code_consented h env r st rq sess =
     (\<exists>form subject rq0 resource.
        hq_Method r = ''POST'' \<and> hq_Form r = FormOK form \<and> sess = NewSession (cv_now_session env) subject \<and>
        cc_ValidateScopes h subject (er_RequestedScopes rq0) = None \<and> cc_ResourceURL h r = Inr resource \<and>
        rq = ce_GrantAudience (cc_engine h) resource (fold (ce_GrantScope (cc_engine h)) (er_RequestedScopes rq0) rq0) \<and>
        (values_Get form ''action'' = ''login'' \<and>
           cc_Authenticate h (values_Get form ''username'') (values_Get form ''password'') = Inr subject \<and>
           cc_AllowsSkip h (er_ClientID rq0) subject (er_RequestedScopes rq0)
         \<or> values_Get form ''action'' = ''approve'' \<and>
           (\<exists>st'. cc_Consume h (cv_clocks env) (values_Get form ''approval_token'') (oauthAuthorizeValues form) st = (Inr subject, st'))))"

definition with_respond ::
  "(consent_request \<Rightarrow> DefaultSession \<Rightarrow> 'fs \<Rightarrow> 'resp result \<times> 'fs) \<Rightarrow> ('s, 'fs, 'resp) consent_parts \<Rightarrow>
   ('s, 'fs, 'resp) consent_parts" where
  "with_respond respond h = h\<lparr>cc_engine := (cc_engine h)\<lparr>ce_NewAuthorizeResponse := respond\<rparr>\<rparr>"

lemma with_respond_sel [simp]:
  "cc_issuer (with_respond f h) = cc_issuer h" "cc_Authenticate (with_respond f h) = cc_Authenticate h"
  "cc_Render (with_respond f h) = cc_Render h" "cc_Issue (with_respond f h) = cc_Issue h"
  "cc_Consume (with_respond f h) = cc_Consume h" "cc_AllowsSkip (with_respond f h) = cc_AllowsSkip h"
  "cc_ValidateScopes (with_respond f h) = cc_ValidateScopes h" "cc_Challenge (with_respond f h) = cc_Challenge h"
  "cc_ResourceURL (with_respond f h) = cc_ResourceURL h" "cc_PublicURL (with_respond f h) = cc_PublicURL h"
  "cc_FormPath (with_respond f h) = cc_FormPath h" "cc_uuid_Parse (with_respond f h) = cc_uuid_Parse h"
  "cc_engine (with_respond f h) = (cc_engine h)\<lparr>ce_NewAuthorizeResponse := f\<rparr>"
  by (simp_all add: with_respond_def)

lemma with_respond_ops [simp]:
  "render (with_respond f h) = render h" "renderLogin (with_respond f h) = renderLogin h"
  "renderLoginWithChallenge (with_respond f h) = renderLoginWithChallenge h"
  "emitConsentEvent (with_respond f h) = emitConsentEvent h"
  "buildAuthorizeRequest (with_respond f h) = buildAuthorizeRequest h"
  "validateResourceIndicators (with_respond f h) = validateResourceIndicators h"
  "WriteAuthorizeError (en\<lparr>ce_NewAuthorizeResponse := f\<rparr>) = WriteAuthorizeError en"
  by (intro ext, simp add: render_def renderLogin_def renderLoginWithChallenge_def emitConsentEvent_def
      buildAuthorizeRequest_def validateResourceIndicators_def WriteAuthorizeError_def Let_def cong: sum.case_cong)+

lemma completeApprove_respond:
  assumes "\<And>resource fs. cc_ValidateScopes h subject (er_RequestedScopes rq) = None \<Longrightarrow> cc_ResourceURL h r = Inr resource \<Longrightarrow>
      ce_NewAuthorizeResponse (cc_engine h)
        (ce_GrantAudience (cc_engine h) resource (fold (ce_GrantScope (cc_engine h)) (er_RequestedScopes rq) rq))
        (NewSession (cv_now_session env) subject) fs =
      respond (ce_GrantAudience (cc_engine h) resource (fold (ce_GrantScope (cc_engine h)) (er_RequestedScopes rq) rq))
        (NewSession (cv_now_session env) subject) fs"
  shows "completeApprove (with_respond respond h) env r rq ps subject sw = completeApprove h env r rq ps subject sw"
  using assms by (auto simp: completeApprove_def Let_def split: prod.splits option.splits sum.splits)


section \<open>Submitting the rendered form\<close>

text \<open>The form a browser posts: the hidden inputs of the page and the button pressed.\<close>

definition submit_form :: "HiddenInput list \<Rightarrow> string \<Rightarrow> url_values" where
  "submit_form inputs action =
     values_Add ''action'' action (fold (\<lambda>hi. values_Add (hi_Name hi) (hi_Value hi)) inputs [])"

definition nonempty_values :: "url_values \<Rightarrow> bool" where
  "nonempty_values vs = (\<forall>(k, xs) \<in> set vs. xs \<noteq> [])"

lemma update_new: "k \<notin> fst ` set m \<Longrightarrow> AList.update k v m = m @ [(k, v)]"
  by (induction m) auto

lemma update_last: "k \<notin> fst ` set m \<Longrightarrow> AList.update k v (m @ [(k, u)]) = m @ [(k, v)]"
  by (induction m) auto

lemma add_all_last:
  assumes "key \<notin> fst ` set m"
  shows "fold (values_Add key) vals (m @ [(key, xs)]) = m @ [(key, xs @ vals)]"
proof (induction vals arbitrary: xs)
  case (Cons v vals)
  have "map_of m key = None" using assms by (simp add: map_of_eq_None_iff)
  then have "gm_get (m @ [(key, xs)]) key = Some xs" by (simp add: gm_get_def map_add_def)
  with assms Cons show ?case by (simp add: values_Add_def gm_put_def update_last)
qed simp

lemma add_all_new:
  assumes "key \<notin> fst ` set m" "vals \<noteq> []"
  shows "fold (values_Add key) vals m = m @ [(key, vals)]"
proof (cases vals)
  case (Cons v vs)
  have "values_Add key v m = m @ [(key, [v])]"
    using assms(1) by (simp add: values_Add_def gm_put_def update_new gm_get_None [THEN iffD2])
  with Cons add_all_last [OF assms(1), of vs "[v]"] show ?thesis by simp
qed (use assms in simp)

lemma posted_inputs:
  assumes "distinct (map fst (m @ vs))" "nonempty_values vs"
  shows "fold (\<lambda>hi. values_Add (hi_Name hi) (hi_Value hi)) (HiddenInputs vs) m = m @ vs"
  using assms
proof (induction vs arbitrary: m)
  case (Cons kv vs)
  obtain key vals where kv: "kv = (key, vals)" by fastforce
  have "fold (\<lambda>hi. values_Add (hi_Name hi) (hi_Value hi)) (map (\<lambda>v. \<lparr>hi_Name = key, hi_Value = v\<rparr>) vals) m =
      fold (values_Add key) vals m" by (simp add: fold_map comp_def)
  also have "\<dots> = m @ [(key, vals)]" by (rule add_all_new) (use Cons.prems kv in \<open>auto simp: nonempty_values_def\<close>)
  finally show ?case
    using Cons.IH [of "m @ [(key, vals)]"] Cons.prems by (simp add: kv HiddenInputs_def nonempty_values_def)
qed (simp add: HiddenInputs_def)

lemma subset_insert_disjoint: "A \<subseteq> insert x B \<Longrightarrow> x \<notin> S \<Longrightarrow> B \<inter> S = {} \<Longrightarrow> A \<inter> S = {}"
  by blast

lemma clean_keys: "k \<in> fst ` set (oauthAuthorizeValues vs) \<Longrightarrow> k \<notin> set form_only_keys"
proof -
  let ?f = "\<lambda>(key, vals) clean. if key \<in> set form_only_keys then clean else fold (values_Add key) vals clean"
  have add: "fst ` set (fold (values_Add key) vals m) \<subseteq> insert key (fst ` set m)" for key :: string and vals and m :: url_values
  proof (induction vals arbitrary: m)
    case (Cons v vals)
    have "fst ` set (values_Add key v m) \<subseteq> insert key (fst ` set m)" by (auto simp: values_Add_def gm_put_def dom_update)
    with Cons [of "values_Add key v m"] show ?case by auto
  qed auto
  have "fst ` set (fold ?f vs m) \<inter> set form_only_keys = {}" if "fst ` set m \<inter> set form_only_keys = {}" for m
    using that
  proof (induction vs arbitrary: m)
    case (Cons kv vs)
    have "fst ` set (?f kv m) \<inter> set form_only_keys = {}"
    proof (cases "fst kv \<in> set form_only_keys")
      case False
      then have eq: "?f kv m = fold (values_Add (fst kv)) (snd kv) m" by (cases kv) simp
      show ?thesis unfolding eq by (rule subset_insert_disjoint [OF add False Cons.prems])
    qed (use Cons.prems in \<open>cases kv, simp\<close>)
    with Cons.IH show ?case by simp
  qed simp
  from this [of "[]"] show "k \<in> fst ` set (oauthAuthorizeValues vs) \<Longrightarrow> k \<notin> set form_only_keys"
    by (auto simp: oauthAuthorizeValues_def)
qed

lemma clean_nonempty: "nonempty_values (oauthAuthorizeValues vs)"
proof -
  let ?f = "\<lambda>(key, vals) clean. if key \<in> set form_only_keys then clean else fold (values_Add key) vals clean"
  have upd: "nonempty_values (AList.update k xs m)" if "nonempty_values m" "xs \<noteq> []" for k :: string and xs :: "string list" and m
    using that by (induction m) (auto simp: nonempty_values_def)
  have add: "nonempty_values (fold (values_Add key) vals m)" if "nonempty_values m" for key vals m
    using that by (induction vals arbitrary: m) (auto simp: values_Add_def gm_put_def upd)
  have "nonempty_values (fold ?f vs m)" if "nonempty_values m" for m
    using that by (induction vs arbitrary: m) (auto simp: add)
  moreover have "nonempty_values []" by (simp add: nonempty_values_def)
  ultimately show ?thesis unfolding oauthAuthorizeValues_def by blast
qed

lemma clean_clean:
  assumes "gm_wf vs" "nonempty_values vs" "\<And>k. k \<in> fst ` set vs \<Longrightarrow> k \<notin> set form_only_keys"
    and r: "\<forall>kv \<in> set rest. fst kv \<in> set form_only_keys"
  shows "oauthAuthorizeValues (vs @ rest) = oauthAuthorizeValues vs \<and> oauthAuthorizeValues vs = vs"
proof -
  let ?f = "\<lambda>(key, vals) clean. if key \<in> set form_only_keys then clean else fold (values_Add key) vals clean"
  have "fold ?f vs m = m @ vs" if "distinct (map fst (m @ vs))" "nonempty_values vs" "\<And>k. k \<in> fst ` set vs \<Longrightarrow> k \<notin> set form_only_keys" for m
    using that
  proof (induction vs arbitrary: m)
    case (Cons kv vs)
    obtain key vals where kv: "kv = (key, vals)" by fastforce
    have "?f kv m = m @ [(key, vals)]"
      using Cons.prems add_all_new [of key m vals] by (auto simp: kv nonempty_values_def)
    with Cons.IH [of "m @ [(key, vals)]"] Cons.prems show ?case by (simp add: kv nonempty_values_def)
  qed simp
  from this [of "[]"] assms have "oauthAuthorizeValues vs = vs" by (simp add: oauthAuthorizeValues_def gm_wf_def)
  moreover have "fold ?f rest m = m" for m using r by (induction rest arbitrary: m) auto
  ultimately show ?thesis by (simp add: oauthAuthorizeValues_def)
qed

lemma submitted_consent_form:
  fixes form :: url_values and token :: string
  defines "clean \<equiv> oauthAuthorizeValues form"
  defines "posted \<equiv> submit_form (HiddenInputs (cloneAndSet clean ''approval_token'' token)) ''approve''"
  shows "oauthAuthorizeValues posted = clean" "values_Get posted ''approval_token'' = token" "values_Get posted ''action'' = ''approve''"
proof -
  have wf: "gm_wf clean" "nonempty_values clean" and k: "\<And>k. k \<in> fst ` set clean \<Longrightarrow> k \<notin> set form_only_keys"
    using clean_keys clean_nonempty by (auto simp: clean_def)
  have "''approval_token'' \<notin> fst ` set clean" "''action'' \<notin> fst ` set clean" using k by (auto simp: form_only_keys_def)
  then have vs: "cloneAndSet clean ''approval_token'' token = clean @ [(''approval_token'', [token])]"
    by (simp add: cloneAndSet_def values_Set_def gm_put_def update_new)
  have "fold (\<lambda>hi. values_Add (hi_Name hi) (hi_Value hi)) (HiddenInputs (clean @ [(''approval_token'', [token])])) [] =
      clean @ [(''approval_token'', [token])]"
    using posted_inputs [of "[]" "clean @ [(''approval_token'', [token])]"] wf \<open>''approval_token'' \<notin> fst ` set clean\<close>
    by (simp add: gm_wf_def nonempty_values_def)
  moreover have "''action'' \<notin> fst ` set (clean @ [(''approval_token'', [token])])" using \<open>''action'' \<notin> fst ` set clean\<close> by simp
  ultimately have p: "posted = clean @ [(''approval_token'', [token]), (''action'', [''approve''])]"
    using add_all_new [of "''action''" "clean @ [(''approval_token'', [token])]" "[''approve'']"]
    by (simp add: posted_def submit_form_def vs)
  show "oauthAuthorizeValues posted = clean"
    using clean_clean [OF wf k, of "[(''approval_token'', [token]), (''action'', [''approve''])]"] by (simp add: p form_only_keys_def)
  have n: "gm_get clean ''approval_token'' = None" "gm_get clean ''action'' = None"
    using \<open>''approval_token'' \<notin> fst ` set clean\<close> \<open>''action'' \<notin> fst ` set clean\<close> by (simp_all add: gm_get_None)
  show "values_Get posted ''approval_token'' = token" "values_Get posted ''action'' = ''approve''"
    using n by (simp_all add: p values_Get_def gm_get_def map_add_def)
qed

section \<open>Consent over any approval store\<close>

text \<open>A posted form that the engine and the resource check accept.\<close>

definition accepted_post ::
  "('s, 'fs, 'resp) consent_parts \<Rightarrow> consent_http \<Rightarrow> url_values \<Rightarrow> consent_request \<Rightarrow> 'fs \<Rightarrow> 'fs \<Rightarrow> bool" where
  "accepted_post h r form rq fs fs' =
     (hq_Method r = ''POST'' \<and> hq_Form r = FormOK form \<and>
      buildAuthorizeRequest h (oauthAuthorizeValues form) r fs = (Inr rq, fs') \<and>
      validateResourceIndicators h r (oauthAuthorizeValues form) = None)"

definition consent_page :: "('s, 'fs, 'resp) consent_parts \<Rightarrow> consent_request \<Rightarrow> Subject \<Rightarrow> url_values \<Rightarrow> string \<Rightarrow> PageData" where
  "consent_page h rq subject clean token =
     zero_PageData\<lparr>pd_Authenticated := True, pd_DisplayName := sj_Email subject, pd_ClientName := ClientNameFromRequester rq,
       pd_Scopes := er_RequestedScopes rq, pd_Resources := ResourcesFromValues (cloneAndSet clean ''approval_token'' token),
       pd_HiddenInputs := HiddenInputs (cloneAndSet clean ''approval_token'' token), pd_FormAction := cc_FormPath h\<rparr>"

text \<open>A sign-in that succeeds and whose scopes the policy grants, without skipping the question.\<close>

definition signs_in :: "('s, 'fs, 'resp) consent_parts \<Rightarrow> url_values \<Rightarrow> consent_request \<Rightarrow> Subject \<Rightarrow> bool" where
  "signs_in h form rq subject =
     (values_Get form ''action'' = ''login'' \<and> values_Get form ''username'' \<noteq> [] \<and> values_Get form ''password'' \<noteq> [] \<and>
      cc_Authenticate h (values_Get form ''username'') (values_Get form ''password'') = Inr subject \<and>
      cc_ValidateScopes h subject (er_RequestedScopes rq) = None \<and>
      \<not> cc_AllowsSkip h (er_ClientID rq) subject (er_RequestedScopes rq))"

lemma sign_in_page:
  assumes "accepted_post h r form rq (cs_engine s) fs" "signs_in h form rq subject" "cc_Challenge h = None"
    and "cc_Issue h (cv_clocks env) (cv_rand env) subject (oauthAuthorizeValues form) (cs_store s) = (Inr token, st)"
  shows "consent_ServeHTTP h env r (s, w) =
    (s\<lparr>cs_engine := fs, cs_store := st\<rparr>, render h PageConsent (consent_page h rq subject (oauthAuthorizeValues form) token) w)"
  using assms
  by (simp add: consent_ServeHTTP_def handlePost_def handleLogin_def accepted_post_def signs_in_def consent_page_def Let_def)

lemma approve_post:
  assumes "accepted_post h r form rq (cs_engine s) fs" "values_Get form ''action'' = ''approve''"
  shows "consent_ServeHTTP h env r (s, w) =
    handleApprove h env r form rq (oauthAuthorizeValues form) (s\<lparr>cs_engine := fs\<rparr>, w)"
  using assms by (simp add: consent_ServeHTTP_def handlePost_def accepted_post_def Let_def)

lemma deny_post_store:
  assumes "accepted_post h r form rq (cs_engine s) fs" "values_Get form ''action'' = ''deny''"
  shows "cs_store (fst (consent_ServeHTTP h env r (s, w))) =
     snd (cc_Consume h (cv_clocks env) (values_Get form ''approval_token'') (oauthAuthorizeValues form) (cs_store s))"
  using assms by (simp add: consent_ServeHTTP_def handlePost_def accepted_post_def emitConsentEvent_def Let_def)

locale consent_flow = approval_tokens issue consume digest pending ok admits
  for issue :: "clocks \<Rightarrow> string result \<Rightarrow> Subject \<Rightarrow> url_values \<Rightarrow> 's \<Rightarrow> string result \<times> 's"
    and consume :: "clocks \<Rightarrow> string \<Rightarrow> url_values \<Rightarrow> 's \<Rightarrow> Subject result \<times> 's"
    and digest :: "url_values \<Rightarrow> string"
    and pending :: "'s \<Rightarrow> string \<Rightarrow> grant option"
    and ok :: "'s \<Rightarrow> bool"
    and admits :: "clocks \<Rightarrow> string result \<Rightarrow> Subject \<Rightarrow> url_values \<Rightarrow> bool" +
  fixes h :: "('s, 'fs, 'resp) consent_parts"
  assumes issue_part: "cc_Issue h = issue" and consume_part: "cc_Consume h = consume"
begin

lemma approval_completes:
  assumes "ok (cs_store s)" "cc_Challenge h = None"
    and "accepted_post h r form rq (cs_engine s) fs" "signs_in h form rq subject"
    and "issue (cv_clocks env) (cv_rand env) subject (oauthAuthorizeValues form) (cs_store s) = (Inr token, st)"
    and "admits (cv_clocks env) (cv_rand env) subject (oauthAuthorizeValues form)"
    and "form' = submit_form (pd_HiddenInputs (consent_page h rq subject (oauthAuthorizeValues form) token)) ''approve''"
    and "accepted_post h r' form' rq' fs fs'"
    and "fst (cv_clocks env') \<le> fst (cv_clocks env) + approvalTokenTTL - time_Second"
    and "snd (cv_clocks env') \<le> fst (cv_clocks env) + approvalTokenTTL - time_Second"
  shows "\<exists>subject' st'. sj_ID subject' = sj_ID subject \<and>
     consent_ServeHTTP h env r (s, w) = (s\<lparr>cs_engine := fs, cs_store := st\<rparr>,
       render h PageConsent (consent_page h rq subject (oauthAuthorizeValues form) token) w) \<and>
     consent_ServeHTTP h env' r' (s\<lparr>cs_engine := fs, cs_store := st\<rparr>, w') =
       completeApprove h env' r' rq' (oauthAuthorizeValues form) subject' (s\<lparr>cs_engine := fs', cs_store := st'\<rparr>, w')"
proof -
  have f: "form' = submit_form (HiddenInputs (cloneAndSet (oauthAuthorizeValues form) ''approval_token'' token)) ''approve''"
    by (simp add: assms(7) consent_page_def)
  note sub = submitted_consent_form [of form token, folded f]
  obtain subject' st' where c: "consume (cv_clocks env') token (oauthAuthorizeValues form) st = (Inr subject', st')"
      "sj_ID subject' = sj_ID subject"
    using issue_then_consume [OF assms(1,5,6,9,10) refl] by blast
  have "consent_ServeHTTP h env' r' (s\<lparr>cs_engine := fs, cs_store := st\<rparr>, w') =
      completeApprove h env' r' rq' (oauthAuthorizeValues form) subject' (s\<lparr>cs_engine := fs', cs_store := st'\<rparr>, w')"
    using approve_post [of h r' form' rq' "s\<lparr>cs_engine := fs, cs_store := st\<rparr>" fs' env' w'] assms(8) sub c
    by (simp add: handleApprove_def consume_part)
  with c(2) sign_in_page [OF assms(3,4,2) assms(5) [folded issue_part], of w] show ?thesis by blast
qed

lemma denied_stays_denied:
  assumes "ok (cs_store s)" "pending (cs_store s) token = Some (i, digest (oauthAuthorizeValues form), e)"
    and "fst (cv_clocks env) < e" "snd (cv_clocks env) < e"
    and "accepted_post h r form rq (cs_engine s) fs" "values_Get form ''action'' = ''deny''"
    and "values_Get form ''approval_token'' = token"
    and "s1 = fst (consent_ServeHTTP h env r (s, w))"
    and "accepted_post h r' form' rq' (cs_engine s1) fs'" "values_Get form' ''action'' = ''approve''"
    and "values_Get form' ''approval_token'' = token"
  shows "snd (consent_ServeHTTP h env' r' (s1, w')) =
    renderLogin h (oauthAuthorizeValues form') ''approval expired; sign in again'' w'"
proof -
  obtain subj st where c: "consume (cv_clocks env) token (oauthAuthorizeValues form) (cs_store s) = (Inr subj, st)"
    using consume_live [OF assms(1,2,3,4)] by blast
  have s1: "cs_store s1 = st" using deny_post_store [OF assms(5,6), of env w] c by (simp add: assms(7,8) consume_part)
  have "pending st token = None" "ok st" using consume_granted [OF assms(1) c] consume_ok [OF assms(1) c] by simp_all
  then have "\<exists>err st'. consume (cv_clocks env') token (oauthAuthorizeValues form') st = (Inl err, st')"
    using consume_granted [of st "cv_clocks env'" token "oauthAuthorizeValues form'"]
    by (cases "consume (cv_clocks env') token (oauthAuthorizeValues form') st"; cases "fst (consume (cv_clocks env') token (oauthAuthorizeValues form') st)") auto
  with approve_post [OF assms(9,10), of env' w'] s1 assms(11) show ?thesis
    by (auto simp: handleApprove_def consume_part)
qed

end

definition with_signed_store ::
  "(string \<Rightarrow> string) \<Rightarrow> (string \<Rightarrow> string \<Rightarrow> string) \<Rightarrow> (defaultApprovalStore, 'fs, 'resp) consent_parts \<Rightarrow>
   (defaultApprovalStore, 'fs, 'resp) consent_parts" where
  "with_signed_store sha hmac h = h\<lparr>cc_Issue := approval_Issue sha hmac, cc_Consume := approval_Consume sha hmac\<rparr>"

definition with_session_store ::
  "(string \<Rightarrow> string) \<Rightarrow> (MemoryBackend, 'fs, 'resp) consent_parts \<Rightarrow> (MemoryBackend, 'fs, 'resp) consent_parts" where
  "with_session_store sha h =
     h\<lparr>cc_Issue := session_Issue memory_backend sha, cc_Consume := session_Consume memory_backend sha\<rparr>"

interpretation signed_consent: consent_flow "approval_Issue sha hmac" "approval_Consume sha hmac" "ParamsDigest sha"
  approval_pending "approval_ok hmac" approval_admits "with_signed_store sha hmac h" for sha hmac h
  by unfold_locales (simp_all add: with_signed_store_def)

interpretation session_consent: consent_flow "session_Issue memory_backend sha" "session_Consume memory_backend sha"
  "ParamsDigest sha" "session_pending sha" "\<lambda>_. True" "session_admits sha" "with_session_store sha h" for sha h
  by unfold_locales (simp_all add: with_session_store_def)

section \<open>A sample deployment\<close>

definition sample_crequest :: consent_request where
  "sample_crequest =
     \<lparr>er_ClientID = Some ''c1'', er_RequestedScopes = [''read''], er_GrantedScopes = [], er_RequestedAudience = [],
      er_GrantedAudience = [], cq_ClientName = Some ''App'',
      cq_RedirectURI = Some (empty_url\<lparr>u_Scheme := ''https'', u_Host := ''app'', u_Path := ''/cb''\<rparr>)\<rparr>"

definition sample_cengine :: "(nat, url_values) consent_engine" where
  "sample_cengine =
     \<lparr>ce_NewAuthorizeRequest = (\<lambda>u hd fs. (Inr sample_crequest, fs)),
      ce_GrantScope = (\<lambda>sc rq. rq\<lparr>er_GrantedScopes := er_GrantedScopes rq @ [sc]\<rparr>),
      ce_GrantAudience = (\<lambda>a rq. rq\<lparr>er_GrantedAudience := er_GrantedAudience rq @ [a]\<rparr>),
      ce_NewAuthorizeResponse = (\<lambda>rq sess fs. (Inr [(''code'', [''abc''])], fs + 1)),
      ce_AddParameter = values_Add, ce_GetParameters = id,
      ce_WriteAuthorizeError = (\<lambda>rq err. http_Error (err_text err) 400),
      ce_WriteAuthorizeResponse = (\<lambda>rq r. w_WriteHeader 303),
      ce_ErrorToRFC6749Error = (\<lambda>err. (400, JStr (err_text err)))\<rparr>"

definition sample_consent :: "(defaultApprovalStore, nat, url_values) consent_parts" where
  "sample_consent =
     \<lparr>cc_issuer = ''https://as'', cc_engine = sample_cengine,
      cc_Authenticate = (\<lambda>u p. if p = ''pw'' then Inr sample_subject else Inl (Plain ''denied'')),
      cc_Render = (\<lambda>page data. [OpWrite (Bytes (pd_Error data))]),
      cc_Issue = approval_Issue id (\<lambda>k m. k), cc_Consume = approval_Consume id (\<lambda>k m. k),
      cc_AllowsSkip = AlwaysAsk_AllowsSkip, cc_ValidateScopes = AlwaysAsk_ValidateScopes, cc_Challenge = None,
      cc_ResourceURL = StaticResourceURL ''https://as/mcp'', cc_PublicURL = ''https://as'', cc_FormPath = ''/oauth/authorize'',
      cc_uuid_Parse = (\<lambda>_. None)\<rparr>"

definition sample_login :: url_values where
  "sample_login =
     [(''client_id'', [''c1'']), (''state'', [''s'']), (''username'', [''u'']), (''password'', [''pw'']), (''action'', [''login''])]"

definition post_of :: "url_values \<Rightarrow> consent_http" where
  "post_of form = \<lparr>hq_Method = ''POST'', hq_Query = [], hq_Form = FormOK form, hq_Header = [], hq_RemoteAddr = ''10.0.0.1:99''\<rparr>"

definition consent_env_at :: "gotime \<Rightarrow> consent_env" where
  "consent_env_at t = \<lparr>cv_clocks = (t, t), cv_rand = Inr ''r'', cv_now_session = t, cv_now_audit = t\<rparr>"

definition fresh_consent :: "(defaultApprovalStore, nat) consent_state" where
  "fresh_consent = \<lparr>cs_engine = 0, cs_store = newDefaultApprovalStore ''k'', cs_events = []\<rparr>"

lemma sample_consent_signed: "with_signed_store id (\<lambda>k m. k) sample_consent = sample_consent"
  by (simp add: with_signed_store_def sample_consent_def)

lemma sample_clean: "oauthAuthorizeValues sample_login = [(''client_id'', [''c1'']), (''state'', [''s''])]"
  by code_simp

lemma sample_url:
  "\<exists>u. url_Parse (''https://as'' @ ''/oauth/authorize'' @ ''?'' @ values_Encode [(''client_id'', [''c1'']), (''state'', [''s''])]) = Inr u"
proof -
  have "(case url_Parse (''https://as'' @ ''/oauth/authorize'' @ ''?'' @ values_Encode [(''client_id'', [''c1'']), (''state'', [''s''])])
    of Inl _ \<Rightarrow> False | Inr _ \<Rightarrow> True)" by code_simp
  then show ?thesis by (simp split: sum.splits)
qed

lemma sample_accepted:
  assumes "oauthAuthorizeValues form = oauthAuthorizeValues sample_login"
  shows "accepted_post sample_consent (post_of form) form sample_crequest fs fs"
proof -
  obtain u where u: "url_Parse (''https://as'' @ ''/oauth/authorize'' @ ''?'' @ values_Encode [(''client_id'', [''c1'']), (''state'', [''s''])]) = Inr u"
    using sample_url by auto
  have "buildAuthorizeRequest sample_consent (oauthAuthorizeValues form) r fs = (Inr sample_crequest, fs)" for r
    unfolding assms sample_clean buildAuthorizeRequest_def Let_def
    by (simp only: sample_consent_def consent_parts.select_convs u sum.case) (simp add: sample_cengine_def)
  moreover have "validateResourceIndicators sample_consent r (oauthAuthorizeValues form) = None" for r
    unfolding assms sample_clean by (simp add: validateResourceIndicators_def normalizeOAuthStringSlice_def gm_get_def)
  ultimately show ?thesis by (simp add: accepted_post_def post_of_def)
qed

lemma sample_signs_in: "signs_in sample_consent sample_login sample_crequest sample_subject"
  by (simp add: signs_in_def sample_login_def sample_consent_def values_Get_def gm_get_def AlwaysAsk_ValidateScopes_def
      AlwaysAsk_AllowsSkip_def)

section \<open>Properties of the consent flow\<close>




text \<open>
  C37 (a denial is final). When the user denies with a live approval token, that token is spent: a
  later approval with it, from any form, only shows the sign-in page again.\<close>

theorem denied_approval_refused:
  assumes "h = with_signed_store sha hmac h0" "approval_ok hmac (cs_store s)"
    and "approval_pending (cs_store s) token = Some (i, ParamsDigest sha (oauthAuthorizeValues form), e)"
    and "fst (cv_clocks env) < e" "snd (cv_clocks env) < e"
    and "accepted_post h r form rq (cs_engine s) fs" "values_Get form ''action'' = ''deny''"
    and "values_Get form ''approval_token'' = token" "s1 = fst (consent_ServeHTTP h env r (s, w))"
    and "accepted_post h r' form' rq' (cs_engine s1) fs'" "values_Get form' ''action'' = ''approve''"
    and "values_Get form' ''approval_token'' = token"
  shows "snd (consent_ServeHTTP h env' r' (s1, w')) =
    renderLogin h (oauthAuthorizeValues form') ''approval expired; sign in again'' w'"
  unfolding assms(1)
  by (rule signed_consent.denied_stays_denied [of hmac s token i sha form e env h0 r rq fs s1 w r' form' rq' fs'])
    (use assms in simp_all)

definition sample_button :: "string \<Rightarrow> string \<Rightarrow> url_values" where
  "sample_button token action =
     [(''client_id'', [''c1'']), (''state'', [''s'']), (''approval_token'', [token]), (''action'', [action])]"

lemma sample_button_form:
  "oauthAuthorizeValues (sample_button token action) = oauthAuthorizeValues sample_login"
  "values_Get (sample_button token action) ''approval_token'' = token" "values_Get (sample_button token action) ''action'' = action"
proof -
  show "oauthAuthorizeValues (sample_button token action) = oauthAuthorizeValues sample_login"
    unfolding sample_clean
    by (simp add: sample_button_def oauthAuthorizeValues_def form_only_keys_def values_Add_def gm_put_def gm_get_def)
qed (simp_all add: sample_button_def values_Get_def gm_get_def)

theorem denied_approval_refused_witness:
  "\<exists>token st. approval_Issue id (\<lambda>k m. k) (1000, 1000) (Inr ''r'') sample_subject (oauthAuthorizeValues sample_login)
       (newDefaultApprovalStore ''k'') = (Inr token, st) \<and>
     snd (consent_ServeHTTP sample_consent (consent_env_at 3000) (post_of (sample_button token ''approve''))
       (fst (consent_ServeHTTP sample_consent (consent_env_at 2000) (post_of (sample_button token ''deny''))
          (fresh_consent\<lparr>cs_store := st\<rparr>, new_writer)), new_writer)) =
     renderLogin sample_consent (oauthAuthorizeValues sample_login) ''approval expired; sign in again'' new_writer"
proof -
  obtain token st where i: "approval_Issue id (\<lambda>k m. k) (1000, 1000) (Inr ''r'') sample_subject (oauthAuthorizeValues sample_login)
      (newDefaultApprovalStore ''k'') = (Inr token, st)"
    by (simp add: approval_Issue_def newApprovalNonce_def Let_def)
  have ok: "approval_ok (\<lambda>k m. k) st"
    by (rule approval_Issue_ok [OF _ i]) (simp add: approval_ok_def newDefaultApprovalStore_def)
  have p: "approval_pending st token = Some (''u1'', ParamsDigest id (oauthAuthorizeValues (sample_button token ''deny'')),
      time_of_Unix (time_Unix (1000 + approvalTokenTTL)))"
    using approval_Issue_pending(1) [OF i]
    by (simp add: approval_admits_def sample_subject_def in_int64_def time_Unix_def approvalTokenTTL_def time_Minute_def
        time_Second_def sample_button_form)
  have e: "(2000 :: gotime) < time_of_Unix (time_Unix (1000 + approvalTokenTTL))"
    by (simp add: time_of_Unix_def time_Unix_def approvalTokenTTL_def time_Minute_def time_Second_def)
  note acc = sample_accepted [OF sample_button_form(1)]
  from denied_approval_refused [OF sample_consent_signed [symmetric], of "fresh_consent\<lparr>cs_store := st\<rparr>" token "''u1''"
      "sample_button token ''deny''" _ "consent_env_at 2000" "post_of (sample_button token ''deny'')" sample_crequest _ _ new_writer
      "post_of (sample_button token ''approve'')" "sample_button token ''approve''" sample_crequest _ "consent_env_at 3000" new_writer,
      OF _ _ _ _ acc _ _ refl acc]
    ok p e i show ?thesis by (auto simp: consent_env_at_def sample_button_form)
qed

section \<open>Credentials stay out of the pages\<close>

definition page_clean :: "PageData \<Rightarrow> bool" where
  "page_clean data = (\<forall>hi \<in> set (pd_HiddenInputs data). hi_Name hi \<notin> {''username'', ''password'', ''action'', ''challenge_response''})"

lemma HiddenInputs_names: "hi \<in> set (HiddenInputs vs) \<Longrightarrow> hi_Name hi \<in> fst ` set vs"
  by (force simp: HiddenInputs_def)

lemma clean_hidden_inputs:
  assumes "hi \<in> set (HiddenInputs (oauthAuthorizeValues form))"
  shows "hi_Name hi \<notin> {''username'', ''password'', ''action'', ''challenge_response''}"
  using clean_keys [OF HiddenInputs_names [OF assms]] by (auto simp: form_only_keys_def)

lemma clean_hidden_inputs_set:
  assumes "hi \<in> set (HiddenInputs (cloneAndSet (oauthAuthorizeValues form) k v))" "k \<in> {''approval_token'', ''challenge_id''}"
  shows "hi_Name hi \<notin> {''username'', ''password'', ''action'', ''challenge_response''}"
proof -
  have "fst ` set (cloneAndSet (oauthAuthorizeValues form) k v) = insert k (fst ` set (oauthAuthorizeValues form))"
    by (auto simp: cloneAndSet_def values_Set_def gm_put_def dom_update)
  with HiddenInputs_names [OF assms(1)] have "hi_Name hi = k \<or> hi_Name hi \<in> fst ` set (oauthAuthorizeValues form)" by simp
  with clean_keys assms(2) show ?thesis by (auto simp: form_only_keys_def)
qed

text \<open>
  C38 (no credentials in a page). On a posted form every page handed to the renderer has hidden
  inputs for request parameters, the approval token and the challenge only: a renderer may do what
  it likes with a page that carries a user name, a password, the button or a challenge response, it
  is never given one.\<close>

theorem credentials_never_rendered:
  assumes "\<forall>page data. page_clean data \<longrightarrow> cc_Render h page data = rnd page data" "hq_Method r = ''POST''"
  shows "consent_ServeHTTP (h\<lparr>cc_Render := rnd\<rparr>) env r (s, w) = consent_ServeHTTP h env r (s, w)"
proof -
  let ?h = "h\<lparr>cc_Render := rnd\<rparr>"
  have rl: "renderLogin ?h (oauthAuthorizeValues form) msg = renderLogin h (oauthAuthorizeValues form) msg" for form msg
    using assms(1) clean_hidden_inputs by (intro ext) (simp add: renderLogin_def render_def page_clean_def)
  have rc: "renderLoginWithChallenge ?h (oauthAuthorizeValues form) cid = renderLoginWithChallenge h (oauthAuthorizeValues form) cid" for form cid
    using assms(1) clean_hidden_inputs_set by (intro ext) (simp add: renderLoginWithChallenge_def render_def page_clean_def)
  have pg: "rnd page (zero_PageData\<lparr>pd_Authenticated := a, pd_DisplayName := b, pd_ClientName := c, pd_Scopes := d, pd_Resources := e,
        pd_HiddenInputs := HiddenInputs (cloneAndSet (oauthAuthorizeValues form) ''approval_token'' tok), pd_FormAction := f\<rparr>) =
      cc_Render h page (zero_PageData\<lparr>pd_Authenticated := a, pd_DisplayName := b, pd_ClientName := c, pd_Scopes := d, pd_Resources := e,
        pd_HiddenInputs := HiddenInputs (cloneAndSet (oauthAuthorizeValues form) ''approval_token'' tok), pd_FormAction := f\<rparr>)"
    for page a b c d e form tok f
    using assms(1) clean_hidden_inputs_set by (simp add: page_clean_def)
  have br: "rnd page (zero_PageData\<lparr>pd_Authenticated := a, pd_ClientName := c, pd_RedirectURL := u\<rparr>) =
      cc_Render h page (zero_PageData\<lparr>pd_Authenticated := a, pd_ClientName := c, pd_RedirectURL := u\<rparr>)" for page a c u
    using assms(1) by (simp add: page_clean_def zero_PageData_def)
  have em: "emitConsentEvent ?h = emitConsentEvent h" by (intro ext) (simp add: emitConsentEvent_def)
  have ca: "completeApprove ?h env r rq ps subject sw = completeApprove h env r rq ps subject sw" for rq ps subject sw
    by (auto simp: completeApprove_def render_def br em Let_def split: prod.splits option.splits sum.splits)
  have lo: "handleLogin ?h env r form rq (oauthAuthorizeValues form) sw = handleLogin h env r form rq (oauthAuthorizeValues form) sw" for form rq sw
    by (auto simp: handleLogin_def Let_def ca rl rc render_def pg split: prod.splits option.splits sum.splits)
  have ap: "handleApprove ?h env r form rq (oauthAuthorizeValues form) sw = handleApprove h env r form rq (oauthAuthorizeValues form) sw" for form rq sw
    by (auto simp: handleApprove_def ca rl split: prod.splits sum.splits)
  have "buildAuthorizeRequest ?h = buildAuthorizeRequest h" "validateResourceIndicators ?h = validateResourceIndicators h"
    by (intro ext, simp add: buildAuthorizeRequest_def validateResourceIndicators_def Let_def cong: sum.case_cong)+
  then show ?thesis
    using assms(2) by (auto simp: consent_ServeHTTP_def handlePost_def Let_def lo ap rl em
        split: form_result.splits prod.splits sum.splits option.splits)
qed

theorem credentials_never_rendered_witness:
  "consent_ServeHTTP (sample_consent\<lparr>cc_Render := (\<lambda>page data. if page_clean data then [OpWrite (Bytes (pd_Error data))] else [])\<rparr>)
     (consent_env_at 1000) (post_of sample_login) (fresh_consent, new_writer) =
   consent_ServeHTTP sample_consent (consent_env_at 1000) (post_of sample_login) (fresh_consent, new_writer)"
  by (rule credentials_never_rendered) (simp_all add: sample_consent_def post_of_def)

section \<open>Challenges\<close>

text \<open>
  When the challenge provider asks for a challenge, a sign-in
  that is not skipped shows the sign-in page with a challenge ID and changes nothing else; whatever
  form is posted, the response to the challenge is not looked at.\<close>

lemma challenge_never_completes:
  assumes "cc_Challenge h = Some begin_challenge" "begin_challenge subject = (cid, Some err)" "errors_is err ErrChallengeRequired"
    and "accepted_post h r form rq (cs_engine s) fs" "signs_in h form rq subject"
  shows "consent_ServeHTTP h env r (s, w) =
    (s\<lparr>cs_engine := fs\<rparr>, renderLoginWithChallenge h (oauthAuthorizeValues form) cid w)"
  using assms by (simp add: consent_ServeHTTP_def handlePost_def handleLogin_def accepted_post_def signs_in_def Let_def)

lemma accepted_post_challenge: "accepted_post (h\<lparr>cc_Challenge := c\<rparr>) r form rq fs fs' = accepted_post h r form rq fs fs'"
proof -
  have "buildAuthorizeRequest (h\<lparr>cc_Challenge := c\<rparr>) = buildAuthorizeRequest h"
      "validateResourceIndicators (h\<lparr>cc_Challenge := c\<rparr>) = validateResourceIndicators h"
    by (intro ext, simp add: buildAuthorizeRequest_def validateResourceIndicators_def Let_def cong: sum.case_cong)+
  then show ?thesis by (simp add: accepted_post_def)
qed

lemma challenge_never_completes_witness:
  "consent_ServeHTTP (sample_consent\<lparr>cc_Challenge := Some (\<lambda>_. (''ch1'', Some (Sentinel ErrChallengeRequired)))\<rparr>) (consent_env_at 1000)
     (post_of sample_login) (fresh_consent, new_writer) =
   (fresh_consent, renderLoginWithChallenge (sample_consent\<lparr>cc_Challenge := Some (\<lambda>_. (''ch1'', Some (Sentinel ErrChallengeRequired)))\<rparr>)
      (oauthAuthorizeValues sample_login) ''ch1'' new_writer)"
proof -
  let ?h = "sample_consent\<lparr>cc_Challenge := Some (\<lambda>_. (''ch1'', Some (Sentinel ErrChallengeRequired)))\<rparr>"
  have "accepted_post ?h (post_of sample_login) sample_login sample_crequest (cs_engine fresh_consent) (cs_engine fresh_consent)"
    using sample_accepted [OF refl, of "cs_engine fresh_consent"]
    by (simp add: accepted_post_challenge)
  moreover have "signs_in ?h sample_login sample_crequest sample_subject" using sample_signs_in by (simp add: signs_in_def)
  ultimately show ?thesis
    using challenge_never_completes [of ?h "\<lambda>_. (''ch1'', Some (Sentinel ErrChallengeRequired))" sample_subject "''ch1''"
        "Sentinel ErrChallengeRequired"]
    by (simp add: fresh_consent_def)
qed

section \<open>The redirect back to the client\<close>

lemma gm_get_response_query:
  assumes "gm_wf params"
  shows "gm_get (response_query params q) k =
    (case gm_get params k of None \<Rightarrow> gm_get q k | Some [] \<Rightarrow> None | Some (x # xs) \<Rightarrow> Some (x # xs))"
  using assms unfolding response_query_def gm_wf_def
proof (induction params arbitrary: q)
  case (Cons kv params)
  obtain key vals where kv: "kv = (key, vals)" by fastforce
  have "gm_get params key = None" using Cons.prems by (simp add: kv gm_get_None)
  with Cons show ?case
    by (auto simp: kv gm_get_add_all values_Del_def gm_get_def [of "_ # _"] gm_get_def [symmetric] neq_Nil_conv split: list.splits option.splits)
qed (simp add: gm_get_def)

text \<open>
  The redirect carries the response. The query of the redirect URL reads back as the response
  parameters, each with all its values and overriding one of the same name, together with the other
  parameters the client had put in its redirect URI.\<close>

lemma redirect_carries_response:
  assumes "gm_wf params"
  shows "gm_get (parse_query (values_Encode (response_query params (url_Query u)))) k =
    (case gm_get params k of
       Some (x # xs) \<Rightarrow> Some (x # xs)
     | Some [] \<Rightarrow> None
     | None \<Rightarrow> (case gm_get (url_Query u) k of Some (x # xs) \<Rightarrow> Some (x # xs) | _ \<Rightarrow> None))"
proof -
  have "gm_wf (fold (\<lambda>(key, vals) q. fold (values_Add key) vals (values_Del key q)) ps q)" if "gm_wf q" for ps and q :: url_values
    using that by (induction ps arbitrary: q) (auto simp: values_Del_def)
  then have "gm_wf (response_query params (url_Query u))" by (simp add: response_query_def url_Query_def)
  from query_values_roundtrip [OF this, of k] gm_get_response_query [OF assms, of "url_Query u" k]
  show ?thesis by (auto split: option.splits list.splits)
qed

lemma redirect_carries_response_witness:
  "gm_get (parse_query (values_Encode (response_query [(''code'', [''abc'']), (''state'', [''s''])] (url_Query empty_url)))) ''code'' =
   Some [''abc'']"
  using redirect_carries_response [of "[(''code'', [''abc'']), (''state'', [''s''])]" empty_url "''code''"]
  by (simp add: gm_wf_def gm_get_def)

end
