(* ===== verification/GoJson.thy ===== *)
theory GoJson
  imports GoUrl GoEncoding
begin

text \<open>
  Package encoding/json on the level of text: quoting and unquoting of strings, the layout of
  documents (compact and indented) and a parser. A document is a tree that keeps string bodies and
  numbers as they are written, so that a raw message can be copied; a string body is read by
  \<open>unquote\<close>. Strings are bytes; bytes that are not UTF-8 are replaced by U+FFFD on the way out and in, as
  the package does.
\<close>

section \<open>UTF-8\<close>

definition cont_byte :: "char \<Rightarrow> bool" where
  "cont_byte c = (128 \<le> code_of c \<and> code_of c \<le> 191)"

text \<open>The length of the rune at the front of a string, 0 when there is none.\<close>

definition rune_len :: "string \<Rightarrow> nat" where
  "rune_len s =
     (case s of
        [] \<Rightarrow> 0
      | a # t \<Rightarrow>
          (let x = code_of a
           in if x < 128 then 1
              else if 194 \<le> x \<and> x \<le> 223 then (case t of b # _ \<Rightarrow> if cont_byte b then 2 else 0 | [] \<Rightarrow> 0)
              else if 224 \<le> x \<and> x \<le> 239 then
                (case t of
                   b # c # _ \<Rightarrow>
                     if (if x = 224 then 160 else 128) \<le> code_of b \<and> code_of b \<le> (if x = 237 then 159 else 191) \<and> cont_byte c
                     then 3 else 0
                 | _ \<Rightarrow> 0)
              else if 240 \<le> x \<and> x \<le> 244 then
                (case t of
                   b # c # d # _ \<Rightarrow>
                     if (if x = 240 then 144 else 128) \<le> code_of b \<and> code_of b \<le> (if x = 244 then 143 else 191) \<and>
                        cont_byte c \<and> cont_byte d
                     then 4 else 0
                 | _ \<Rightarrow> 0)
              else 0))"

definition rune_error :: string where
  "rune_error = [CHR 0xEF, CHR 0xBF, CHR 0xBD]"

function (sequential) utf8_clean :: "string \<Rightarrow> string" where
  "utf8_clean [] = []"
| "utf8_clean (a # s) =
     (let n = rune_len (a # s)
      in if n = 0 then rune_error @ utf8_clean s else take n (a # s) @ utf8_clean (drop n (a # s)))"
  by pat_completeness auto

termination utf8_clean by (relation "measure length") auto

definition utf8_valid :: "string \<Rightarrow> bool" where
  "utf8_valid s = (utf8_clean s = s)"

text \<open>The encoding of a code point.\<close>

definition utf8_encode :: "nat \<Rightarrow> string" where
  "utf8_encode r =
     (if r < 128 then [char_of r]
      else if r < 2048 then [char_of (192 + r div 64), char_of (128 + r mod 64)]
      else if r < 65536 then [char_of (224 + r div 4096), char_of (128 + r div 64 mod 64), char_of (128 + r mod 64)]
      else [char_of (240 + r div 262144), char_of (128 + r div 4096 mod 64), char_of (128 + r div 64 mod 64),
            char_of (128 + r mod 64)])"

section \<open>Strings\<close>

definition lowerhex :: "nat \<Rightarrow> char" where
  "lowerhex n = (if n < 10 then char_of (48 + n) else char_of (87 + n))"

text \<open>A backslash and the letter of an escape.\<close>

definition bs :: char where "bs = CHR 0x5C"

definition esc_char :: "char \<Rightarrow> string" where
  "esc_char c =
     (if c = CHR 0x22 \<or> c = bs then [bs, c]
      else if c = CHR 0x08 then [bs, CHR ''b'']
      else if c = CHR 0x0C then [bs, CHR ''f'']
      else if c = CHR 0x0A then [bs, CHR ''n'']
      else if c = CHR 0x0D then [bs, CHR ''r'']
      else if c = CHR 0x09 then [bs, CHR ''t'']
      else if code_of c < 32 \<or> c = CHR ''<'' \<or> c = CHR ''>'' \<or> c = CHR ''&''
      then [bs, CHR ''u'', CHR ''0'', CHR ''0'', lowerhex (code_of c div 16), lowerhex (code_of c mod 16)]
      else [c])"

function (sequential) quote :: "string \<Rightarrow> string" where
  "quote [] = []"
| "quote (a # s) =
     (let n = rune_len (a # s)
      in if n = 0 then bs # ''ufffd'' @ quote s
         else if n = 1 then esc_char a @ quote s
         else if take n (a # s) = [CHR 0xE2, CHR 0x80, CHR 0xA8] then bs # ''u2028'' @ quote (drop n (a # s))
         else if take n (a # s) = [CHR 0xE2, CHR 0x80, CHR 0xA9] then bs # ''u2029'' @ quote (drop n (a # s))
         else take n (a # s) @ quote (drop n (a # s)))"
  by pat_completeness auto

termination quote by (relation "measure length") auto

text \<open>The body of a string literal up to its closing quote, and the rest of the text.\<close>

fun scan_body :: "string \<Rightarrow> (string \<times> string) option" where
  "scan_body [] = None"
| "scan_body (c # s) =
     (if c = CHR 0x22 then Some ([], s)
      else if c = bs then
        (case s of
           [] \<Rightarrow> None
         | d # t \<Rightarrow>
             if d \<in> set (CHR 0x22 # bs # ''/bfnrt'') then map_option (\<lambda>(b, r). (c # d # b, r)) (scan_body t)
             else if d = CHR ''u'' then
               (case t of
                  h1 # h2 # h3 # h4 # t' \<Rightarrow>
                    if ishex h1 \<and> ishex h2 \<and> ishex h3 \<and> ishex h4
                    then map_option (\<lambda>(b, r). (c # d # h1 # h2 # h3 # h4 # b, r)) (scan_body t') else None
                | _ \<Rightarrow> None)
             else None)
      else if code_of c < 32 then None
      else map_option (\<lambda>(b, r). (c # b, r)) (scan_body s))"

definition unesc_char :: "char \<Rightarrow> char" where
  "unesc_char d =
     (if d = CHR ''b'' then CHR 0x08 else if d = CHR ''f'' then CHR 0x0C else if d = CHR ''n'' then CHR 0x0A
      else if d = CHR ''r'' then CHR 0x0D else if d = CHR ''t'' then CHR 0x09 else d)"

definition hex4 :: "char \<Rightarrow> char \<Rightarrow> char \<Rightarrow> char \<Rightarrow> nat" where
  "hex4 a b c d = ((unhex a * 16 + unhex b) * 16 + unhex c) * 16 + unhex d"

definition surrogate :: "nat \<Rightarrow> bool" where "surrogate r = (55296 \<le> r \<and> r < 57344)"

text \<open>The second half of a surrogate pair behind an escaped first half.\<close>

fun low_half :: "nat \<Rightarrow> string \<Rightarrow> nat option" where
  "low_half r (x # u # a # b # c # d # t) =
     (if x = bs \<and> u = CHR ''u'' \<and> ishex a \<and> ishex b \<and> ishex c \<and> ishex d \<and> r < 56320 \<and>
         56320 \<le> hex4 a b c d \<and> hex4 a b c d < 57344
      then Some (65536 + (r - 55296) * 1024 + (hex4 a b c d - 56320)) else None)"
| "low_half r _ = None"

function (sequential) unquote :: "string \<Rightarrow> string" where
  "unquote [] = []"
| "unquote (c # s) =
     (if c = bs then
        (case s of
           [] \<Rightarrow> []
         | d # t \<Rightarrow>
             if d = CHR ''u'' then
               (case t of
                  h1 # h2 # h3 # h4 # t' \<Rightarrow>
                    (let r = hex4 h1 h2 h3 h4
                     in if surrogate r then
                          (case low_half r t' of
                             Some p \<Rightarrow> utf8_encode p @ unquote (drop 6 t')
                           | None \<Rightarrow> rune_error @ unquote t')
                        else utf8_encode r @ unquote t')
                | _ \<Rightarrow> [])
             else unesc_char d # unquote t)
      else
        (let n = rune_len (c # s)
         in if n = 0 then rune_error @ unquote s else take n (c # s) @ unquote (drop n (c # s))))"
  by pat_completeness auto

termination unquote by (relation "measure length") auto

section \<open>Strings are read back\<close>

lemma rune_cases:
  obtains (none) "rune_len s = 0"
  | (one) a t where "s = a # t" "code_of a < 128" "rune_len s = 1"
  | (two) a b t where "s = a # b # t" "128 \<le> code_of a" "cont_byte b" "rune_len s = 2" "\<And>r. rune_len (a # b # r) = 2"
  | (three) a b c t where "s = a # b # c # t" "128 \<le> code_of a" "128 \<le> code_of b" "cont_byte c" "rune_len s = 3"
      "\<And>r. rune_len (a # b # c # r) = 3"
  | (four) a b c d t where "s = a # b # c # d # t" "128 \<le> code_of a" "128 \<le> code_of b" "cont_byte c" "cont_byte d" "rune_len s = 4"
      "\<And>r. rune_len (a # b # c # d # r) = 4"
proof (cases s)
  case Nil
  then show thesis using none by (simp add: rune_len_def)
next
  case (Cons a t)
  let ?x = "code_of a"
  consider "?x < 128" | "194 \<le> ?x" "?x \<le> 223" | "224 \<le> ?x" "?x \<le> 239" | "240 \<le> ?x" "?x \<le> 244" | "128 \<le> ?x" "?x < 194 \<or> 244 < ?x"
    by linarith
  then show thesis
  proof cases
    case 1
    then show thesis using one Cons by (simp add: rune_len_def)
  next
    case x: 2
    show thesis
    proof (cases "rune_len s = 0")
      case False
      with x Cons obtain b u where "t = b # u" "cont_byte b" by (auto simp: rune_len_def split: list.splits if_splits)
      with x Cons show thesis using two [of a b u] by (simp add: rune_len_def)
    qed (rule none)
  next
    case x: 3
    show thesis
    proof (cases "rune_len s = 0")
      case False
      with x Cons obtain b c u where t: "t = b # c # u" and
          bc: "(if ?x = 224 then 160 else 128) \<le> code_of b \<and> code_of b \<le> (if ?x = 237 then 159 else 191) \<and> cont_byte c"
        by (auto simp: rune_len_def Let_def split: list.splits if_split_asm)
      then have "128 \<le> code_of b" by (simp split: if_splits)
      moreover have "rune_len (a # b # c # r) = 3" for r using x bc by (simp add: rune_len_def)
      ultimately show thesis using three [of a b c u] t bc Cons x by simp
    qed (rule none)
  next
    case x: 4
    show thesis
    proof (cases "rune_len s = 0")
      case False
      with x Cons obtain b c d u where t: "t = b # c # d # u" and
          bc: "(if ?x = 240 then 144 else 128) \<le> code_of b \<and> code_of b \<le> (if ?x = 244 then 143 else 191) \<and> cont_byte c \<and> cont_byte d"
        by (auto simp: rune_len_def Let_def split: list.splits if_split_asm)
      then have "128 \<le> code_of b" by (simp split: if_splits)
      moreover have "rune_len (a # b # c # d # r) = 4" for r using x bc by (simp add: rune_len_def)
      ultimately show thesis using four [of a b c d u] t bc Cons x by simp
    qed (rule none)
  next
    case 5
    then have "rune_len s = 0" using Cons by (auto simp: rune_len_def)
    then show thesis by (rule none)
  qed
qed

lemma rune_len_le: "rune_len s \<le> length s"
  by (cases s rule: rune_cases) auto

lemma rune_len_ascii: "rune_len (a # s) = Suc 0 \<longleftrightarrow> code_of a < 128"
  by (cases "a # s" rule: rune_cases) (auto simp: rune_len_def)

lemma rune_len_take:
  assumes "rune_len s = n" "n \<noteq> 0"
  shows "rune_len (take n s @ r) = n"
  using assms by (cases s rule: rune_cases) (auto simp: rune_len_ascii)

lemma rune_bytes_high:
  assumes "rune_len s = n" "n \<noteq> 0" "n \<noteq> 1" "c \<in> set (take n s)"
  shows "128 \<le> code_of c"
  using assms by (cases s rule: rune_cases) (auto simp: cont_byte_def)

lemma utf8_valid_Nil [simp]: "utf8_valid []"
  by (simp add: utf8_valid_def)

lemma rune_len_error: "rune_len (rune_error @ s) = 3"
  by (simp add: rune_len_def rune_error_def cont_byte_def)

lemma clean_rune:
  assumes "rune_len s = n" "n \<noteq> 0"
  shows "utf8_clean (take n s @ r) = take n s @ utf8_clean r"
proof -
  have l: "length (take n s) = n" using rune_len_le [of s] assms(1) by simp
  then obtain a t where s: "take n s @ r = a # t" using assms(2) by (cases "take n s @ r") auto
  have "rune_len (a # t) = n" using rune_len_take [OF assms, of r] s by simp
  then have "utf8_clean (a # t) = take n (a # t) @ utf8_clean (drop n (a # t))" using assms(2) by simp
  then show ?thesis unfolding s [symmetric] using l by simp
qed

lemma utf8_clean_idem: "utf8_clean (utf8_clean s) = utf8_clean s"
proof (induction s rule: utf8_clean.induct)
  case (2 a s)
  show ?case
  proof (cases "rune_len (a # s) = 0")
    case True
    have "utf8_clean (rune_error @ utf8_clean s) = rune_error @ utf8_clean (utf8_clean s)"
      using clean_rune [of "rune_error" 3 "utf8_clean s"] rune_len_error [of "[]"] by (simp add: rune_error_def)
    with 2(1) [OF refl True] True show ?thesis by simp
  next
    case False
    have "utf8_clean (a # s) = take (rune_len (a # s)) (a # s) @ utf8_clean (drop (rune_len (a # s)) (a # s))"
      using False by (simp add: Let_def)
    with clean_rune [OF refl False] 2(2) [OF refl False] show ?thesis by simp
  qed
qed simp

lemma utf8_valid_clean [simp]: "utf8_valid (utf8_clean s)"
  by (simp add: utf8_valid_def utf8_clean_idem)

lemma ascii_valid: "\<forall>c \<in> set s. code_of c < 128 \<Longrightarrow> utf8_valid s"
proof (induction s)
  case (Cons a s)
  then have "rune_len (a # s) = 1" by (simp add: rune_len_ascii)
  with Cons show ?case by (simp add: utf8_valid_def)
qed simp

lemma lowerhex_hex:
  assumes "n < 16"
  shows "ishex (lowerhex n)" "unhex (lowerhex n) = n"
proof -
  consider "n < 10" | "10 \<le> n" by linarith
  then have "ishex (lowerhex n) \<and> unhex (lowerhex n) = n"
    using assms by cases (simp_all add: lowerhex_def ishex_def unhex_def is_digit_def)
  then show "ishex (lowerhex n)" "unhex (lowerhex n) = n" by blast+
qed

lemma utf8_encode_small: "code_of c < 128 \<Longrightarrow> utf8_encode (code_of c) = [c]"
  by (simp add: utf8_encode_def)

lemma esc_char_cases:
  assumes "code_of c < 128"
  obtains d where "esc_char c = [bs, d]" "d \<in> set (CHR 0x22 # bs # ''/bfnrt'')" "unesc_char d = c"
  | a b where "esc_char c = [bs, CHR ''u'', CHR ''0'', CHR ''0'', a, b]" "ishex a" "ishex b"
      "hex4 (CHR ''0'') (CHR ''0'') a b = code_of c"
  | "esc_char c = [c]" "c \<noteq> CHR 0x22" "c \<noteq> bs" "32 \<le> code_of c"
proof -
  consider "c \<in> {CHR 0x22, bs, CHR 0x08, CHR 0x0C, CHR 0x0A, CHR 0x0D, CHR 0x09}"
    | "c \<notin> {CHR 0x22, bs, CHR 0x08, CHR 0x0C, CHR 0x0A, CHR 0x0D, CHR 0x09}" "code_of c < 32 \<or> c = CHR ''<'' \<or> c = CHR ''>'' \<or> c = CHR ''&''"
    | "c \<notin> {CHR 0x22, bs, CHR 0x08, CHR 0x0C, CHR 0x0A, CHR 0x0D, CHR 0x09}" "\<not> (code_of c < 32 \<or> c = CHR ''<'' \<or> c = CHR ''>'' \<or> c = CHR ''&'')"
    by blast
  then show thesis
  proof cases
    case 1
    then show thesis using that(1) by (auto simp: esc_char_def unesc_char_def bs_def)
  next
    case 2
    have "code_of c div 16 < 16" "code_of c mod 16 < 16" using assms by auto
    with lowerhex_hex have h: "ishex (lowerhex (code_of c div 16))" "unhex (lowerhex (code_of c div 16)) = code_of c div 16"
        "ishex (lowerhex (code_of c mod 16))" "unhex (lowerhex (code_of c mod 16)) = code_of c mod 16" by blast+
    have "unhex (CHR ''0'') = 0" by (simp add: unhex_def is_digit_def)
    with h have "hex4 (CHR ''0'') (CHR ''0'') (lowerhex (code_of c div 16)) (lowerhex (code_of c mod 16)) = code_of c"
      by (simp add: hex4_def)
    with 2 h show thesis using that(2) by (auto simp: esc_char_def)
  next
    case 3
    then show thesis using that(3) by (auto simp: esc_char_def)
  qed
qed

lemma unquote_plain: "rune_len (c # s) = n \<Longrightarrow> n \<noteq> 0 \<Longrightarrow> c \<noteq> bs \<Longrightarrow> unquote (take n (c # s) @ r) = take n (c # s) @ unquote r"
proof -
  assume n: "rune_len (c # s) = n" "n \<noteq> 0" "c \<noteq> bs"
  obtain m where m: "n = Suc m" using n(2) by (cases n) auto
  let ?t = "take m s @ r"
  have e: "take n (c # s) @ r = c # ?t" by (simp add: m)
  have "length (take n (c # s)) = n" using rune_len_le [of "c # s"] n(1) by (simp add: m)
  then have l: "length (take m s) = m" by (simp add: m)
  have r: "rune_len (c # ?t) = n" using rune_len_take [OF n(1,2), of r] by (simp add: e)
  have "unquote (c # ?t) = take n (c # ?t) @ unquote (drop n (c # ?t))" using r n(2,3) by simp
  then show ?thesis using l by (simp add: m)
qed

lemma unquote_esc:
  assumes c: "code_of c < 128"
  shows "unquote (esc_char c @ r) = c # unquote r"
  using c
proof (cases rule: esc_char_cases)
  case (1 d)
  then have "d \<noteq> CHR ''u''" by (auto simp: bs_def)
  with 1 show ?thesis by simp
next
  case (2 a b)
  from c have "\<not> surrogate (code_of c)" by (simp add: surrogate_def)
  with 2 c show ?thesis by (simp add: utf8_encode_small)
next
  case 3
  then show ?thesis using unquote_plain [of c "[]" 1 r] c by (simp del: unquote.simps add: rune_len_ascii [of c "[]"])
qed

lemma unquote_u:
  assumes "hex4 a b c d = n" "\<not> surrogate n"
  shows "unquote (bs # CHR ''u'' # a # b # c # d # r) = utf8_encode n @ unquote r"
  using assms by simp

lemma unquote_quote: "unquote (quote s) = utf8_clean s"
proof (induction s rule: quote.induct)
  case (2 a s)
  let ?n = "rune_len (a # s)"
  have u: "unquote (bs # ''ufffd'' @ r) = rune_error @ unquote r" "unquote (bs # ''u2028'' @ r) = [CHR 0xE2, CHR 0x80, CHR 0xA8] @ unquote r"
      "unquote (bs # ''u2029'' @ r) = [CHR 0xE2, CHR 0x80, CHR 0xA9] @ unquote r" for r
  proof -
    have "hex4 (CHR ''f'') (CHR ''f'') (CHR ''f'') (CHR ''d'') = 65533" "hex4 (CHR ''2'') (CHR ''0'') (CHR ''2'') (CHR ''8'') = 8232"
      "hex4 (CHR ''2'') (CHR ''0'') (CHR ''2'') (CHR ''9'') = 8233" "\<not> surrogate 65533" "\<not> surrogate 8232" "\<not> surrogate 8233"
      "utf8_encode 65533 = rune_error" "utf8_encode 8232 = [CHR 0xE2, CHR 0x80, CHR 0xA8]" "utf8_encode 8233 = [CHR 0xE2, CHR 0x80, CHR 0xA9]"
      by (simp_all add: hex4_def unhex_def is_digit_def surrogate_def utf8_encode_def rune_error_def char_of_def bit_numeral_simps bit_0)
    then show "unquote (bs # ''ufffd'' @ r) = rune_error @ unquote r" "unquote (bs # ''u2028'' @ r) = [CHR 0xE2, CHR 0x80, CHR 0xA8] @ unquote r"
      "unquote (bs # ''u2029'' @ r) = [CHR 0xE2, CHR 0x80, CHR 0xA9] @ unquote r"
      by (simp_all del: unquote.simps add: unquote_u)
  qed
  consider "?n = 0" | "?n = 1" | "?n \<noteq> 0" "?n \<noteq> 1" by blast
  then show ?case
  proof cases
    case 1
    with 2(1) [OF refl 1] u(1) show ?thesis by (simp del: unquote.simps)
  next
    case 2
    then have "code_of a < 128" by (simp add: rune_len_ascii)
    with 2 "2.IH"(2) [OF refl] unquote_esc show ?thesis by (simp del: unquote.simps)
  next
    case 3
    have hi: "a \<noteq> bs" using rune_bytes_high [OF refl 3, of a] 3 by (cases ?n) (auto simp: bs_def)
    note pl = unquote_plain [OF refl 3(1) hi, of "quote (drop ?n (a # s))"]
    have cl: "utf8_clean (a # s) = take ?n (a # s) @ utf8_clean (drop ?n (a # s))" using 3 by (simp add: Let_def)
    have q: "quote (a # s) = (if take ?n (a # s) = [CHR 0xE2, CHR 0x80, CHR 0xA8] then bs # ''u2028'' @ quote (drop ?n (a # s))
         else if take ?n (a # s) = [CHR 0xE2, CHR 0x80, CHR 0xA9] then bs # ''u2029'' @ quote (drop ?n (a # s))
         else take ?n (a # s) @ quote (drop ?n (a # s)))" using 3 by (simp add: Let_def)
    consider "take ?n (a # s) = [CHR 0xE2, CHR 0x80, CHR 0xA8]"
      | "take ?n (a # s) \<noteq> [CHR 0xE2, CHR 0x80, CHR 0xA8]" "take ?n (a # s) = [CHR 0xE2, CHR 0x80, CHR 0xA9]"
      | "take ?n (a # s) \<noteq> [CHR 0xE2, CHR 0x80, CHR 0xA8]" "take ?n (a # s) \<noteq> [CHR 0xE2, CHR 0x80, CHR 0xA9]" by blast
    then show ?thesis
    proof cases
      case 1
      then show ?thesis unfolding q cl if_P [OF 1] u(2) using "2.IH"(3) [OF refl 3 1] by simp
    next
      case 2
      then show ?thesis unfolding q cl if_not_P [OF 2(1)] if_P [OF 2(2)] u(3) using "2.IH"(4) [OF refl 3 2] by simp
    next
      case 3
      then show ?thesis unfolding q cl if_not_P [OF 3(1)] if_not_P [OF 3(2)] pl
        using "2.IH"(5) [OF refl \<open>?n \<noteq> 0\<close> \<open>?n \<noteq> 1\<close> 3] by simp
    qed
  qed
qed simp

section \<open>Documents\<close>

text \<open>
  A parsed document. Numbers and string bodies are kept as written; \<open>unquote\<close> gives the string of a
  body.
\<close>

datatype jtree =
    TNull
  | TTrue
  | TFalse
  | TNum string
  | TStr string
  | TArr "jtree list"
  | TObj "(string \<times> jtree) list"

definition json_string :: "string \<Rightarrow> jtree" where "json_string s = TStr (quote s)"

definition quoted :: "string \<Rightarrow> string" where "quoted b = CHR 0x22 # b @ [CHR 0x22]"

text \<open>
  The text of a document: \<open>nl d\<close> is what separates the members of a container at depth \<open>d\<close>, \<open>sp\<close> what
  follows a colon.
\<close>

function (sequential) print_tree :: "(nat \<Rightarrow> string) \<Rightarrow> string \<Rightarrow> nat \<Rightarrow> jtree \<Rightarrow> string"
  and print_elems :: "(nat \<Rightarrow> string) \<Rightarrow> string \<Rightarrow> nat \<Rightarrow> jtree list \<Rightarrow> string"
  and print_members :: "(nat \<Rightarrow> string) \<Rightarrow> string \<Rightarrow> nat \<Rightarrow> (string \<times> jtree) list \<Rightarrow> string" where
  "print_tree nl sp d TNull = ''null''"
| "print_tree nl sp d TTrue = ''true''"
| "print_tree nl sp d TFalse = ''false''"
| "print_tree nl sp d (TNum b) = b"
| "print_tree nl sp d (TStr b) = quoted b"
| "print_tree nl sp d (TArr ts) = (if ts = [] then ''[]'' else CHR ''['' # print_elems nl sp (Suc d) ts @ nl d @ '']'')"
| "print_tree nl sp d (TObj ms) = (if ms = [] then ''{}'' else CHR ''{'' # print_members nl sp (Suc d) ms @ nl d @ ''}'')"
| "print_elems nl sp d [] = []"
| "print_elems nl sp d (t # ts) = nl d @ print_tree nl sp d t @ (if ts = [] then [] else CHR '','' # print_elems nl sp d ts)"
| "print_members nl sp d [] = []"
| "print_members nl sp d ((k, t) # ms) =
     nl d @ quoted k @ CHR '':'' # sp @ print_tree nl sp d t @ (if ms = [] then [] else CHR '','' # print_members nl sp d ms)"
  by pat_completeness auto

termination
  by (relation "measure (case_sum (\<lambda>(nl, sp, d, t). size t)
        (case_sum (\<lambda>(nl, sp, d, ts). size_list size ts) (\<lambda>(nl, sp, d, ms). size_list (size_prod (\<lambda>_. 0) size) ms)))")
    auto

definition compact :: "jtree \<Rightarrow> string" where "compact = print_tree (\<lambda>_. []) [] 0"

definition indented :: "jtree \<Rightarrow> string" where
  "indented = print_tree (\<lambda>d. CHR 0x0A # replicate (2 * d) (CHR '' '')) '' '' 0"

text \<open>How deep containers nest; the decoder refuses more than 10000 levels.\<close>

lemma tree_size_elem [termination_simp]: "t \<in> set ts \<Longrightarrow> size (t :: jtree) < Suc (size_list size ts)"
  by (induction ts) auto

lemma tree_size_member [termination_simp]: "m \<in> set ms \<Longrightarrow> size (snd m :: jtree) < Suc (size_list (size_prod (\<lambda>_. 0) size) ms)"
  by (induction ms) auto

fun tree_depth :: "jtree \<Rightarrow> nat" where
  "tree_depth (TArr ts) = Suc (Max (insert 0 (set (map tree_depth ts))))"
| "tree_depth (TObj ms) = Suc (Max (insert 0 (set (map (\<lambda>m. tree_depth (snd m)) ms))))"
| "tree_depth _ = 0"

section \<open>Parsing\<close>

definition is_ws :: "char \<Rightarrow> bool" where
  "is_ws c = (c = CHR '' '' \<or> c = CHR 0x09 \<or> c = CHR 0x0A \<or> c = CHR 0x0D)"

definition skip_ws :: "string \<Rightarrow> string" where "skip_ws s = dropWhile is_ws s"

text \<open>The digits at the front, which there must be, and what follows.\<close>

definition scan_digits :: "string \<Rightarrow> (string \<times> string) option" where
  "scan_digits s = (let ds = takeWhile is_digit s in if ds = [] then None else Some (ds, dropWhile is_digit s))"

definition scan_int :: "string \<Rightarrow> (string \<times> string) option" where
  "scan_int s = (case s of [] \<Rightarrow> None | c # r \<Rightarrow> if c = CHR ''0'' then Some ([c], r) else scan_digits s)"

definition scan_sign :: "string \<Rightarrow> string \<times> string" where
  "scan_sign s = (case s of [] \<Rightarrow> ([], []) | c # r \<Rightarrow> if c = CHR ''-'' then ([c], r) else ([], s))"

definition scan_frac :: "string \<Rightarrow> (string \<times> string) option" where
  "scan_frac s =
     (case s of
        c # r \<Rightarrow> if c = CHR ''.'' then map_option (\<lambda>(ds, r). (c # ds, r)) (scan_digits r) else Some ([], s)
      | [] \<Rightarrow> Some ([], []))"

definition scan_exp :: "string \<Rightarrow> (string \<times> string) option" where
  "scan_exp s =
     (case s of
        c # r \<Rightarrow>
          if c = CHR ''e'' \<or> c = CHR ''E'' then
            (case r of
               g # r' \<Rightarrow> if g = CHR ''+'' \<or> g = CHR ''-'' then map_option (\<lambda>(ds, r). (c # g # ds, r)) (scan_digits r')
                         else map_option (\<lambda>(ds, r). (c # ds, r)) (scan_digits r)
             | [] \<Rightarrow> None)
          else Some ([], s)
      | [] \<Rightarrow> Some ([], []))"

definition scan_number :: "string \<Rightarrow> (string \<times> string) option" where
  "scan_number s =
     (let (sg, s1) = scan_sign s
      in case scan_int s1 of
           None \<Rightarrow> None
         | Some (i, s2) \<Rightarrow>
             (case scan_frac s2 of
                None \<Rightarrow> None
              | Some (f, s3) \<Rightarrow> (case scan_exp s3 of None \<Rightarrow> None | Some (e, s4) \<Rightarrow> Some (sg @ i @ f @ e, s4))))"

definition scan_word :: "string \<Rightarrow> jtree \<Rightarrow> string \<Rightarrow> (jtree \<times> string) option" where
  "scan_word w t s = (if take (length w) s = w then Some (t, drop (length w) s) else None)"

fun parse_value :: "nat \<Rightarrow> string \<Rightarrow> (jtree \<times> string) option"
  and parse_elems :: "nat \<Rightarrow> string \<Rightarrow> (jtree list \<times> string) option"
  and parse_members :: "nat \<Rightarrow> string \<Rightarrow> ((string \<times> jtree) list \<times> string) option" where
  "parse_value 0 s = None"
| "parse_value (Suc n) s =
     (case skip_ws s of
        [] \<Rightarrow> None
      | c # r \<Rightarrow>
          if c = CHR 0x22 then map_option (\<lambda>(b, r). (TStr b, r)) (scan_body r)
          else if c = CHR ''{'' then
            (case skip_ws r of
               x # r' \<Rightarrow> if x = CHR ''}'' then Some (TObj [], r') else map_option (\<lambda>(ms, r). (TObj ms, r)) (parse_members n r)
             | [] \<Rightarrow> None)
          else if c = CHR ''['' then
            (case skip_ws r of
               x # r' \<Rightarrow> if x = CHR '']'' then Some (TArr [], r') else map_option (\<lambda>(ts, r). (TArr ts, r)) (parse_elems n r)
             | [] \<Rightarrow> None)
          else if c = CHR ''n'' then scan_word ''null'' TNull (c # r)
          else if c = CHR ''t'' then scan_word ''true'' TTrue (c # r)
          else if c = CHR ''f'' then scan_word ''false'' TFalse (c # r)
          else map_option (\<lambda>(b, r). (TNum b, r)) (scan_number (c # r)))"
| "parse_elems 0 s = None"
| "parse_elems (Suc n) s =
     (case parse_value n s of
        None \<Rightarrow> None
      | Some (t, r) \<Rightarrow>
          (case skip_ws r of
             [] \<Rightarrow> None
           | c # r' \<Rightarrow> if c = CHR '','' then map_option (\<lambda>(ts, r). (t # ts, r)) (parse_elems n r')
                       else if c = CHR '']'' then Some ([t], r') else None))"
| "parse_members 0 s = None"
| "parse_members (Suc n) s =
     (case skip_ws s of
        [] \<Rightarrow> None
      | q # r \<Rightarrow>
          if q \<noteq> CHR 0x22 then None
          else
            (case scan_body r of
               None \<Rightarrow> None
             | Some (k, r1) \<Rightarrow>
                 (case skip_ws r1 of
                    [] \<Rightarrow> None
                  | c # r2 \<Rightarrow>
                      if c \<noteq> CHR '':'' then None
                      else
                        (case parse_value n r2 of
                           None \<Rightarrow> None
                         | Some (t, r3) \<Rightarrow>
                             (case skip_ws r3 of
                                [] \<Rightarrow> None
                              | x # r4 \<Rightarrow> if x = CHR '','' then map_option (\<lambda>(ms, r). ((k, t) # ms, r)) (parse_members n r4)
                                          else if x = CHR ''}'' then Some ([(k, t)], r4) else None)))))"

text \<open>
  The whole text must be one value. Every second call of the parser consumes a character, so the fuel
  is enough.
\<close>

definition json_fuel :: "string \<Rightarrow> nat" where "json_fuel s = Suc (2 * length s)"

definition json_parse :: "string \<Rightarrow> jtree result" where
  "json_parse s =
     (case parse_value (json_fuel s) s of
        Some (t, r) \<Rightarrow> if skip_ws r = [] \<and> tree_depth t \<le> 10000 then Inr t else Inl (Plain ''invalid JSON'')
      | None \<Rightarrow> Inl (Plain ''invalid JSON''))"

text \<open>
  \<^verbatim>\<open>Decoder.Decode\<close> reads the first value of a stream: a container ends at its bracket, any other value
  at a blank or the end of the stream.
\<close>

definition json_first :: "string \<Rightarrow> jtree result" where
  "json_first s =
     (case parse_value (json_fuel s) s of
        Some (t, r) \<Rightarrow>
          if tree_depth t \<le> 10000 \<and>
             (case t of TObj _ \<Rightarrow> True | TArr _ \<Rightarrow> True | _ \<Rightarrow> (case r of [] \<Rightarrow> True | c # _ \<Rightarrow> is_ws c))
          then Inr t else Inl (Plain ''invalid JSON'')
      | None \<Rightarrow> Inl (Plain ''invalid JSON''))"

section \<open>Documents are read back\<close>

text \<open>What can follow a number, and the documents whose parts are written as the grammar has them.\<close>

definition num_end :: "string \<Rightarrow> bool" where
  "num_end r = (case r of [] \<Rightarrow> True | c # _ \<Rightarrow> \<not> is_digit c \<and> c \<notin> set ''.eE+-'')"

definition body_ok :: "string \<Rightarrow> bool" where "body_ok b = (scan_body (b @ [CHR 0x22]) = Some (b, []))"

definition number_ok :: "string \<Rightarrow> bool" where "number_ok b = (scan_number b = Some (b, []))"

fun tree_ok :: "jtree \<Rightarrow> bool" where
  "tree_ok (TNum b) = number_ok b"
| "tree_ok (TStr b) = body_ok b"
| "tree_ok (TArr ts) = (\<forall>t \<in> set ts. tree_ok t)"
| "tree_ok (TObj ms) = (\<forall>m \<in> set ms. body_ok (fst m) \<and> tree_ok (snd m))"
| "tree_ok _ = True"

lemma scan_body_prefix:
  "scan_body s = Some (b, r) \<Longrightarrow> s = b @ CHR 0x22 # r \<and> (\<forall>r'. scan_body (b @ CHR 0x22 # r') = Some (b, r'))"
proof (induction s arbitrary: b r rule: scan_body.induct)
  case (2 c s)
  show ?case
  proof (cases "c = bs")
    case False
    with 2(3) [OF _ False] 2(4) show ?thesis by (auto split: if_splits)
  next
    case True
    then have c: "c \<noteq> CHR 0x22" by (simp add: bs_def)
    from 2(4) True c obtain d t where s: "s = d # t" by (auto split: list.splits)
    show ?thesis
    proof (cases "d \<in> set (CHR 0x22 # bs # ''/bfnrt'')")
      case d: True
      with 2(4) c True s obtain b' where "scan_body t = Some (b', r)" "b = c # d # b'" by auto
      with 2(1) [OF c True s d, of b' r] c True d s show ?thesis by auto
    next
      case d: False
      with 2(4) c True s obtain h1 h2 h3 h4 t' b' where h: "d = CHR ''u''" "t = h1 # h2 # h3 # h4 # t'"
          "ishex h1 \<and> ishex h2 \<and> ishex h3 \<and> ishex h4" "scan_body t' = Some (b', r)" "b = c # d # h1 # h2 # h3 # h4 # b'"
        by (auto split: list.splits if_splits)
      from 2(2) [OF c True s d h(1,2) refl refl refl, of b' r] h c True d s show ?thesis by auto
    qed
  qed
qed simp

lemma body_ok_scan: "body_ok b \<Longrightarrow> scan_body (b @ CHR 0x22 # r) = Some (b, r)"
  using scan_body_prefix [of "b @ [CHR 0x22]" b "[]"] by (simp add: body_ok_def)

lemma scan_body_ok: "scan_body s = Some (b, r) \<Longrightarrow> body_ok b"
  using scan_body_prefix [of s b r] by (simp add: body_ok_def)

lemma scan_esc:
  assumes "code_of c < 128"
  shows "scan_body (esc_char c @ s) = map_option (\<lambda>(b, r). (esc_char c @ b, r)) (scan_body s)"
  using assms
proof (cases rule: esc_char_cases)
  case (2 a b)
  have "ishex (CHR ''0'')" by (simp add: ishex_def is_digit_def)
  with 2 show ?thesis by (simp add: bs_def)
qed (auto simp: bs_def)

lemma scan_high:
  assumes "\<forall>c \<in> set p. 128 \<le> code_of c"
  shows "scan_body (p @ s) = map_option (\<lambda>(b, r). (p @ b, r)) (scan_body s)"
  using assms
proof (induction p)
  case (Cons c p)
  then have "c \<noteq> CHR 0x22" "c \<noteq> bs" "\<not> code_of c < 32" by (auto simp: bs_def)
  with Cons show ?case by (simp add: option.map_comp comp_def case_prod_beta)
qed (simp add: option.map_id)

lemma scan_u:
  assumes "ishex a" "ishex b" "ishex c" "ishex d"
  shows "scan_body (bs # CHR ''u'' # a # b # c # d # s) = map_option (\<lambda>(y, r). (bs # CHR ''u'' # a # b # c # d # y, r)) (scan_body s)"
  using assms by (simp add: bs_def)

lemma scan_quote: "scan_body (quote s @ CHR 0x22 # r) = Some (quote s, r)"
proof (induction s rule: quote.induct)
  case (2 a s)
  let ?n = "rune_len (a # s)"
  have x: "ishex (CHR ''f'')" "ishex (CHR ''d'')" "ishex (CHR ''2'')" "ishex (CHR ''0'')" "ishex (CHR ''8'')" "ishex (CHR ''9'')"
    by (simp_all add: ishex_def is_digit_def)
  consider "?n = 0" | "?n = 1" | "?n \<noteq> 0" "?n \<noteq> 1" by blast
  then show ?case
  proof cases
    case 1
    with 2(1) [OF refl 1] x show ?thesis by (simp del: scan_body.simps add: scan_u)
  next
    case 2
    then have "code_of a < 128" by (simp add: rune_len_ascii)
    with 2 "2.IH"(2) [OF refl] show ?thesis by (simp del: scan_body.simps add: scan_esc)
  next
    case 3
    have q: "quote (a # s) = (if take ?n (a # s) = [CHR 0xE2, CHR 0x80, CHR 0xA8] then bs # ''u2028'' @ quote (drop ?n (a # s))
         else if take ?n (a # s) = [CHR 0xE2, CHR 0x80, CHR 0xA9] then bs # ''u2029'' @ quote (drop ?n (a # s))
         else take ?n (a # s) @ quote (drop ?n (a # s)))" using 3 by (simp add: Let_def)
    have "\<forall>c \<in> set (take ?n (a # s)). 128 \<le> code_of c" using rune_bytes_high [OF refl 3] by blast
    note hi = scan_high [OF this]
    consider "take ?n (a # s) = [CHR 0xE2, CHR 0x80, CHR 0xA8]"
      | "take ?n (a # s) \<noteq> [CHR 0xE2, CHR 0x80, CHR 0xA8]" "take ?n (a # s) = [CHR 0xE2, CHR 0x80, CHR 0xA9]"
      | "take ?n (a # s) \<noteq> [CHR 0xE2, CHR 0x80, CHR 0xA8]" "take ?n (a # s) \<noteq> [CHR 0xE2, CHR 0x80, CHR 0xA9]" by blast
    then show ?thesis
    proof cases
      case 1
      then show ?thesis unfolding q if_P [OF 1] using "2.IH"(3) [OF refl 3 1] x by (simp del: scan_body.simps add: scan_u)
    next
      case 2
      then show ?thesis unfolding q if_not_P [OF 2(1)] if_P [OF 2(2)] using "2.IH"(4) [OF refl 3 2] x
        by (simp del: scan_body.simps add: scan_u)
    next
      case 3
      show ?thesis unfolding q if_not_P [OF 3(1)] if_not_P [OF 3(2)] append_assoc hi
        using "2.IH"(5) [OF refl \<open>?n \<noteq> 0\<close> \<open>?n \<noteq> 1\<close> 3] by simp
    qed
  qed
qed simp

lemma quote_body_ok [simp]: "body_ok (quote s)"
  by (simp add: body_ok_def scan_quote)

lemma quote_tree_ok [simp]: "tree_ok (json_string s)"
  by (simp add: json_string_def)

lemma digit_neq:
  assumes "is_digit c"
  shows "c \<notin> set '' +-.,]}{[nft''" "c \<noteq> CHR 0x22" "\<not> is_ws c"
  using assms by (auto simp: is_digit_def is_ws_def)

lemma scan_digits_prefix:
  assumes "scan_digits s = Some (ds, r)"
  shows "s = ds @ r" "ds \<noteq> []" "is_digit (hd ds)" "(case r' of [] \<Rightarrow> True | c # _ \<Rightarrow> \<not> is_digit c) \<Longrightarrow> scan_digits (ds @ r') = Some (ds, r')"
proof -
  from assms have d: "ds = takeWhile is_digit s" "ds \<noteq> []" "r = dropWhile is_digit s" by (auto simp: scan_digits_def Let_def split: if_splits)
  then show "s = ds @ r" "ds \<noteq> []" by simp_all
  have all: "\<forall>c \<in> set ds. is_digit c" using d(1) by (auto dest: set_takeWhileD)
  with d(2) show "is_digit (hd ds)" by simp
  assume "case r' of [] \<Rightarrow> True | c # _ \<Rightarrow> \<not> is_digit c"
  then have "takeWhile is_digit r' = []" "dropWhile is_digit r' = r'" by (cases r'; simp)+
  with all d(2) show "scan_digits (ds @ r') = Some (ds, r')" by (simp add: scan_digits_def takeWhile_append2 dropWhile_append2)
qed

lemma scan_int_prefix:
  assumes "scan_int s = Some (i, r)"
  shows "s = i @ r" "i \<noteq> []" "is_digit (hd i)" "(case r' of [] \<Rightarrow> True | c # _ \<Rightarrow> \<not> is_digit c) \<Longrightarrow> scan_int (i @ r') = Some (i, r')"
proof -
  have "s = i @ r \<and> i \<noteq> [] \<and> is_digit (hd i) \<and> ((case r' of [] \<Rightarrow> True | c # _ \<Rightarrow> \<not> is_digit c) \<longrightarrow> scan_int (i @ r') = Some (i, r'))"
  proof (cases "s \<noteq> [] \<and> hd s = CHR ''0''")
    case True
    with assms show ?thesis by (cases s) (auto simp: scan_int_def is_digit_def)
  next
    case False
    with assms have d: "scan_digits s = Some (i, r)" by (cases s) (auto simp: scan_int_def)
    note p = scan_digits_prefix [OF d]
    from p(1,2) False have "hd i \<noteq> CHR ''0''" by (cases i) auto
    with p(2) have "scan_int (i @ r') = scan_digits (i @ r')" by (cases i) (simp_all add: scan_int_def)
    with p show ?thesis by auto
  qed
  then show "s = i @ r" "i \<noteq> []" "is_digit (hd i)" "(case r' of [] \<Rightarrow> True | c # _ \<Rightarrow> \<not> is_digit c) \<Longrightarrow> scan_int (i @ r') = Some (i, r')"
    by blast+
qed

lemma scan_frac_prefix:
  assumes "scan_frac s = Some (f, r)"
  shows "s = f @ r" "f = [] \<or> hd f = CHR ''.''" 
    "(case r' of [] \<Rightarrow> True | c # _ \<Rightarrow> \<not> is_digit c \<and> c \<noteq> CHR ''.'') \<Longrightarrow> scan_frac (f @ r') = Some (f, r')"
proof -
  have "s = f @ r \<and> (f = [] \<or> hd f = CHR ''.'') \<and>
    ((case r' of [] \<Rightarrow> True | c # _ \<Rightarrow> \<not> is_digit c \<and> c \<noteq> CHR ''.'') \<longrightarrow> scan_frac (f @ r') = Some (f, r'))"
  proof (cases "s \<noteq> [] \<and> hd s = CHR ''.''")
    case True
    with assms obtain t ds where t: "s = CHR ''.'' # t" "scan_digits t = Some (ds, r)" "f = CHR ''.'' # ds"
      by (cases s) (auto simp: scan_frac_def)
    from scan_digits_prefix(1-3) [OF t(2)] scan_digits_prefix(4) [OF t(2), of r'] t show ?thesis by (cases r') (auto simp: scan_frac_def)
  next
    case False
    with assms show ?thesis by (cases s; cases r') (auto simp: scan_frac_def)
  qed
  then show "s = f @ r" "f = [] \<or> hd f = CHR ''.''" 
    "(case r' of [] \<Rightarrow> True | c # _ \<Rightarrow> \<not> is_digit c \<and> c \<noteq> CHR ''.'') \<Longrightarrow> scan_frac (f @ r') = Some (f, r')" by blast+
qed

lemma scan_exp_prefix:
  assumes "scan_exp s = Some (e, r)"
  shows "s = e @ r" "e = [] \<or> hd e \<in> set ''eE''" "num_end r' \<Longrightarrow> scan_exp (e @ r') = Some (e, r')"
proof -
  have "s = e @ r \<and> (e = [] \<or> hd e \<in> set ''eE'') \<and> (num_end r' \<longrightarrow> scan_exp (e @ r') = Some (e, r'))"
  proof (cases "s \<noteq> [] \<and> hd s \<in> set ''eE''")
    case True
    then obtain c t where s: "s = c # t" "c \<in> set ''eE''" by (cases s) auto
    with assms obtain g t' where t: "t = g # t'" by (cases t) (auto simp: scan_exp_def)
    show ?thesis
    proof (cases "g = CHR ''+'' \<or> g = CHR ''-''")
      case g: True
      with assms s t obtain ds where d: "scan_digits t' = Some (ds, r)" "e = c # g # ds" by (auto simp: scan_exp_def)
      from scan_digits_prefix(1-3) [OF d(1)] scan_digits_prefix(4) [OF d(1), of r'] d s t g show ?thesis by (cases r') (auto simp: scan_exp_def num_end_def)
    next
      case g: False
      with assms s t obtain ds where d: "scan_digits t = Some (ds, r)" "e = c # ds" by (auto simp: scan_exp_def)
      note p = scan_digits_prefix [OF d(1)]
      obtain y ys where y: "ds = y # ys" "y \<noteq> CHR ''+''" "y \<noteq> CHR ''-''" using p(2) digit_neq [OF p(3)] by (cases ds) auto
      from p(1) scan_digits_prefix(4) [OF d(1), of r'] d s y show ?thesis by (cases r') (auto simp: scan_exp_def num_end_def)
    qed
  next
    case False
    with assms show ?thesis by (cases s; cases r') (auto simp: scan_exp_def num_end_def)
  qed
  then show "s = e @ r" "e = [] \<or> hd e \<in> set ''eE''" "num_end r' \<Longrightarrow> scan_exp (e @ r') = Some (e, r')" by blast+
qed

lemma scan_number_prefix:
  assumes "scan_number s = Some (b, r)"
  shows "s = b @ r" "b \<noteq> []" "is_digit (hd b) \<or> hd b = CHR ''-''" "num_end r' \<Longrightarrow> scan_number (b @ r') = Some (b, r')"
proof -
  obtain sg s1 where sg: "scan_sign s = (sg, s1)" by fastforce
  with assms obtain i s2 f s3 e where
      n: "scan_int s1 = Some (i, s2)" "scan_frac s2 = Some (f, s3)" "scan_exp s3 = Some (e, r)" "b = sg @ i @ f @ e"
    by (auto simp: scan_number_def split: option.splits)
  note i = scan_int_prefix [OF n(1)] and f = scan_frac_prefix [OF n(2)] and e = scan_exp_prefix [OF n(3)]
  have sgn: "s = sg @ s1" "sg = ''-'' \<or> sg = []" using sg by (auto simp: scan_sign_def split: list.splits if_splits)
  show "s = b @ r" using sgn(1) i(1) f(1) e(1) n(4) by simp
  show "b \<noteq> []" using i(2) n(4) by simp
  show "is_digit (hd b) \<or> hd b = CHR ''-''" using sgn(2) i(2,3) n(4) by auto
  have i0: "hd i \<noteq> CHR ''-''" using i(3) by (auto simp: is_digit_def)
  assume r: "num_end r'"
  have 1: "case f @ e @ r' of [] \<Rightarrow> True | c # _ \<Rightarrow> \<not> is_digit c"
    using f(2) e(2) r by (cases f; cases e; cases r') (auto simp: num_end_def is_digit_def)
  have 2: "case e @ r' of [] \<Rightarrow> True | c # _ \<Rightarrow> \<not> is_digit c \<and> c \<noteq> CHR ''.''"
    using e(2) r by (cases e; cases r') (auto simp: num_end_def is_digit_def)
  have "scan_sign (b @ r') = (sg, i @ f @ e @ r')"
    using sgn(2) i(2) i0 n(4) by (cases i) (auto simp: scan_sign_def)
  with i(4) [OF 1] f(3) [OF 2] e(3) [OF r] show "scan_number (b @ r') = Some (b, r')"
    by (simp add: scan_number_def n(4))
qed

lemma skip_ws_simps [simp]:
  "skip_ws [] = []"
  "is_ws c \<Longrightarrow> skip_ws (c # s) = skip_ws s"
  "\<not> is_ws c \<Longrightarrow> skip_ws (c # s) = c # s"
  by (simp_all add: skip_ws_def)

lemma skip_ws_append: "\<forall>c \<in> set w. is_ws c \<Longrightarrow> skip_ws (w @ s) = skip_ws s"
  by (induction w) simp_all

lemma parse_skip:
  assumes "\<forall>c \<in> set w. is_ws c"
  shows "parse_value n (w @ s) = parse_value n s" "parse_elems n (w @ s) = parse_elems n s" "parse_members n (w @ s) = parse_members n s"
proof -
  show v: "parse_value n (w @ s) = parse_value n s" for n by (cases n) (simp_all add: skip_ws_append [OF assms])
  show "parse_members n (w @ s) = parse_members n s" by (cases n) (simp_all add: skip_ws_append [OF assms])
  show "parse_elems n (w @ s) = parse_elems n s" by (cases n) (simp_all add: v)
qed

text \<open>A document starts with a character that opens a value.\<close>

lemma print_head:
  assumes "tree_ok t"
  shows "\<exists>c u. print_tree nl sp d t = c # u \<and> \<not> is_ws c \<and> c \<notin> set '']},''"
proof (cases t)
  case (TNum b)
  with assms have "b \<noteq> []" "is_digit (hd b) \<or> hd b = CHR ''-''" using scan_number_prefix(2,3) [of b b "[]"] by (simp_all add: number_ok_def)
  then obtain c u where "b = c # u" "is_digit c \<or> c = CHR ''-''" by (cases b) auto
  then have "\<not> is_ws c \<and> c \<notin> set '']},''" using digit_neq [of c] by (elim disjE) (simp_all add: is_ws_def)
  with TNum \<open>b = c # u\<close> show ?thesis by simp
qed (simp_all add: quoted_def is_ws_def)

lemma num_end_simps [simp]:
  "num_end []" "num_end (c # r) \<longleftrightarrow> \<not> is_digit c \<and> c \<notin> set ''.eE+-''"
  by (simp_all add: num_end_def)

lemma num_end_ws:
  assumes "\<forall>c \<in> set w. is_ws c" "num_end r"
  shows "num_end (w @ r)"
proof (cases w)
  case (Cons c u)
  with assms(1) have "c = CHR '' '' \<or> c = CHR 0x09 \<or> c = CHR 0x0A \<or> c = CHR 0x0D" by (simp add: is_ws_def)
  then show ?thesis unfolding Cons by (elim disjE) (simp_all add: is_digit_def)
qed (use assms in simp)

lemma close_end:
  assumes "\<forall>c \<in> set w. is_ws c" "c \<in> set '']}''"
  shows "num_end (w @ c # r)" "skip_ws (w @ c # r) = c # r"
proof -
  have "\<not> is_ws c" "num_end (c # r)" using assms(2) by (auto simp: is_ws_def is_digit_def)
  then show "num_end (w @ c # r)" "skip_ws (w @ c # r) = c # r" using assms(1) by (simp_all add: num_end_ws skip_ws_append)
qed

lemma parse_print:
  assumes "\<And>d. \<forall>c \<in> set (nl d). is_ws c" "\<forall>c \<in> set sp. is_ws c"
  shows "tree_ok t \<Longrightarrow> 2 * length (print_tree nl sp d t) \<le> n \<Longrightarrow> num_end r \<Longrightarrow> parse_value n (print_tree nl sp d t @ r) = Some (t, r)"
    and "ts \<noteq> [] \<Longrightarrow> \<forall>t \<in> set ts. tree_ok t \<Longrightarrow> 2 * length (print_elems nl sp d ts) < n \<Longrightarrow>
      parse_elems n (print_elems nl sp d ts @ nl d' @ CHR '']'' # r) = Some (ts, r)"
    and "ms \<noteq> [] \<Longrightarrow> \<forall>m \<in> set ms. body_ok (fst m) \<and> tree_ok (snd m) \<Longrightarrow> 2 * length (print_members nl sp d ms) < n \<Longrightarrow>
      parse_members n (print_members nl sp d ms @ nl d' @ CHR ''}'' # r) = Some (ms, r)"
  using assms
proof (induction nl sp d t and nl sp d ts and nl sp d ms arbitrary: n r and n r d' and n r d'
    rule: print_tree_print_elems_print_members.induct)
  case (1 nl sp d)
  then obtain m where "n = Suc m" by (cases n) auto
  then show ?case by (simp add: is_ws_def scan_word_def)
next
  case (2 nl sp d)
  then obtain m where "n = Suc m" by (cases n) auto
  then show ?case by (simp add: is_ws_def scan_word_def)
next
  case (3 nl sp d)
  then obtain m where "n = Suc m" by (cases n) auto
  then show ?case by (simp add: is_ws_def scan_word_def)
next
  case (4 nl sp d b)
  then have b: "scan_number (b @ r) = Some (b, r)" "b \<noteq> []" "is_digit (hd b) \<or> hd b = CHR ''-''"
    using scan_number_prefix(2-3) [of b b "[]"] scan_number_prefix(4) [of b b "[]" r] by (simp_all add: number_ok_def)
  then obtain c u where "b = c # u" "is_digit c \<or> c = CHR ''-''" by (cases b) auto
  moreover from 4 b(2) obtain m where "n = Suc m" by (cases n; cases b) auto
  ultimately show ?case using b(1) digit_neq [of c] by (auto simp: is_ws_def)
next
  case (5 nl sp d b)
  then obtain m where "n = Suc m" by (cases n) (auto simp: quoted_def)
  with 5 show ?case by (simp add: quoted_def is_ws_def body_ok_scan)
next
  case (6 nl sp d ts)
  then obtain m where n: "n = Suc m" by (cases n) (auto split: if_splits)
  show ?case
  proof (cases ts)
    case Nil
    then show ?thesis by (simp add: n is_ws_def)
  next
    case (Cons t ts')
    then obtain c u where c: "print_tree nl sp (Suc d) t = c # u" "\<not> is_ws c" "c \<noteq> CHR '']''"
      using print_head [of t nl sp "Suc d"] 6(2) by fastforce
    with 6(1) [of m d r] 6 Cons show ?thesis by (simp add: n is_ws_def skip_ws_append)
  qed
next
  case (7 nl sp d ms)
  then obtain m where n: "n = Suc m" by (cases n) (auto split: if_splits)
  show ?case
  proof (cases ms)
    case Nil
    then show ?thesis by (simp add: n is_ws_def)
  next
    case (Cons p ms')
    obtain k t where p: "p = (k, t)" by fastforce
    with 7(1) [of m d r] 7 Cons show ?thesis by (simp add: n is_ws_def skip_ws_append quoted_def)
  qed
next
  case (9 nl sp d t ts)
  then obtain m where n: "n = Suc m" by (cases n) auto
  have ne: "num_end (nl d' @ CHR '']'' # r)" "skip_ws (nl d' @ CHR '']'' # r) = CHR '']'' # r"
    using close_end 9(6) by simp_all
  show ?case
  proof (cases "ts = []")
    case True
    with 9(1) [of m "nl d' @ CHR '']'' # r"] 9(4-7) ne show ?thesis by (simp add: n parse_skip)
  next
    case False
    with 9(1) [of m "CHR '','' # print_elems nl sp d ts @ nl d' @ CHR '']'' # r"] 9(2) [OF False False, of m d' r] 9(4-7)
    show ?thesis by (simp add: n parse_skip is_digit_def is_ws_def)
  qed
next
  case (11 nl sp d k t ms)
  then obtain m where n: "n = Suc m" by (cases n) auto
  have ne: "num_end (nl d' @ CHR ''}'' # r)" "skip_ws (nl d' @ CHR ''}'' # r) = CHR ''}'' # r"
    using close_end 11(6) by simp_all
  have q: "skip_ws (nl d @ quoted k @ x) = CHR 0x22 # k @ CHR 0x22 # x" for x
    using 11(6) by (simp add: skip_ws_append quoted_def is_ws_def)
  have k: "scan_body (k @ CHR 0x22 # x) = Some (k, x)" for x using 11(4) by (simp add: body_ok_scan)
  show ?case
  proof (cases "ms = []")
    case True
    with 11(1) [of m "nl d' @ CHR ''}'' # r"] 11(4-7) ne q k show ?thesis by (simp add: n parse_skip is_ws_def)
  next
    case False
    with 11(1) [of m "CHR '','' # print_members nl sp d ms @ nl d' @ CHR ''}'' # r"] 11(2) [OF False False, of m d' r] 11(4-7) q k
    show ?thesis by (simp add: n parse_skip is_digit_def is_ws_def)
  qed
qed simp_all

lemma json_parse_print:
  assumes "\<And>d. \<forall>c \<in> set (nl d). is_ws c" "\<forall>c \<in> set sp. is_ws c" "tree_ok t" "tree_depth t \<le> 10000"
  shows "json_parse (print_tree nl sp d t) = Inr t"
  using parse_print(1) [where nl = nl and sp = sp and d = d and t = t and r = "[]" and n = "json_fuel (print_tree nl sp d t)"] assms
  by (simp del: parse_value.simps add: json_parse_def json_fuel_def)

lemma json_first_print:
  assumes "\<And>d. \<forall>c \<in> set (nl d). is_ws c" "\<forall>c \<in> set sp. is_ws c" "tree_ok (TObj ms)" "tree_depth (TObj ms) \<le> 10000" "num_end r"
  shows "json_first (print_tree nl sp d (TObj ms) @ r) = Inr (TObj ms)"
  using parse_print(1) [where nl = nl and sp = sp and d = d and t = "TObj ms" and r = r
      and n = "json_fuel (print_tree nl sp d (TObj ms) @ r)"] assms
  by (simp del: parse_value.simps print_tree.simps add: json_first_def json_fuel_def)

lemma json_parse_compact: "tree_ok t \<Longrightarrow> tree_depth t \<le> 10000 \<Longrightarrow> json_parse (compact t) = Inr t"
  by (simp add: compact_def json_parse_print)

lemma json_parse_indented: "tree_ok t \<Longrightarrow> tree_depth t \<le> 10000 \<Longrightarrow> json_parse (indented t) = Inr t"
  unfolding indented_def by (rule json_parse_print) (auto simp: is_ws_def)

section \<open>The fuel is enough\<close>

lemma skip_ws_le: "length (skip_ws s) \<le> length s"
  by (simp add: skip_ws_def length_dropWhile_le)

lemma skip_ws_Cons: "skip_ws s = c # r \<Longrightarrow> length r < length s"
  using skip_ws_le [of s] by simp

lemma scan_body_len: "scan_body s = Some (b, r) \<Longrightarrow> length r < length s"
  using scan_body_prefix [of s b r] by simp

lemma scan_number_len: "scan_number s = Some (b, r) \<Longrightarrow> length r < length s"
  using scan_number_prefix(1,2) [of s b r] by simp

lemma parse_len:
  "parse_value n s = Some (t, r) \<Longrightarrow> length r < length s"
  "parse_elems n s = Some (ts, r) \<Longrightarrow> length r < length s"
  "parse_members n s = Some (ms, r) \<Longrightarrow> length r < length s"
proof (induction n s and n s and n s arbitrary: t r and ts r and ms r rule: parse_value_parse_elems_parse_members.induct)
  case (2 n s)
  then show ?case
    by (auto simp: scan_word_def split: list.splits if_splits option.splits
        dest!: skip_ws_Cons scan_body_len scan_number_len) fastforce+
next
  case (4 n s)
  then show ?case by (fastforce split: list.splits if_splits option.splits dest!: skip_ws_Cons)
next
  case (6 n s)
  then show ?case by (fastforce split: list.splits if_splits option.splits dest!: skip_ws_Cons scan_body_len)
qed simp_all

lemma parse_more_fuel:
  "(2 * length s < n \<longrightarrow> parse_value (Suc n) s = parse_value n s) \<and>
   (Suc (2 * length s) < n \<longrightarrow> parse_elems (Suc n) s = parse_elems n s) \<and>
   (2 * length s < n \<longrightarrow> parse_members (Suc n) s = parse_members n s)"
proof (induction n arbitrary: s)
  case (Suc n)
  note vl = conjunct1 [OF Suc, THEN mp] and elems = conjunct1 [OF conjunct2 [OF Suc], THEN mp]
    and members = conjunct2 [OF conjunct2 [OF Suc], THEN mp]
  have "parse_value (Suc (Suc n)) s = parse_value (Suc n) s" if "2 * length s < Suc n"
  proof (cases "skip_ws s")
    case (Cons c r)
    note l = skip_ws_Cons [OF Cons]
    have "parse_members (Suc n) r = parse_members n r" using l that by (intro members) simp
    moreover have "parse_elems (Suc n) r = parse_elems n r" using l that by (intro elems) simp
    ultimately show ?thesis by (simp only: parse_value.simps Cons list.case)
  qed simp
  moreover have "parse_elems (Suc (Suc n)) s = parse_elems (Suc n) s" if "Suc (2 * length s) < Suc n"
  proof -
    have v: "parse_value (Suc n) s = parse_value n s" using that by (intro vl) simp
    have "parse_elems (Suc n) r' = parse_elems n r'" if "parse_value n s = Some (t, r)" "skip_ws r = c # r'" for t r c r'
      using parse_len(1) [OF that(1)] skip_ws_Cons [OF that(2)] \<open>Suc (2 * length s) < Suc n\<close> by (intro elems) simp
    then show ?thesis unfolding parse_elems.simps v by (auto split: option.splits list.splits)
  qed
  moreover have "parse_members (Suc (Suc n)) s = parse_members (Suc n) s" if b: "2 * length s < Suc n"
  proof -
    have v: "parse_value (Suc n) r2 = parse_value n r2"
      if "skip_ws s = q # r" "scan_body r = Some (k, r1)" "skip_ws r1 = c # r2" for q r k r1 c r2
      using skip_ws_Cons [OF that(1)] scan_body_len [OF that(2)] skip_ws_Cons [OF that(3)] b by (intro vl) simp
    have m: "parse_members (Suc n) r4 = parse_members n r4"
      if "skip_ws s = q # r" "scan_body r = Some (k, r1)" "skip_ws r1 = c # r2" "parse_value n r2 = Some (t, r3)" "skip_ws r3 = x # r4"
      for q r k r1 c r2 t r3 x r4
      using skip_ws_Cons [OF that(1)] scan_body_len [OF that(2)] skip_ws_Cons [OF that(3)] parse_len(1) [OF that(4)]
        skip_ws_Cons [OF that(5)] b by (intro members) simp
    show ?thesis unfolding parse_members.simps(2) [of "Suc n" s] parse_members.simps(2) [of n s]
      by (auto split: option.splits list.splits simp del: parse_members.simps parse_value.simps simp: v m)
  qed
  ultimately show ?case by blast
qed simp

text \<open>More fuel than \<^const>\<open>json_fuel\<close> does not change what the parser returns.\<close>

lemma json_fuel_enough:
  assumes "json_fuel s \<le> n"
  shows "parse_value n s = parse_value (json_fuel s) s"
  using assms
proof (induction n rule: dec_induct)
  case (step n)
  have "2 * length s < n" using step(1) by (simp add: json_fuel_def)
  with conjunct1 [OF parse_more_fuel [of s n]] step(3) show ?case by (simp del: parse_value.simps)
qed simp

section \<open>Decoded text is UTF-8\<close>

lemma clean_append:
  assumes "utf8_valid a"
  shows "utf8_clean (a @ b) = a @ utf8_clean b"
  using assms
proof (induction a rule: utf8_clean.induct)
  case (2 x s)
  let ?n = "rune_len (x # s)"
  have n: "?n \<noteq> 0"
  proof
    assume z: "?n = 0"
    with 2(3) have "x # s = rune_error @ utf8_clean s" by (simp add: utf8_valid_def)
    with rune_len_error [of "utf8_clean s"] z show False by simp
  qed
  have cl: "utf8_clean (x # s) = take ?n (x # s) @ utf8_clean (drop ?n (x # s))" using n by (simp add: Let_def)
  with 2(3) have "take ?n (x # s) @ utf8_clean (drop ?n (x # s)) = take ?n (x # s) @ drop ?n (x # s)"
    by (simp only: utf8_valid_def append_take_drop_id)
  then have "utf8_valid (drop ?n (x # s))" by (simp only: utf8_valid_def same_append_eq)
  note ih = 2(2) [OF refl n this]
  have "utf8_clean (take ?n (x # s) @ (drop ?n (x # s) @ b)) = take ?n (x # s) @ utf8_clean (drop ?n (x # s) @ b)"
    by (rule clean_rune [OF refl n])
  then show ?case unfolding ih append_assoc [symmetric] append_take_drop_id .
qed simp

lemma valid_append: "utf8_valid a \<Longrightarrow> utf8_valid b \<Longrightarrow> utf8_valid (a @ b)"
  using clean_append [of a b] by (simp add: utf8_valid_def)

lemma rune_valid: "rune_len s = length s \<Longrightarrow> utf8_valid s"
  using clean_rune [of s "length s" "[]"] by (cases "s = []") (simp_all add: utf8_valid_def)

lemma take_rune_valid: "rune_len s = n \<Longrightarrow> n \<noteq> 0 \<Longrightarrow> utf8_valid (take n s)"
  using clean_rune [of s n "[]"] by (simp add: utf8_valid_def)

lemma utf8_encode_valid:
  assumes "r < 1114112" "\<not> surrogate r"
  shows "utf8_valid (utf8_encode r)"
proof -
  consider "r < 128" | "128 \<le> r" "r < 2048" | "2048 \<le> r" "r < 65536" | "65536 \<le> r" by linarith
  then have "rune_len (utf8_encode r) = length (utf8_encode r)"
  proof cases
    case 1
    then show ?thesis by (simp add: utf8_encode_def rune_len_def)
  next
    case 2
    then have "2 \<le> r div 64" "r div 64 < 32" "r mod 64 < 64" by (auto simp: less_mult_imp_div_less)
    then show ?thesis using 2 by (simp add: utf8_encode_def rune_len_def cont_byte_def)
  next
    case 3
    let ?a = "r div 4096" and ?b = "r div 64 mod 64" and ?c = "r mod 64"
    have b: "?a < 16" "?b < 64" "?c < 64" using 3 by (auto simp: less_mult_imp_div_less)
    have "?a = r div 64 div 64" using div_mult2_eq [of r 64 64] by simp
    then have q: "r div 64 = 64 * ?a + ?b" by simp
    have "32 \<le> r div 64" using 3 by linarith
    moreover have "r div 64 < 864 \<or> 896 \<le> r div 64" using assms(2) unfolding surrogate_def by linarith
    ultimately have "?a = 0 \<longrightarrow> 32 \<le> ?b" "?a = 13 \<longrightarrow> ?b < 32" using q b by linarith+
    with b 3 show ?thesis by (auto simp: utf8_encode_def rune_len_def cont_byte_def)
  next
    case 4
    let ?a = "r div 262144" and ?b = "r div 4096 mod 64" and ?c = "r div 64 mod 64" and ?d = "r mod 64"
    have b: "?a < 5" "?b < 64" "?c < 64" "?d < 64" using 4 assms(1) by (auto simp: less_mult_imp_div_less)
    have "?a = r div 4096 div 64" using div_mult2_eq [of r 4096 64] by simp
    then have q: "r div 4096 = 64 * ?a + ?b" by simp
    have "16 \<le> r div 4096" "r div 4096 < 272" using 4 assms(1) by linarith+
    with q have "?a = 0 \<longrightarrow> 16 \<le> ?b" "?a = 4 \<longrightarrow> ?b < 16" by linarith+
    with b 4 show ?thesis by (auto simp: utf8_encode_def rune_len_def cont_byte_def)
  qed
  then show ?thesis by (rule rune_valid)
qed

lemma unhex_le: "unhex c \<le> 15"
  by (auto simp: unhex_def is_digit_def)

lemma hex4_less: "hex4 a b c d < 65536"
  using unhex_le [of a] unhex_le [of b] unhex_le [of c] unhex_le [of d] by (simp add: hex4_def)

lemma low_half_range: "low_half r s = Some p \<Longrightarrow> r < 65536 \<Longrightarrow> 65536 \<le> p \<and> p < 1114112"
  by (cases "(r, s)" rule: low_half.cases) (auto split: if_splits)

lemma rune_error_valid: "utf8_valid rune_error"
  using rune_len_error [of "[]"] by (intro rune_valid) (simp add: rune_error_def)

lemma body_ok_rest:
  "c \<noteq> bs \<Longrightarrow> body_ok (c # s) \<Longrightarrow> body_ok s"
  "body_ok (bs # CHR ''u'' # h1 # h2 # h3 # h4 # s) \<Longrightarrow> body_ok s"
  by (auto simp: body_ok_def bs_def split: if_splits)

lemma body_ok_high:
  assumes "\<forall>c \<in> set p. 128 \<le> code_of c" "body_ok (p @ s)"
  shows "body_ok s"
  using assms(2) by (auto simp: body_ok_def scan_high [OF assms(1)])

lemma unquote_valid:
  assumes "body_ok b"
  shows "utf8_valid (unquote b)"
  using assms
proof (induction "length b" arbitrary: b rule: less_induct)
  case less
  show ?case
  proof (cases b)
    case (Cons c s)
    show ?thesis
    proof (cases "c = bs")
      case True
      then have c: "c \<noteq> CHR 0x22" by (simp add: bs_def)
      from less(2) Cons True c obtain d t where s: "s = d # t" by (cases s) (auto simp: body_ok_def bs_def)
      show ?thesis
      proof (cases "d \<in> set (CHR 0x22 # bs # ''/bfnrt'')")
        case d: True
        with less(2) Cons True c s have "body_ok t" by (auto simp: body_ok_def)
        moreover from d have "code_of (unesc_char d) < 128 \<and> d \<noteq> CHR ''u''"
          by (simp, elim disjE) (simp_all add: unesc_char_def bs_def)
        ultimately show ?thesis using less(1) [of t] valid_append [OF ascii_valid [of "[unesc_char d]"]] Cons True s by simp
      next
        case d: False
        with less(2) Cons True c s obtain h1 h2 h3 h4 t' where h: "d = CHR ''u''" "t = h1 # h2 # h3 # h4 # t'" "body_ok t'"
          by (auto simp: body_ok_def split: list.splits if_splits)
        let ?r = "hex4 h1 h2 h3 h4"
        have l: "length t' < length b" by (simp add: Cons s h)
        note t' = less(1) [OF l h(3)]
        consider "\<not> surrogate ?r" | "surrogate ?r" "low_half ?r t' = None" | p where "surrogate ?r" "low_half ?r t' = Some p" by fastforce
        then show ?thesis
        proof cases
          case 1
          then have "utf8_valid (utf8_encode ?r)" using hex4_less [of h1 h2 h3 h4] by (intro utf8_encode_valid) auto
          with 1 t' show ?thesis using True by (simp add: Cons s h valid_append)
        next
          case 2
          with t' show ?thesis using True by (simp add: Cons s h valid_append rune_error_valid)
        next
          case 3
          then obtain a e f g u where u: "t' = bs # CHR ''u'' # a # e # f # g # u"
            by (cases "(?r, t')" rule: low_half.cases) (auto split: if_splits)
          have "utf8_valid (utf8_encode p)" using low_half_range [OF 3(2) hex4_less] by (intro utf8_encode_valid) (auto simp: surrogate_def)
          moreover have "utf8_valid (unquote u)" using less(1) [of u] body_ok_rest(2) h(3) by (simp add: Cons s h u)
          ultimately show ?thesis using 3 True by (simp add: Cons s h valid_append) (simp add: u valid_append)
        qed
      qed
    next
      case False
      let ?n = "rune_len (c # s)"
      consider "?n = 0" | "?n = 1" | "?n \<noteq> 0" "?n \<noteq> 1" by blast
      then have "body_ok (if ?n = 0 then s else drop ?n (c # s))"
      proof cases
        case 3
        have "\<forall>x \<in> set (take ?n (c # s)). 128 \<le> code_of x" using rune_bytes_high [OF refl 3] by blast
        from body_ok_high [OF this, of "drop ?n (c # s)"] less(2) Cons 3 show ?thesis by simp
      qed (use body_ok_rest(1) [OF False] less(2) Cons in simp_all)
      then have v: "utf8_valid (unquote (if ?n = 0 then s else drop ?n (c # s)))" using less(1) by (simp add: Cons)
      show ?thesis
      proof (cases "?n = 0")
        case True
        with v \<open>c \<noteq> bs\<close> show ?thesis by (simp add: Cons valid_append rune_error_valid)
      next
        case n: False
        with \<open>c \<noteq> bs\<close> have "unquote b = take ?n (c # s) @ unquote (drop ?n (c # s))" by (simp add: Cons Let_def)
        with v n take_rune_valid [OF refl n] show ?thesis by (simp add: valid_append del: unquote.simps)
      qed
    qed
  qed simp
qed

lemma scan_number_ok: "scan_number s = Some (b, r) \<Longrightarrow> number_ok b"
  using scan_number_prefix(4) [of s b r "[]"] by (simp add: number_ok_def)

lemma parse_tree_ok:
  "parse_value n s = Some (t, r) \<Longrightarrow> tree_ok t"
  "parse_elems n s = Some (ts, r) \<Longrightarrow> \<forall>t \<in> set ts. tree_ok t"
  "parse_members n s = Some (ms, r) \<Longrightarrow> \<forall>m \<in> set ms. body_ok (fst m) \<and> tree_ok (snd m)"
proof (induction n s and n s and n s arbitrary: t r and ts r and ms r rule: parse_value_parse_elems_parse_members.induct)
  case (2 n s)
  then show ?case
    by (auto simp: scan_word_def split: list.splits if_splits option.splits dest: scan_body_ok scan_number_ok)
next
  case (4 n s)
  then show ?case by (auto split: list.splits if_splits option.splits)
next
  case (6 n s)
  then show ?case by (auto split: list.splits if_splits option.splits) (fastforce dest: scan_body_ok)+
qed simp_all

lemma json_parse_ok: "json_parse s = Inr t \<Longrightarrow> tree_ok t"
  by (auto simp: json_parse_def split: option.splits if_splits dest: parse_tree_ok(1))

lemma json_first_ok: "json_first s = Inr t \<Longrightarrow> tree_ok t"
  by (auto simp: json_first_def split: option.splits if_splits dest: parse_tree_ok(1))

section \<open>Decoding into Go values\<close>

text \<open>
  A member sets the field whose name it equals up to case (two letters outside ASCII fold to S and K).
  Members are read in order; null leaves a string or a structure as it is and clears a slice or a map;
  a value of another kind is an error.
\<close>

function (sequential) fold_name :: "string \<Rightarrow> string" where
  "fold_name [] = []"
| "fold_name (c # s) =
     (if take 2 (c # s) = [CHR 0xC5, CHR 0xBF] then CHR ''s'' # fold_name (drop 1 s)
      else if take 3 (c # s) = [CHR 0xE2, CHR 0x84, CHR 0xAA] then CHR ''k'' # fold_name (drop 2 s)
      else lower_char c # fold_name s)"
  by pat_completeness auto

termination fold_name by (relation "measure length") auto

definition is_field :: "string \<Rightarrow> string \<Rightarrow> bool" where "is_field name k = (fold_name k = fold_name name)"

definition type_error :: goerr where "type_error = Plain ''json: cannot unmarshal''"

definition dec_string :: "jtree \<Rightarrow> string \<Rightarrow> string result" where
  "dec_string t old = (case t of TStr b \<Rightarrow> Inr (unquote b) | TNull \<Rightarrow> Inr old | _ \<Rightarrow> Inl type_error)"

fun dec_elems :: "jtree list \<Rightarrow> string list result" where
  "dec_elems [] = Inr []"
| "dec_elems (t # ts) =
     (case dec_string t [] of
        Inl e \<Rightarrow> Inl e
      | Inr s \<Rightarrow> (case dec_elems ts of Inl e \<Rightarrow> Inl e | Inr ss \<Rightarrow> Inr (s # ss)))"

definition dec_strings :: "jtree \<Rightarrow> string list result" where
  "dec_strings t = (case t of TArr ts \<Rightarrow> dec_elems ts | TNull \<Rightarrow> Inr [] | _ \<Rightarrow> Inl type_error)"

fun dec_members :: "(string \<Rightarrow> jtree \<Rightarrow> 'a \<Rightarrow> 'a result) \<Rightarrow> (string \<times> jtree) list \<Rightarrow> 'a \<Rightarrow> 'a result" where
  "dec_members f [] x = Inr x"
| "dec_members f ((k, t) # ms) x = (case f (unquote k) t x of Inl e \<Rightarrow> Inl e | Inr y \<Rightarrow> dec_members f ms y)"

definition dec_struct :: "(string \<Rightarrow> jtree \<Rightarrow> 'a \<Rightarrow> 'a result) \<Rightarrow> jtree \<Rightarrow> 'a \<Rightarrow> 'a result" where
  "dec_struct f t x = (case t of TObj ms \<Rightarrow> dec_members f ms x | TNull \<Rightarrow> Inr x | _ \<Rightarrow> Inl type_error)"

definition dec_entry :: "(jtree \<Rightarrow> 'v result) \<Rightarrow> string \<Rightarrow> jtree \<Rightarrow> 'v gomap \<Rightarrow> 'v gomap result" where
  "dec_entry dec k t m = (case dec t of Inl e \<Rightarrow> Inl e | Inr v \<Rightarrow> Inr (gm_put k v m))"

definition dec_map :: "(jtree \<Rightarrow> 'v result) \<Rightarrow> jtree \<Rightarrow> 'v gomap option \<Rightarrow> 'v gomap option result" where
  "dec_map dec t old =
     (case t of
        TObj ms \<Rightarrow>
          (case dec_members (dec_entry dec) ms (case old of Some m \<Rightarrow> m | None \<Rightarrow> []) of Inl e \<Rightarrow> Inl e | Inr m \<Rightarrow> Inr (Some m))
      | TNull \<Rightarrow> Inr None
      | _ \<Rightarrow> Inl type_error)"

definition dec_int :: "jtree \<Rightarrow> int \<Rightarrow> int result" where
  "dec_int t old =
     (case t of
        TNum b \<Rightarrow> (case ParseInt64 b of Inl _ \<Rightarrow> Inl type_error | Inr n \<Rightarrow> Inr n)
      | TNull \<Rightarrow> Inr old
      | _ \<Rightarrow> Inl type_error)"

text \<open>The document \<^verbatim>\<open>json.Marshal\<close> writes for a value without times, floats and raw messages.\<close>

fun all_some :: "'a option list \<Rightarrow> 'a list option" where
  "all_some [] = Some []"
| "all_some (x # xs) = (case x of None \<Rightarrow> None | Some y \<Rightarrow> map_option (Cons y) (all_some xs))"

fun json_tree :: "json \<Rightarrow> jtree option" where
  "json_tree JNull = Some TNull"
| "json_tree (JBool b) = Some (if b then TTrue else TFalse)"
| "json_tree (JInt i) = Some (TNum (FormatInt i))"
| "json_tree (JStr s) = Some (json_string s)"
| "json_tree (JArr js) = map_option TArr (all_some (map json_tree js))"
| "json_tree (JObj ms) = map_option TObj (all_some (map (\<lambda>m. map_option (Pair (quote (fst m))) (json_tree (snd m))) ms))"
| "json_tree _ = None"

text \<open>\<^verbatim>\<open>Encoder.Encode\<close> ends the document with a line break.\<close>

definition json_body :: "json \<Rightarrow> string option" where
  "json_body j = map_option (\<lambda>t. compact t @ [CHR 0x0A]) (json_tree j)"

lemma all_some_map: "\<forall>x \<in> set xs. f x = Some (g x) \<Longrightarrow> all_some (map f xs) = Some (map g xs)"
  by (induction xs) simp_all

lemma dec_string_json [simp]: "dec_string (json_string s) old = Inr (utf8_clean s)"
  by (simp add: dec_string_def json_string_def unquote_quote)

lemma dec_elems_json: "dec_elems (map json_string ss) = Inr (map utf8_clean ss)"
  by (induction ss) simp_all

lemma dec_strings_json [simp]: "dec_strings (TArr (map json_string ss)) = Inr (map utf8_clean ss)"
  by (simp add: dec_strings_def dec_elems_json)

lemma dec_string_text: "tree_ok t \<Longrightarrow> utf8_clean old = old \<Longrightarrow> dec_string t old = Inr s \<Longrightarrow> utf8_clean s = s"
  using unquote_valid by (auto simp: dec_string_def utf8_valid_def split: jtree.splits)

lemma dec_elems_text: "\<forall>t \<in> set ts. tree_ok t \<Longrightarrow> dec_elems ts = Inr ss \<Longrightarrow> map utf8_clean ss = ss"
  by (induction ts arbitrary: ss) (auto split: sum.splits dest: dec_string_text [of _ "[]"])

lemma dec_strings_text: "tree_ok t \<Longrightarrow> dec_strings t = Inr ss \<Longrightarrow> map utf8_clean ss = ss"
  using dec_elems_text by (auto simp: dec_strings_def split: jtree.splits)

lemma dec_members_append:
  "dec_members f (ms @ ns) x = (case dec_members f ms x of Inl e \<Rightarrow> Inl e | Inr y \<Rightarrow> dec_members f ns y)"
  by (induction f ms x rule: dec_members.induct) (simp_all split: sum.splits)

lemma plain_unquote:
  assumes "\<forall>c \<in> set s. code_of c < 128 \<and> c \<noteq> bs"
  shows "unquote s = s"
  using assms
proof (induction s)
  case (Cons c s)
  then have "rune_len (c # s) = 1" by (simp add: rune_len_ascii)
  with Cons show ?case by (simp add: unquote.simps)
qed simp

lemma plain_body:
  assumes "\<forall>c \<in> set s. 32 \<le> code_of c \<and> c \<noteq> bs \<and> c \<noteq> CHR 0x22"
  shows "body_ok s"
  using assms
proof (induction s)
  case (Cons c s)
  then show ?case by (simp add: body_ok_def scan_body.simps)
qed (simp add: body_ok_def scan_body.simps)

lemma dec_members_inv:
  assumes "\<And>k t y z. P y \<Longrightarrow> body_ok k \<Longrightarrow> tree_ok t \<Longrightarrow> f (unquote k) t y = Inr z \<Longrightarrow> P z"
    and "\<forall>m \<in> set ms. body_ok (fst m) \<and> tree_ok (snd m)" "P x" "dec_members f ms x = Inr y"
  shows "P y"
  using assms(2-4)
proof (induction ms arbitrary: x)
  case (Cons m ms)
  from Cons(4) obtain z where z: "f (unquote (fst m)) (snd m) x = Inr z" "dec_members f ms z = Inr y"
    by (cases m) (auto split: sum.splits)
  with Cons assms(1) [OF Cons(3) _ _ z(1)] show ?case by simp
qed simp

lemmas text_simps = unquote.simps utf8_clean.simps quote.simps scan_body.simps parse_value.simps parse_elems.simps parse_members.simps

declare text_simps [simp del]
declare unquote.simps(1) [simp] utf8_clean.simps(1) [simp] quote.simps(1) [simp]

lemma tree_depth_obj: "\<forall>m \<in> set ms. tree_depth (snd m) \<le> n \<Longrightarrow> tree_depth (TObj ms) \<le> Suc n"
  by auto

lemma tree_depth_string [simp]: "tree_depth (json_string s) = 0"
  by (simp add: json_string_def)

section \<open>Integers as numbers\<close>

lemma is_digit_dec: "is_digit c \<longleftrightarrow> dec_digit c \<noteq> None"
proof -
  have "(of_char c :: int) = int (code_of c)" by (simp add: of_nat_of_char)
  then show ?thesis by (auto simp: is_digit_def dec_digit_def Let_def)
qed

lemma format_dec_is_digit: "0 \<le> n \<Longrightarrow> c \<in> set (format_dec n) \<Longrightarrow> is_digit c"
  using format_dec_digits is_digit_dec by blast

lemma format_dec_head:
  assumes "0 < n"
  shows "hd (format_dec n) \<noteq> CHR ''0''"
  using assms
proof (induction n rule: format_dec.induct)
  case (1 n)
  show ?case
  proof (cases "n < 10")
    case True
    with 1(2) have "dec_char n \<noteq> CHR ''0''" using dec_digit_char [of n] by (auto simp: dec_digit_def Let_def)
    then show ?thesis using True by (simp add: format_dec.simps [of n])
  next
    case False
    with 1 have "hd (format_dec (n div 10)) \<noteq> CHR ''0''" by simp
    then show ?thesis using False by (simp add: format_dec.simps [of n])
  qed
qed

lemma scan_format_dec:
  assumes "0 \<le> n"
  shows "scan_int (format_dec n) = Some (format_dec n, [])" "is_digit (hd (format_dec n))"
proof -
  have all: "\<forall>c \<in> set (format_dec n). is_digit c" using format_dec_is_digit [OF assms] by blast
  then show "is_digit (hd (format_dec n))" by simp
  have d: "scan_digits (format_dec n) = Some (format_dec n, [])" 
  proof -
    have "takeWhile is_digit (format_dec n) = format_dec n" "dropWhile is_digit (format_dec n) = []"
      using all by (auto simp: takeWhile_eq_all_conv dropWhile_eq_Nil_conv)
    then show ?thesis by (simp only: scan_digits_def Let_def format_dec_nonempty if_False)
  qed
  show "scan_int (format_dec n) = Some (format_dec n, [])"
  proof (cases "n = 0")
    case True
    then show ?thesis by (simp add: scan_int_def format_dec.simps dec_char_def char_of_def bit_numeral_simps bit_0)
  next
    case False
    with assms have "hd (format_dec n) \<noteq> CHR ''0''" by (intro format_dec_head) simp
    then show ?thesis using d by (cases "format_dec n") (simp_all add: scan_int_def)
  qed
qed

lemma FormatInt_number: "number_ok (FormatInt n)"
proof -
  have e: "scan_frac [] = Some ([], [])" "scan_exp [] = Some ([], [])" by (simp_all add: scan_frac_def scan_exp_def)
  show ?thesis
  proof (cases "n < 0")
    case True
    then show ?thesis using scan_format_dec(1) [of "- n"] e by (simp add: number_ok_def FormatInt_def scan_number_def scan_sign_def)
  next
    case False
    then have h: "hd (format_dec n) \<noteq> CHR ''-''" using digit_neq(1) [OF scan_format_dec(2) [of n]] by auto
    have "scan_sign (format_dec n) = ([], format_dec n)" using h by (cases "format_dec n") (simp_all add: scan_sign_def)
    with False show ?thesis using scan_format_dec(1) [of n] e by (simp add: number_ok_def FormatInt_def scan_number_def)
  qed
qed

section \<open>Base64 text\<close>

lemma RawURL_graph:
  assumes "x \<in> set (RawURL_EncodeToString s)"
  shows "45 \<le> code_of x" "code_of x \<le> 122" "x \<noteq> CHR ''.''"
proof -
  have "\<forall>x \<in> set (sextets (map of_char s)). x < (64 :: nat)" by (rule sextets_bound) (simp add: of_char_less)
  with assms obtain v where v: "v < 64" "x = b64_char v" by (auto simp: RawURL_EncodeToString_def)
  show "45 \<le> code_of x" "code_of x \<le> 122" unfolding v(2) using b64_char_code [OF v(1)] v(1) by (auto split: if_splits)
  show "x \<noteq> CHR ''.''" by (rule RawURL_alphabet(2) [OF assms])
qed

lemma RawURL_valid: "utf8_valid (RawURL_EncodeToString s)"
  by (rule ascii_valid) (use RawURL_graph(2) in fastforce)

end
