(* ===== verification/CredJson.thy ===== *)
theory CredJson
  imports GoJson
begin

text \<open>
  The credentials file as JSON (the structures of \<^verbatim>\<open>cliauth/credstore.go\<close> with their tags). A structure is
  written as \<^verbatim>\<open>json.MarshalIndent\<close> writes it, members in field order, map keys sorted, empty fields left
  out where the tag says so, and is read as \<^verbatim>\<open>json.Unmarshal\<close> reads it. The text form of a time is a pair
  of functions; what is relied on is that a written time is read back.
\<close>

section \<open>Data\<close>

record Credentials =
  cr_Issuer :: string
  cr_ClientID :: string
  cr_RedirectURIs :: "string list"
  cr_AccessToken :: string
  cr_RefreshToken :: string
  cr_ExpiresAt :: gotime
  cr_Scope :: string

definition zero_Credentials :: Credentials where
  "zero_Credentials =
     \<lparr>cr_Issuer = [], cr_ClientID = [], cr_RedirectURIs = [], cr_AccessToken = [], cr_RefreshToken = [],
      cr_ExpiresAt = 0, cr_Scope = []\<rparr>"

record cred_file =
  st_Current :: string
  st_Hosts :: "Credentials gomap option"

record time_codec =
  tc_Format :: "gotime \<Rightarrow> string result"
  tc_Parse :: "string \<Rightarrow> gotime result"

definition time_codec_ok :: "time_codec \<Rightarrow> bool" where
  "time_codec_ok cd = (\<forall>t txt. tc_Format cd t = Inr txt \<longrightarrow> body_ok txt \<and> tc_Parse cd txt = Inr t)"

section \<open>Writing\<close>

definition text_member :: "string \<Rightarrow> string \<Rightarrow> (string \<times> jtree) list" where
  "text_member name s = (if s = [] then [] else [(name, json_string s)])"

definition cred_members :: "Credentials \<Rightarrow> string option \<Rightarrow> (string \<times> jtree) list" where
  "cred_members c expires =
     [(''issuer'', json_string (cr_Issuer c)), (''client_id'', json_string (cr_ClientID c))] @
     (if cr_RedirectURIs c = [] then [] else [(''redirect_uris'', TArr (map json_string (cr_RedirectURIs c)))]) @
     text_member ''access_token'' (cr_AccessToken c) @
     text_member ''refresh_token'' (cr_RefreshToken c) @
     (case expires of None \<Rightarrow> [] | Some txt \<Rightarrow> [(''expires_at'', TStr txt)]) @
     text_member ''scope'' (cr_Scope c)"

definition cred_tree :: "time_codec \<Rightarrow> Credentials \<Rightarrow> jtree result" where
  "cred_tree cd c =
     (if time_IsZero (cr_ExpiresAt c) then Inr (TObj (cred_members c None))
      else (case tc_Format cd (cr_ExpiresAt c) of
              Inl err \<Rightarrow> Inl err
            | Inr txt \<Rightarrow> Inr (TObj (cred_members c (Some txt)))))"

fun host_members :: "time_codec \<Rightarrow> Credentials gomap \<Rightarrow> string list \<Rightarrow> (string \<times> jtree) list result" where
  "host_members cd m [] = Inr []"
| "host_members cd m (k # ks) =
     (case gm_get m k of
        None \<Rightarrow> host_members cd m ks
      | Some c \<Rightarrow>
          (case cred_tree cd c of
             Inl err \<Rightarrow> Inl err
           | Inr t \<Rightarrow> (case host_members cd m ks of Inl err \<Rightarrow> Inl err | Inr ms \<Rightarrow> Inr ((quote k, t) # ms))))"

definition store_MarshalIndent :: "time_codec \<Rightarrow> cred_file \<Rightarrow> string result" where
  "store_MarshalIndent cd st =
     (case (case st_Hosts st of
              None \<Rightarrow> Inr TNull
            | Some m \<Rightarrow> (case host_members cd m (sort_strings (map fst m)) of Inl err \<Rightarrow> Inl err | Inr ms \<Rightarrow> Inr (TObj ms))) of
        Inl err \<Rightarrow> Inl err
      | Inr hosts \<Rightarrow> Inr (indented (TObj [(''current'', json_string (st_Current st)), (''hosts'', hosts)])))"

section \<open>Reading\<close>

definition dec_time :: "time_codec \<Rightarrow> jtree \<Rightarrow> gotime \<Rightarrow> gotime result" where
  "dec_time cd t old = (case t of TStr b \<Rightarrow> tc_Parse cd b | TNull \<Rightarrow> Inr old | _ \<Rightarrow> Inl type_error)"

definition cred_field :: "time_codec \<Rightarrow> string \<Rightarrow> jtree \<Rightarrow> Credentials \<Rightarrow> Credentials result" where
  "cred_field cd k t c =
     (if is_field ''issuer'' k then map_sum id (\<lambda>s. c\<lparr>cr_Issuer := s\<rparr>) (dec_string t (cr_Issuer c))
      else if is_field ''client_id'' k then map_sum id (\<lambda>s. c\<lparr>cr_ClientID := s\<rparr>) (dec_string t (cr_ClientID c))
      else if is_field ''redirect_uris'' k then map_sum id (\<lambda>ss. c\<lparr>cr_RedirectURIs := ss\<rparr>) (dec_strings t)
      else if is_field ''access_token'' k then map_sum id (\<lambda>s. c\<lparr>cr_AccessToken := s\<rparr>) (dec_string t (cr_AccessToken c))
      else if is_field ''refresh_token'' k then map_sum id (\<lambda>s. c\<lparr>cr_RefreshToken := s\<rparr>) (dec_string t (cr_RefreshToken c))
      else if is_field ''expires_at'' k then map_sum id (\<lambda>x. c\<lparr>cr_ExpiresAt := x\<rparr>) (dec_time cd t (cr_ExpiresAt c))
      else if is_field ''scope'' k then map_sum id (\<lambda>s. c\<lparr>cr_Scope := s\<rparr>) (dec_string t (cr_Scope c))
      else Inr c)"

definition dec_cred :: "time_codec \<Rightarrow> jtree \<Rightarrow> Credentials result" where
  "dec_cred cd t = dec_struct (cred_field cd) t zero_Credentials"

definition store_field :: "time_codec \<Rightarrow> string \<Rightarrow> jtree \<Rightarrow> cred_file \<Rightarrow> cred_file result" where
  "store_field cd k t st =
     (if is_field ''current'' k then map_sum id (\<lambda>s. st\<lparr>st_Current := s\<rparr>) (dec_string t (st_Current st))
      else if is_field ''hosts'' k then map_sum id (\<lambda>m. st\<lparr>st_Hosts := m\<rparr>) (dec_map (dec_cred cd) t (st_Hosts st))
      else Inr st)"

definition store_Unmarshal :: "time_codec \<Rightarrow> string \<Rightarrow> cred_file result" where
  "store_Unmarshal cd data =
     (case json_parse data of
        Inl err \<Rightarrow> Inl err
      | Inr t \<Rightarrow> dec_struct (store_field cd) t \<lparr>st_Current = [], st_Hosts = None\<rparr>)"

section \<open>What is written is read back\<close>

text \<open>Text that is not UTF-8 is replaced on the way.\<close>

definition clean_creds :: "Credentials \<Rightarrow> Credentials" where
  "clean_creds c =
     c\<lparr>cr_Issuer := utf8_clean (cr_Issuer c), cr_ClientID := utf8_clean (cr_ClientID c),
       cr_RedirectURIs := map utf8_clean (cr_RedirectURIs c), cr_AccessToken := utf8_clean (cr_AccessToken c),
       cr_RefreshToken := utf8_clean (cr_RefreshToken c), cr_Scope := utf8_clean (cr_Scope c)\<rparr>"

definition clean_hosts :: "Credentials gomap \<Rightarrow> string list \<Rightarrow> Credentials gomap \<Rightarrow> Credentials gomap" where
  "clean_hosts m ks acc =
     fold (\<lambda>k. case gm_get m k of None \<Rightarrow> id | Some c \<Rightarrow> gm_put (utf8_clean k) (clean_creds c)) ks acc"

definition clean_store :: "cred_file \<Rightarrow> cred_file" where
  "clean_store st =
     \<lparr>st_Current = utf8_clean (st_Current st),
      st_Hosts = map_option (\<lambda>m. clean_hosts m (sort_strings (map fst m)) []) (st_Hosts st)\<rparr>"

lemma field_names [simp]:
  "unquote ''issuer'' = ''issuer''" "unquote ''client_id'' = ''client_id''" "unquote ''redirect_uris'' = ''redirect_uris''"
  "unquote ''access_token'' = ''access_token''" "unquote ''refresh_token'' = ''refresh_token''"
  "unquote ''expires_at'' = ''expires_at''" "unquote ''scope'' = ''scope''" "unquote ''current'' = ''current''" "unquote ''hosts'' = ''hosts''"
  by (rule plain_unquote, simp add: bs_def)+

lemma field_bodies [simp]:
  "body_ok ''issuer''" "body_ok ''client_id''" "body_ok ''redirect_uris''" "body_ok ''access_token''" "body_ok ''refresh_token''"
  "body_ok ''expires_at''" "body_ok ''scope''" "body_ok ''current''" "body_ok ''hosts''"
  by (rule plain_body, simp add: bs_def)+

lemma cred_field_simps [simp]:
  "cred_field cd ''issuer'' t c = map_sum id (\<lambda>s. c\<lparr>cr_Issuer := s\<rparr>) (dec_string t (cr_Issuer c))"
  "cred_field cd ''client_id'' t c = map_sum id (\<lambda>s. c\<lparr>cr_ClientID := s\<rparr>) (dec_string t (cr_ClientID c))"
  "cred_field cd ''redirect_uris'' t c = map_sum id (\<lambda>ss. c\<lparr>cr_RedirectURIs := ss\<rparr>) (dec_strings t)"
  "cred_field cd ''access_token'' t c = map_sum id (\<lambda>s. c\<lparr>cr_AccessToken := s\<rparr>) (dec_string t (cr_AccessToken c))"
  "cred_field cd ''refresh_token'' t c = map_sum id (\<lambda>s. c\<lparr>cr_RefreshToken := s\<rparr>) (dec_string t (cr_RefreshToken c))"
  "cred_field cd ''expires_at'' t c = map_sum id (\<lambda>x. c\<lparr>cr_ExpiresAt := x\<rparr>) (dec_time cd t (cr_ExpiresAt c))"
  "cred_field cd ''scope'' t c = map_sum id (\<lambda>s. c\<lparr>cr_Scope := s\<rparr>) (dec_string t (cr_Scope c))"
  by (simp_all add: cred_field_def is_field_def lower_char_def)

lemma store_field_simps [simp]:
  "store_field cd ''current'' t st = map_sum id (\<lambda>s. st\<lparr>st_Current := s\<rparr>) (dec_string t (st_Current st))"
  "store_field cd ''hosts'' t st = map_sum id (\<lambda>m. st\<lparr>st_Hosts := m\<rparr>) (dec_map (dec_cred cd) t (st_Hosts st))"
  by (simp_all add: store_field_def is_field_def lower_char_def)

lemma text_member_read:
  assumes "\<And>t. cred_field cd (unquote name) t c = map_sum id (\<lambda>s. put s c) (dec_string t old)" "s = [] \<Longrightarrow> put [] c = c"
  shows "dec_members (cred_field cd) (text_member name s) c = Inr (put (utf8_clean s) c)"
  using assms by (simp add: text_member_def)

lemma cred_members_read:
  assumes "case expires of None \<Rightarrow> cr_ExpiresAt c = 0 | Some txt \<Rightarrow> tc_Parse cd txt = Inr (cr_ExpiresAt c)"
  shows "dec_members (cred_field cd) (cred_members c expires) zero_Credentials = Inr (clean_creds c)"
proof -
  let ?d = "\<lambda>ms x. dec_members (cred_field cd) ms x"
  have a: "?d (text_member ''access_token'' s) x = Inr (x\<lparr>cr_AccessToken := utf8_clean s\<rparr>)" if "cr_AccessToken x = []" for s x
    using that text_member_read [of cd "''access_token''" x "\<lambda>s x. x\<lparr>cr_AccessToken := s\<rparr>" "cr_AccessToken x" s] by simp
  have r: "?d (text_member ''refresh_token'' s) x = Inr (x\<lparr>cr_RefreshToken := utf8_clean s\<rparr>)" if "cr_RefreshToken x = []" for s x
    using that text_member_read [of cd "''refresh_token''" x "\<lambda>s x. x\<lparr>cr_RefreshToken := s\<rparr>" "cr_RefreshToken x" s] by simp
  have o: "?d (text_member ''scope'' s) x = Inr (x\<lparr>cr_Scope := utf8_clean s\<rparr>)" if "cr_Scope x = []" for s x
    using that text_member_read [of cd "''scope''" x "\<lambda>s x. x\<lparr>cr_Scope := s\<rparr>" "cr_Scope x" s] by simp
  have u: "?d (if us = [] then [] else [(''redirect_uris'', TArr (map json_string us))]) x = Inr (x\<lparr>cr_RedirectURIs := map utf8_clean us\<rparr>)"
    if "cr_RedirectURIs x = []" for us x using that by simp
  have e: "?d (case expires of None \<Rightarrow> [] | Some txt \<Rightarrow> [(''expires_at'', TStr txt)]) x = Inr (x\<lparr>cr_ExpiresAt := cr_ExpiresAt c\<rparr>)"
    if "cr_ExpiresAt x = 0" for x using that assms by (simp add: dec_time_def split: option.splits)
  show ?thesis
    unfolding cred_members_def dec_members_append
    by (simp add: a r o u e zero_Credentials_def clean_creds_def)
qed

lemma cred_members_ok:
  assumes "case expires of None \<Rightarrow> True | Some txt \<Rightarrow> body_ok txt"
  shows "tree_ok (TObj (cred_members c expires))" "tree_depth (TObj (cred_members c expires)) \<le> 2"
proof -
  show "tree_ok (TObj (cred_members c expires))"
    using assms by (auto simp: cred_members_def text_member_def split: option.splits)
  have "\<forall>m \<in> set (cred_members c expires). tree_depth (snd m) \<le> 1"
    by (auto simp: cred_members_def text_member_def split: option.splits)
  from tree_depth_obj [OF this] show "tree_depth (TObj (cred_members c expires)) \<le> 2" by simp
qed

lemma cred_tree_read:
  assumes "time_codec_ok cd" "cred_tree cd c = Inr t"
  shows "dec_cred cd t = Inr (clean_creds c)" "tree_ok t" "tree_depth t \<le> 2"
proof -
  from assms(2) obtain expires where t: "t = TObj (cred_members c expires)" and
      e: "case expires of None \<Rightarrow> cr_ExpiresAt c = 0 | Some txt \<Rightarrow> tc_Format cd (cr_ExpiresAt c) = Inr txt"
    by (auto simp: cred_tree_def time_IsZero_def split: if_splits sum.splits)
  from assms(1) e have p: "case expires of None \<Rightarrow> cr_ExpiresAt c = 0 | Some txt \<Rightarrow> tc_Parse cd txt = Inr (cr_ExpiresAt c)"
      and b: "case expires of None \<Rightarrow> True | Some txt \<Rightarrow> body_ok txt"
    by (auto simp: time_codec_ok_def split: option.splits)
  show "dec_cred cd t = Inr (clean_creds c)" using cred_members_read [OF p] by (simp add: dec_cred_def dec_struct_def t)
  show "tree_ok t" "tree_depth t \<le> 2" using cred_members_ok [OF b] unfolding t by blast+
qed

lemma host_members_read:
  assumes "time_codec_ok cd" "host_members cd m ks = Inr ms"
  shows "dec_members (dec_entry (dec_cred cd)) ms acc = Inr (clean_hosts m ks acc)"
    "\<forall>x \<in> set ms. body_ok (fst x) \<and> tree_ok (snd x) \<and> tree_depth (snd x) \<le> 2"
  using assms(2)
proof (induction ks arbitrary: ms acc)
  case (Cons k ks)
  { case 1 then show ?case using Cons(1) cred_tree_read(1) [OF assms(1)]
      by (auto simp: clean_hosts_def dec_entry_def unquote_quote split: option.splits sum.splits) }
  { case 2 then show ?case using Cons(2) cred_tree_read(2,3) [OF assms(1)] by (fastforce split: option.splits sum.splits) }
qed (simp_all add: clean_hosts_def)

lemma store_read:
  assumes "time_codec_ok cd" "store_MarshalIndent cd st = Inr data"
  shows "store_Unmarshal cd data = Inr (clean_store st)"
proof -
  let ?t = "\<lambda>hosts. TObj [(''current'', json_string (st_Current st)), (''hosts'', hosts)]"
  from assms(2) obtain hosts where d: "data = indented (?t hosts)" and
      h: "case st_Hosts st of None \<Rightarrow> hosts = TNull
          | Some m \<Rightarrow> \<exists>ms. host_members cd m (sort_strings (map fst m)) = Inr ms \<and> hosts = TObj ms"
    by (auto simp: store_MarshalIndent_def split: option.splits sum.splits)
  have "tree_ok hosts \<and> tree_depth hosts \<le> 3 \<and>
    dec_map (dec_cred cd) hosts None = Inr (map_option (\<lambda>m. clean_hosts m (sort_strings (map fst m)) []) (st_Hosts st))"
  proof (cases "st_Hosts st")
    case None
    with h show ?thesis by (simp add: dec_map_def)
  next
    case (Some m)
    with h obtain ms where ms: "host_members cd m (sort_strings (map fst m)) = Inr ms" "hosts = TObj ms" by auto
    note r = host_members_read [OF assms(1) ms(1)]
    have "tree_depth (TObj ms) \<le> Suc 2" by (rule tree_depth_obj) (use r(2) in blast)
    with r ms(2) Some show ?thesis by (simp add: dec_map_def)
  qed
  then have k: "tree_ok (?t hosts)" "tree_depth (?t hosts) \<le> 10000" and
      m: "dec_map (dec_cred cd) hosts None = Inr (map_option (\<lambda>m. clean_hosts m (sort_strings (map fst m)) []) (st_Hosts st))"
    by simp_all
  show ?thesis
    unfolding store_Unmarshal_def d json_parse_indented [OF k] by (simp add: dec_struct_def m clean_store_def)
qed

section \<open>What is read is text\<close>

lemma clean_creds_clean [simp]: "clean_creds (clean_creds c) = clean_creds c"
  by (simp add: clean_creds_def utf8_clean_idem)

lemma clean_creds_simps [simp]:
  "cr_Issuer (clean_creds c) = utf8_clean (cr_Issuer c)" "cr_ExpiresAt (clean_creds c) = cr_ExpiresAt c"
  "cr_AccessToken (clean_creds c) = utf8_clean (cr_AccessToken c)" "cr_ClientID (clean_creds c) = utf8_clean (cr_ClientID c)"
  "cr_RefreshToken (clean_creds c) = utf8_clean (cr_RefreshToken c)" "cr_Scope (clean_creds c) = utf8_clean (cr_Scope c)"
  "cr_RedirectURIs (clean_creds c) = map utf8_clean (cr_RedirectURIs c)"
  by (simp_all add: clean_creds_def)

definition store_text :: "cred_file \<Rightarrow> bool" where
  "store_text st =
     (case st_Hosts st of
        None \<Rightarrow> True
      | Some m \<Rightarrow> gm_wf m \<and> (\<forall>(k, c) \<in> set m. utf8_valid k \<and> clean_creds c = c))"

lemma clean_creds_iff:
  "clean_creds c = c \<longleftrightarrow>
   utf8_clean (cr_Issuer c) = cr_Issuer c \<and> utf8_clean (cr_ClientID c) = cr_ClientID c \<and>
   map utf8_clean (cr_RedirectURIs c) = cr_RedirectURIs c \<and> utf8_clean (cr_AccessToken c) = cr_AccessToken c \<and>
   utf8_clean (cr_RefreshToken c) = cr_RefreshToken c \<and> utf8_clean (cr_Scope c) = cr_Scope c"
  by (cases c) (simp add: clean_creds_def)

lemma cred_field_text:
  assumes "clean_creds c = c" "tree_ok t" "cred_field cd k t c = Inr c'"
  shows "clean_creds c' = c'"
proof -
  note valid = dec_string_text [OF assms(2)] dec_strings_text [OF assms(2)]
  from assms(3,1) show ?thesis
    unfolding cred_field_def clean_creds_iff
    by (simp add: map_sum_def split: if_splits sum.splits) (clarify, (frule (1) valid(1) | frule valid(2))?, simp)+
qed

lemma dec_cred_text:
  assumes "tree_ok t" "dec_cred cd t = Inr c"
  shows "clean_creds c = c"
proof -
  have z: "clean_creds zero_Credentials = zero_Credentials" by (simp add: clean_creds_def zero_Credentials_def)
  show ?thesis
  proof (cases t)
    case (TObj ms)
    with assms have "dec_members (cred_field cd) ms zero_Credentials = Inr c" by (simp add: dec_cred_def dec_struct_def)
    from dec_members_inv [where P = "\<lambda>c. clean_creds c = c", OF cred_field_text _ z this] assms(1) TObj show ?thesis by simp
  qed (use assms z in \<open>auto simp: dec_cred_def dec_struct_def\<close>)
qed

lemma dec_entry_text:
  assumes "gm_wf m \<and> (\<forall>(k, c) \<in> set m. utf8_valid k \<and> clean_creds c = c)" "body_ok k" "tree_ok t" "dec_entry (dec_cred cd) (unquote k) t m = Inr m'"
  shows "gm_wf m' \<and> (\<forall>(k, c) \<in> set m'. utf8_valid k \<and> clean_creds c = c)"
proof -
  from assms(4) obtain c where c: "dec_cred cd t = Inr c" "m' = gm_put (unquote k) c m" by (auto simp: dec_entry_def split: sum.splits)
  then have wf: "gm_wf m'" using assms(1) by simp
  have "utf8_valid x \<and> clean_creds y = y" if "(x, y) \<in> set m'" for x y
  proof -
    have "gm_get m' x = Some y" using that wf by (simp add: gm_get_in_set)
    then have "x = unquote k \<and> y = c \<or> (x, y) \<in> set m" using c(2) assms(1) by (auto simp: gm_get_in_set split: if_splits)
    then show ?thesis using assms(1) unquote_valid [OF assms(2)] dec_cred_text [OF assms(3) c(1)] by auto
  qed
  with wf show ?thesis by auto
qed

lemma dec_map_text:
  assumes "tree_ok t" "case old of None \<Rightarrow> True | Some m \<Rightarrow> gm_wf m \<and> (\<forall>(k, c) \<in> set m. utf8_valid k \<and> clean_creds c = c)"
    "dec_map (dec_cred cd) t old = Inr new"
  shows "case new of None \<Rightarrow> True | Some m \<Rightarrow> gm_wf m \<and> (\<forall>(k, c) \<in> set m. utf8_valid k \<and> clean_creds c = c)"
proof (cases t)
  case (TObj ms)
  let ?P = "\<lambda>m. gm_wf m \<and> (\<forall>(k, c) \<in> set m. utf8_valid k \<and> clean_creds c = c)"
  from TObj assms(3) obtain m where m: "dec_members (dec_entry (dec_cred cd)) ms (case old of Some m \<Rightarrow> m | None \<Rightarrow> []) = Inr m" "new = Some m"
    by (auto simp: dec_map_def split: sum.splits)
  have "?P (case old of Some m \<Rightarrow> m | None \<Rightarrow> [])" using assms(2) by (cases old) auto
  from dec_members_inv [where P = ?P, OF dec_entry_text _ this m(1)] assms(1) TObj m(2) show ?thesis by simp
qed (use assms in \<open>auto simp: dec_map_def\<close>)

lemma store_Unmarshal_text:
  assumes "store_Unmarshal cd data = Inr st"
  shows "store_text st"
proof -
  let ?z = "\<lparr>st_Current = [], st_Hosts = None\<rparr>"
  from assms obtain t where t: "json_parse data = Inr t" "dec_struct (store_field cd) t ?z = Inr st"
    by (auto simp: store_Unmarshal_def split: sum.splits)
  note ok = json_parse_ok [OF t(1)]
  have f: "store_text y'" if "store_text y" "tree_ok u" "store_field cd k u y = Inr y'" for k u y y'
    using that dec_map_text [of u "st_Hosts y" cd]
    by (auto simp: store_field_def store_text_def map_sum_def split: if_splits sum.splits)
  show ?thesis
  proof (cases t)
    case (TObj ms)
    with t(2) have "dec_members (store_field cd) ms ?z = Inr st" by (simp add: dec_struct_def)
    from dec_members_inv [where P = store_text, OF _ _ _ this] f ok TObj show ?thesis by (auto simp: store_text_def)
  qed (use t(2) in \<open>auto simp: dec_struct_def store_text_def\<close>)
qed

section \<open>Hosts after a write\<close>

lemma clean_Nil_iff [simp]: "utf8_clean s = [] \<longleftrightarrow> s = []"
proof
  assume e: "utf8_clean s = []"
  show "s = []"
  proof (cases s)
    case (Cons a t)
    then show ?thesis using e by (auto simp: utf8_clean.simps Let_def rune_error_def split: if_splits)
  qed simp
qed simp

lemma clean_hosts_wf: "gm_wf acc \<Longrightarrow> gm_wf (clean_hosts m ks acc)"
  by (induction ks arbitrary: acc) (auto simp: clean_hosts_def split: option.splits)

lemma clean_hosts_dom:
  "gm_get (clean_hosts m ks acc) x \<noteq> None \<longleftrightarrow> gm_get acc x \<noteq> None \<or> (\<exists>k \<in> set ks. gm_get m k \<noteq> None \<and> utf8_clean k = x)"
proof (induction ks arbitrary: acc)
  case (Cons k ks)
  have "clean_hosts m (k # ks) acc = clean_hosts m ks (case gm_get m k of None \<Rightarrow> acc | Some c \<Rightarrow> gm_put (utf8_clean k) (clean_creds c) acc)"
    by (simp add: clean_hosts_def split: option.splits)
  with Cons [of "case gm_get m k of None \<Rightarrow> acc | Some c \<Rightarrow> gm_put (utf8_clean k) (clean_creds c) acc"] show ?case
    by (auto split: option.splits if_splits)
qed (simp add: clean_hosts_def)

lemma clean_hosts_get:
  assumes "\<forall>k \<in> set ks. utf8_valid k"
  shows "gm_get (clean_hosts m ks acc) x = (if x \<in> set ks \<and> gm_get m x \<noteq> None then map_option clean_creds (gm_get m x) else gm_get acc x)"
  using assms
proof (induction ks arbitrary: acc)
  case (Cons k ks)
  have "clean_hosts m (k # ks) acc = clean_hosts m ks (case gm_get m k of None \<Rightarrow> acc | Some c \<Rightarrow> gm_put k (clean_creds c) acc)"
    using Cons(2) by (simp add: clean_hosts_def utf8_valid_def split: option.splits)
  with Cons show ?case by (auto split: option.splits)
qed (simp add: clean_hosts_def)

definition written_hosts :: "Credentials gomap \<Rightarrow> Credentials gomap" where
  "written_hosts m = clean_hosts m (sort_strings (map fst m)) []"

lemma written_hosts_wf [simp]: "gm_wf (written_hosts m)"
  by (simp add: written_hosts_def clean_hosts_wf)

lemma written_hosts_dom: "gm_get (written_hosts m) x \<noteq> None \<longleftrightarrow> (\<exists>k. gm_get m k \<noteq> None \<and> utf8_clean k = x)"
  unfolding written_hosts_def clean_hosts_dom by (auto simp: gm_get_None)

lemma written_hosts_get:
  assumes "\<forall>k. gm_get m k \<noteq> None \<longrightarrow> utf8_valid k"
  shows "gm_get (written_hosts m) x = map_option clean_creds (gm_get m x)"
proof -
  have "\<forall>k \<in> set (sort_strings (map fst m)). utf8_valid k" using assms by (simp add: gm_get_None)
  then have g: "gm_get (written_hosts m) x = (if x \<in> fst ` set m \<and> gm_get m x \<noteq> None then map_option clean_creds (gm_get m x) else None)"
    unfolding written_hosts_def by (simp add: clean_hosts_get)
  show ?thesis unfolding g using gm_get_None [of m x] by (cases "gm_get m x") auto
qed

end
