(* ===== verification/CredStore.thy ===== *)
theory CredStore
  imports CredJson
begin

text \<open>
  The credentials file of the command-line client (\<^verbatim>\<open>cliauth/credstore.go\<close>). The file is its bytes, or
  absent; its JSON form is that of \<open>CredJson\<close>, and the outcome of each system call is an argument, so
  that every error return of the code is a branch here. A write goes
  to a temporary file that is renamed over the old one, so only the rename changes the file.
\<close>

section \<open>Data\<close>

definition ErrNotLoggedIn :: string where "ErrNotLoggedIn = ''cliauth: not logged in''"

definition refreshBuffer :: duration where "refreshBuffer = 30 * time_Second"

definition NeedsRefresh :: "gotime \<Rightarrow> Credentials \<Rightarrow> bool" where
  "NeedsRefresh now c = (if time_IsZero (cr_ExpiresAt c) then True else time_Sub (cr_ExpiresAt c) now \<le> refreshBuffer)"

text \<open>The outcomes of the system calls of one operation.\<close>

record io =
  io_read :: "goerr option"
  io_mkdir :: "goerr option"
  io_create :: "goerr option"
  io_chmod :: "goerr option"
  io_write :: "goerr option"
  io_close :: "goerr option"
  io_rename :: "goerr option"
  io_remove :: "goerr option"

type_synonym disk = "string option"

section \<open>Reading and writing the file\<close>

definition loadAll :: "time_codec \<Rightarrow> io \<Rightarrow> disk \<Rightarrow> cred_file result" where
  "loadAll cd io d =
     (case d of
        None \<Rightarrow> Inl (Sentinel ErrNotLoggedIn)
      | Some data \<Rightarrow>
          (case io_read io of
             Some err \<Rightarrow> Inl (Wrap ''read credentials'' err)
           | None \<Rightarrow>
               (case store_Unmarshal cd data of
                  Inl err \<Rightarrow> Inl (Wrap ''parse credentials'' err)
                | Inr st \<Rightarrow> if st_Hosts st = None then Inl (Sentinel ErrNotLoggedIn) else Inr st)))"

definition cred_write :: "time_codec \<Rightarrow> io \<Rightarrow> cred_file \<Rightarrow> disk \<Rightarrow> goerr option \<times> disk" where
  "cred_write cd io st d =
     (case io_mkdir io of
        Some err \<Rightarrow> (Some (Wrap ''create parent dir'' err), d)
      | None \<Rightarrow>
          (case store_MarshalIndent cd st of
             Inl err \<Rightarrow> (Some (Wrap ''encode credentials'' err), d)
           | Inr data \<Rightarrow>
               (case io_create io of
                  Some err \<Rightarrow> (Some (Wrap ''create temp file'' err), d)
                | None \<Rightarrow>
                    (case io_chmod io of
                       Some err \<Rightarrow> (Some (Wrap ''chmod temp file'' err), d)
                     | None \<Rightarrow>
                         (case io_write io of
                            Some err \<Rightarrow> (Some (Wrap ''write temp file'' err), d)
                          | None \<Rightarrow>
                              (case io_close io of
                                 Some err \<Rightarrow> (Some (Wrap ''close temp file'' err), d)
                               | None \<Rightarrow>
                                   (case io_rename io of
                                      Some err \<Rightarrow> (Some (Wrap ''rename temp file'' err), d)
                                    | None \<Rightarrow> (None, Some data))))))))"

definition removeFile :: "io \<Rightarrow> disk \<Rightarrow> goerr option \<times> disk" where
  "removeFile io d =
     (case d of
        None \<Rightarrow> (None, None)
      | Some data \<Rightarrow> (case io_remove io of Some err \<Rightarrow> (Some (Wrap ''remove credentials'' err), d) | None \<Rightarrow> (None, None)))"

definition firstHost :: "Credentials gomap \<Rightarrow> string" where
  "firstHost hosts = (if hosts = [] then [] else hd (sort_strings (map fst hosts)))"

section \<open>Operations\<close>

definition HostFromIssuer :: "string \<Rightarrow> string result" where
  "HostFromIssuer issuer =
     (if go_TrimSpace issuer = [] then Inl (Plain ''issuer is empty'')
      else (case url_Parse issuer of
              Inl err \<Rightarrow> Inl (Wrap ''parse issuer'' err)
            | Inr u \<Rightarrow>
                if u_Scheme u \<noteq> ''http'' \<and> u_Scheme u \<noteq> ''https''
                then Inl (Plain (''issuer must use http or https, got '' @ go_Quote (u_Scheme u)))
                else if u_Host u = [] then Inl (Plain ''issuer has no host'')
                else Inr (go_ToLower (u_Host u))))"

definition normalizeIssuer :: "string \<Rightarrow> string result" where
  "normalizeIssuer issuer =
     (case HostFromIssuer issuer of
        Inl err \<Rightarrow> Inl err
      | Inr _ \<Rightarrow> Inr (go_TrimRight (go_TrimSpace issuer) (CHR ''/'')))"

definition LoadHost :: "time_codec \<Rightarrow> io \<Rightarrow> string \<Rightarrow> disk \<Rightarrow> Credentials result" where
  "LoadHost cd io host d =
     (case loadAll cd io d of
        Inl err \<Rightarrow> Inl err
      | Inr st \<Rightarrow>
          (case gm_get (case st_Hosts st of Some m \<Rightarrow> m | None \<Rightarrow> []) host of
             None \<Rightarrow> Inl (Sentinel ErrNotLoggedIn)
           | Some c \<Rightarrow> Inr c))"

definition LoadCurrent :: "time_codec \<Rightarrow> io \<Rightarrow> disk \<Rightarrow> (string \<times> Credentials) result" where
  "LoadCurrent cd io d =
     (case loadAll cd io d of
        Inl err \<Rightarrow> Inl err
      | Inr st \<Rightarrow>
          if st_Current st = [] then Inl (Sentinel ErrNotLoggedIn)
          else (case gm_get (case st_Hosts st of Some m \<Rightarrow> m | None \<Rightarrow> []) (st_Current st) of
                  None \<Rightarrow> Inl (Sentinel ErrNotLoggedIn)
                | Some c \<Rightarrow> Inr (st_Current st, c)))"

definition SaveHost :: "time_codec \<Rightarrow> io \<Rightarrow> string \<Rightarrow> Credentials \<Rightarrow> disk \<Rightarrow> goerr option \<times> disk" where
  "SaveHost cd io host creds d =
     (if host = [] then (Some (Plain ''host is empty''), d)
      else
        (case (case loadAll cd io d of
                 Inl err \<Rightarrow> if errors_is err ErrNotLoggedIn then Inr \<lparr>st_Current = [], st_Hosts = None\<rparr> else Inl err
               | Inr st \<Rightarrow> Inr st) of
           Inl err \<Rightarrow> (Some err, d)
         | Inr st \<Rightarrow>
             (let hosts = (case st_Hosts st of Some m \<Rightarrow> m | None \<Rightarrow> [])
              in cred_write cd io
                   \<lparr>st_Current = (if st_Current st = [] then host else st_Current st),
                    st_Hosts = Some (gm_put host creds hosts)\<rparr> d)))"

definition UseHost :: "time_codec \<Rightarrow> io \<Rightarrow> string \<Rightarrow> disk \<Rightarrow> goerr option \<times> disk" where
  "UseHost cd io host d =
     (case loadAll cd io d of
        Inl err \<Rightarrow> (Some err, d)
      | Inr st \<Rightarrow>
          if gm_get (case st_Hosts st of Some m \<Rightarrow> m | None \<Rightarrow> []) host = None
          then (Some (Plain (''host '' @ go_Quote host @ '' not found in credentials file'')), d)
          else cred_write cd io (st\<lparr>st_Current := host\<rparr>) d)"

definition DeleteHost :: "time_codec \<Rightarrow> io \<Rightarrow> string \<Rightarrow> disk \<Rightarrow> goerr option \<times> disk" where
  "DeleteHost cd io host d =
     (case loadAll cd io d of
        Inl err \<Rightarrow> (if errors_is err ErrNotLoggedIn then None else Some err, d)
      | Inr st \<Rightarrow>
          (let hosts = (case st_Hosts st of Some m \<Rightarrow> m | None \<Rightarrow> [])
           in if gm_get hosts host = None then (None, d)
              else
                (let hosts' = gm_del host hosts;
                     current = (if st_Current st = host then firstHost hosts' else st_Current st)
                 in if hosts' = [] then removeFile io d
                    else cred_write cd io \<lparr>st_Current = current, st_Hosts = Some hosts'\<rparr> d)))"

definition DeleteAll :: "io \<Rightarrow> disk \<Rightarrow> goerr option \<times> disk" where
  "DeleteAll io d = removeFile io d"

definition cred_Hosts :: "time_codec \<Rightarrow> io \<Rightarrow> disk \<Rightarrow> string list result" where
  "cred_Hosts cd io d =
     (case loadAll cd io d of
        Inl err \<Rightarrow> if errors_is err ErrNotLoggedIn then Inr [] else Inl err
      | Inr st \<Rightarrow> Inr (sort_strings (map fst (case st_Hosts st of Some m \<Rightarrow> m | None \<Rightarrow> []))))"

section \<open>What the file holds\<close>

text \<open>
  The abstract state: the current host and the credentials of each host.
\<close>

record cred_state =
  cs_current :: string
  cs_hosts :: "string \<rightharpoonup> Credentials"

definition io_ok :: "io \<Rightarrow> bool" where
  "io_ok io = (io_read io = None)"

definition cred_abs :: "time_codec \<Rightarrow> disk \<Rightarrow> cred_state" where
  "cred_abs cd d =
     (case d of
        None \<Rightarrow> \<lparr>cs_current = [], cs_hosts = Map.empty\<rparr>
      | Some data \<Rightarrow>
          (case store_Unmarshal cd data of
             Inl _ \<Rightarrow> \<lparr>cs_current = [], cs_hosts = Map.empty\<rparr>
           | Inr st \<Rightarrow>
               (case st_Hosts st of
                  None \<Rightarrow> \<lparr>cs_current = [], cs_hosts = Map.empty\<rparr>
                | Some m \<Rightarrow> \<lparr>cs_current = st_Current st, cs_hosts = gm_get m\<rparr>)))"

text \<open>Files the store itself writes: some host, and the current one among them.\<close>

definition cred_wf :: "time_codec \<Rightarrow> disk \<Rightarrow> bool" where
  "cred_wf cd d =
     (case d of
        None \<Rightarrow> True
      | Some data \<Rightarrow>
          (case store_Unmarshal cd data of
             Inl _ \<Rightarrow> False
           | Inr st \<Rightarrow> (case st_Hosts st of
                          None \<Rightarrow> False
                        | Some m \<Rightarrow> gm_wf m \<and> gm_get m (st_Current st) \<noteq> None \<and> gm_get m [] = None)))"

definition spec_save :: "string \<Rightarrow> Credentials \<Rightarrow> cred_state \<Rightarrow> cred_state" where
  "spec_save host c s =
     \<lparr>cs_current = (if cs_hosts s = Map.empty then host else cs_current s), cs_hosts = (cs_hosts s)(host \<mapsto> c)\<rparr>"

definition spec_use :: "string \<Rightarrow> cred_state \<Rightarrow> cred_state" where
  "spec_use host s = s\<lparr>cs_current := host\<rparr>"

text \<open>Removing a host: when it was the current one, the first of the others takes its place.\<close>

definition spec_delete :: "string \<Rightarrow> cred_state \<Rightarrow> cred_state \<Rightarrow> bool" where
  "spec_delete host s s' =
     (cs_hosts s' = (cs_hosts s)(host := None) \<and>
      (if cs_hosts s host = None then cs_current s' = cs_current s
       else if cs_hosts s' = Map.empty then cs_current s' = []
       else if cs_current s \<noteq> host then cs_current s' = cs_current s
       else cs_hosts s' (cs_current s') \<noteq> None \<and> (\<forall>k. cs_hosts s' k \<noteq> None \<longrightarrow> string_le (cs_current s') k)))"

datatype cred_op = SaveOp string Credentials | UseOp string | DeleteOp string | ClearOp

fun cred_step :: "time_codec \<Rightarrow> io \<Rightarrow> cred_op \<Rightarrow> disk \<Rightarrow> goerr option \<times> disk" where
  "cred_step cd io (SaveOp host c) d = SaveHost cd io host c d"
| "cred_step cd io (UseOp host) d = UseHost cd io host d"
| "cred_step cd io (DeleteOp host) d = DeleteHost cd io host d"
| "cred_step cd io ClearOp d = DeleteAll io d"

fun spec_step :: "cred_op \<Rightarrow> cred_state \<Rightarrow> cred_state \<Rightarrow> bool" where
  "spec_step (SaveOp host c) s s' = (host \<noteq> [] \<and> s' = spec_save host (clean_creds c) s)"
| "spec_step (UseOp host) s s' = (cs_hosts s host \<noteq> None \<and> s' = spec_use host s)"
| "spec_step (DeleteOp host) s s' = spec_delete host s s'"
| "spec_step ClearOp s s' = (s' = \<lparr>cs_current = [], cs_hosts = Map.empty\<rparr>)"

text \<open>A host name that is not UTF-8 would be stored under another name.\<close>

fun op_text :: "cred_op \<Rightarrow> bool" where
  "op_text (SaveOp host c) = utf8_valid host"
| "op_text _ = True"

section \<open>Ordering of hosts\<close>

lemma string_le_refl: "string_le s s"
  by (induction s) auto

lemma string_le_total: "string_le s t \<or> string_le t s"
  by (induction s t rule: string_le.induct) auto

lemma string_le_trans: "string_le s t \<Longrightarrow> string_le t u \<Longrightarrow> string_le s u"
proof (induction s t arbitrary: u rule: string_le.induct)
  case (3 c s d t)
  then show ?case by (cases u) (auto split: if_splits)
qed auto

lemma insert_sorted_least:
  assumes "xs \<noteq> [] \<Longrightarrow> \<forall>x \<in> set xs. string_le (hd xs) x"
  shows "\<forall>x \<in> set (insert_sorted k xs). string_le (hd (insert_sorted k xs)) x"
proof (cases xs)
  case (Cons a as)
  then have a: "\<forall>x \<in> set as. string_le a x" using assms by simp
  show ?thesis
  proof (cases "string_le k a")
    case True
    with a Cons show ?thesis by (auto intro: string_le_refl string_le_trans)
  next
    case False
    with string_le_total have "string_le a k" by blast
    with False a Cons show ?thesis by (auto intro: string_le_refl)
  qed
qed (simp add: string_le_refl)

lemma sort_strings_least: "k \<in> set ks \<Longrightarrow> string_le (hd (sort_strings ks)) k"
proof -
  have "\<forall>x \<in> set (sort_strings ks). string_le (hd (sort_strings ks)) x"
    by (induction ks) (auto simp: sort_strings_def intro!: insert_sorted_least [rule_format])
  then show "k \<in> set ks \<Longrightarrow> string_le (hd (sort_strings ks)) k" by simp
qed

lemma firstHost_least:
  assumes "gm_get hosts k \<noteq> None"
  shows "string_le (firstHost hosts) k" "gm_get hosts (firstHost hosts) \<noteq> None"
proof -
  have k: "k \<in> fst ` set hosts" using assms by (simp add: gm_get_None)
  then have ne: "hosts \<noteq> []" by auto
  from k ne show "string_le (firstHost hosts) k" by (simp add: firstHost_def sort_strings_least)
  have "sort_strings (map fst hosts) \<noteq> []" using ne by (metis set_sort_strings set_empty map_is_Nil_conv)
  then have "firstHost hosts \<in> fst ` set hosts"
    using hd_in_set [of "sort_strings (map fst hosts)"] ne by (simp add: firstHost_def)
  then show "gm_get hosts (firstHost hosts) \<noteq> None" using gm_get_None [of hosts "firstHost hosts"] by simp
qed

section \<open>The store refines its specification\<close>

lemma cred_write_result:
  assumes "cred_write cd io \<lparr>st_Current = cur, st_Hosts = Some m\<rparr> d = (None, d')" "time_codec_ok cd"
  shows "\<exists>data. d' = Some data \<and>
    store_Unmarshal cd data = Inr \<lparr>st_Current = utf8_clean cur, st_Hosts = Some (written_hosts m)\<rparr>"
  using assms store_read [OF assms(2), of "\<lparr>st_Current = cur, st_Hosts = Some m\<rparr>"]
  by (auto simp: cred_write_def clean_store_def written_hosts_def split: option.splits sum.splits)

lemma cred_write_wf:
  assumes "cred_write cd io \<lparr>st_Current = cur, st_Hosts = Some m\<rparr> d = (None, d')" "time_codec_ok cd"
    and "gm_get m cur \<noteq> None" "gm_get m [] = None"
  shows "cred_wf cd d'" "cred_abs cd d' = \<lparr>cs_current = utf8_clean cur, cs_hosts = gm_get (written_hosts m)\<rparr>"
proof -
  have "gm_get (written_hosts m) (utf8_clean cur) \<noteq> None" "gm_get (written_hosts m) [] = None"
    using assms(3,4) written_hosts_dom [of m "utf8_clean cur"] written_hosts_dom [of m "[]"] by auto
  then show "cred_wf cd d'" "cred_abs cd d' = \<lparr>cs_current = utf8_clean cur, cs_hosts = gm_get (written_hosts m)\<rparr>"
    using cred_write_result [OF assms(1,2)] by (auto simp: cred_wf_def cred_abs_def)
qed

lemma loadAll_wf:
  assumes "cred_wf cd d" "io_read io = None"
  obtains "d = None" "loadAll cd io d = Inl (Sentinel ErrNotLoggedIn)" "cred_abs cd d = \<lparr>cs_current = [], cs_hosts = Map.empty\<rparr>"
  | m cur data where "d = Some data" "store_Unmarshal cd data = Inr \<lparr>st_Current = cur, st_Hosts = Some m\<rparr>"
      "loadAll cd io d = Inr \<lparr>st_Current = cur, st_Hosts = Some m\<rparr>"
      "gm_wf m" "gm_get m cur \<noteq> None" "gm_get m [] = None" "cred_abs cd d = \<lparr>cs_current = cur, cs_hosts = gm_get m\<rparr>"
      "\<forall>k c. gm_get m k = Some c \<longrightarrow> utf8_valid k \<and> clean_creds c = c"
proof (cases d)
  case None
  then show thesis using that(1) by (simp add: loadAll_def cred_abs_def)
next
  case (Some data)
  with assms obtain st where st: "store_Unmarshal cd data = Inr st" by (auto simp: cred_wf_def split: sum.splits)
  with assms Some obtain m where m: "st_Hosts st = Some m" by (auto simp: cred_wf_def split: option.splits)
  have e: "st = \<lparr>st_Current = st_Current st, st_Hosts = Some m\<rparr>" using m by (cases st) simp
  show thesis
    by (rule that(2) [OF Some])
      (use assms Some st m store_Unmarshal_text [OF st] in
        \<open>auto simp: cred_wf_def loadAll_def cred_abs_def e [symmetric] store_text_def gm_get_in_set\<close>)
qed

lemma gm_get_fun: "gm_get m = map_of m"
  by (simp add: fun_eq_iff gm_get_def)

lemma gm_get_empty_iff: "gm_get m = Map.empty \<longleftrightarrow> m = []"
proof
  assume "gm_get m = Map.empty"
  then show "m = []" by (cases m) (auto simp: gm_get_fun)
qed (simp add: gm_get_fun)

lemma gm_get_put_fun: "gm_get (gm_put k v m) = (gm_get m)(k \<mapsto> v)"
  by (simp add: fun_eq_iff)

lemma gm_get_del_fun: "gm_get (gm_del k m) = (gm_get m)(k := None)"
  by (simp add: fun_eq_iff)

text \<open>Stored hosts are written as they are: their text is UTF-8.\<close>

lemma written_text:
  assumes "\<forall>k c. gm_get m k = Some c \<longrightarrow> utf8_valid k \<and> clean_creds c = c"
  shows "gm_get (written_hosts m) = gm_get m"
proof
  fix x
  have "gm_get (written_hosts m) x = map_option clean_creds (gm_get m x)" using assms by (intro written_hosts_get) auto
  then show "gm_get (written_hosts m) x = gm_get m x" using assms by (cases "gm_get m x") auto
qed

lemma save_refines:
  assumes "time_codec_ok cd" "cred_wf cd d" "io_read io = None" "SaveHost cd io host c d = (None, d')"
  shows "cred_wf cd d'" "host \<noteq> []" "utf8_valid host \<Longrightarrow> cred_abs cd d' = spec_save host (clean_creds c) (cred_abs cd d)"
proof -
  from assms(4) show h: "host \<noteq> []" by (auto simp: SaveHost_def)
  have "cred_wf cd d' \<and> (utf8_valid host \<longrightarrow> cred_abs cd d' = spec_save host (clean_creds c) (cred_abs cd d))"
    using assms(2,3)
  proof (cases rule: loadAll_wf)
    case 1
    with assms(4) h have w: "cred_write cd io \<lparr>st_Current = host, st_Hosts = Some [(host, c)]\<rparr> d = (None, d')"
      by (simp add: SaveHost_def gm_put_def)
    have g: "gm_get [(host, c)] host \<noteq> None" "gm_get [(host, c)] [] = None" using h by (simp_all add: gm_get_fun)
    have "gm_get (written_hosts [(host, c)]) = [host \<mapsto> clean_creds c]" if "utf8_valid host"
    proof
      fix x
      have "gm_get (written_hosts [(host, c)]) x = map_option clean_creds (gm_get [(host, c)] x)"
        using that by (intro written_hosts_get) (auto simp: gm_get_fun)
      then show "gm_get (written_hosts [(host, c)]) x = [host \<mapsto> clean_creds c] x" by (simp add: gm_get_fun)
    qed
    with cred_write_wf [OF w assms(1) g] show ?thesis by (simp add: 1(1) cred_abs_def [of _ None] spec_save_def utf8_valid_def)
  next
    case (2 m cur data)
    have c: "cur \<noteq> []" using 2 by auto
    with 2 assms(4) h have w: "cred_write cd io \<lparr>st_Current = cur, st_Hosts = Some (gm_put host c m)\<rparr> d = (None, d')"
      by (simp add: SaveHost_def)
    have g: "gm_get (gm_put host c m) cur \<noteq> None" "gm_get (gm_put host c m) [] = None" using h 2 by auto
    have "gm_get (written_hosts (gm_put host c m)) = (gm_get m)(host \<mapsto> clean_creds c)" if "utf8_valid host"
    proof
      fix x
      have "gm_get (written_hosts (gm_put host c m)) x = map_option clean_creds (gm_get (gm_put host c m) x)"
        using that 2(8) by (intro written_hosts_get) (auto split: if_splits)
      then show "gm_get (written_hosts (gm_put host c m)) x = ((gm_get m)(host \<mapsto> clean_creds c)) x"
        using 2(8) by (cases "gm_get m x") auto
    qed
    moreover have "utf8_clean cur = cur" using 2(5,8) by (auto simp: utf8_valid_def)
    moreover have "gm_get m \<noteq> Map.empty" using 2(5) by metis
    ultimately show ?thesis using cred_write_wf [OF w assms(1) g] by (simp add: spec_save_def 2(7))
  qed
  then show "cred_wf cd d'" "utf8_valid host \<Longrightarrow> cred_abs cd d' = spec_save host (clean_creds c) (cred_abs cd d)" by blast+
qed

lemma use_refines:
  assumes "time_codec_ok cd" "cred_wf cd d" "io_read io = None" "UseHost cd io host d = (None, d')"
  shows "cred_wf cd d' \<and> cs_hosts (cred_abs cd d) host \<noteq> None \<and> cred_abs cd d' = spec_use host (cred_abs cd d)"
  using assms(2,3)
proof (cases rule: loadAll_wf)
  case 1
  with assms(4) show ?thesis by (simp add: UseHost_def)
next
  case (2 m cur data)
  with assms(4) have g: "gm_get m host \<noteq> None" "cred_write cd io \<lparr>st_Current = host, st_Hosts = Some m\<rparr> d = (None, d')"
    by (auto simp: UseHost_def split: if_splits)
  have "utf8_clean host = host" using g(1) 2(8) by (auto simp: utf8_valid_def)
  with cred_write_wf [OF g(2) assms(1) g(1) 2(6)] g(1) written_text [OF 2(8)] show ?thesis by (simp add: spec_use_def 2(7))
qed

lemma delete_refines:
  assumes "time_codec_ok cd" "cred_wf cd d" "io_read io = None" "DeleteHost cd io host d = (None, d')"
  shows "cred_wf cd d' \<and> spec_delete host (cred_abs cd d) (cred_abs cd d')"
  using assms(2,3)
proof (cases rule: loadAll_wf)
  case 1
  with assms(2,4) show ?thesis by (simp add: DeleteHost_def spec_delete_def)
next
  case (2 m cur data)
  show ?thesis
  proof (cases "gm_get m host = None")
    case True
    with 2 assms(2,4) show ?thesis by (auto simp: DeleteHost_def spec_delete_def fun_eq_iff)
  next
    case there: False
    show ?thesis
    proof (cases "gm_del host m = []")
      case True
      with 2 there assms(4) have "d' = None" by (auto simp: DeleteHost_def removeFile_def split: option.splits)
      moreover have "(gm_get m)(host := None) = Map.empty" using True gm_get_empty_iff [of "gm_del host m"] gm_get_del_fun [of host m] by simp
      ultimately show ?thesis using there by (auto simp: cred_wf_def cred_abs_def [of _ None] spec_delete_def 2(7))
    next
      case False
      let ?m = "gm_del host m" and ?cur = "if cur = host then firstHost (gm_del host m) else cur"
      from False 2 there assms(4) have w: "cred_write cd io \<lparr>st_Current = ?cur, st_Hosts = Some ?m\<rparr> d = (None, d')"
        by (auto simp: DeleteHost_def Let_def)
      from False obtain k where k: "gm_get ?m k \<noteq> None" by (metis gm_get_empty_iff)
      have in_: "gm_get ?m ?cur \<noteq> None" using firstHost_least(2) [OF k] 2(5) by (auto split: if_splits)
      have ne: "(gm_get m)(host := None) \<noteq> Map.empty" using False gm_get_empty_iff gm_get_del_fun by metis
      have tx: "\<forall>k c. gm_get ?m k = Some c \<longrightarrow> utf8_valid k \<and> clean_creds c = c" using 2(8) by auto
      have "utf8_clean ?cur = ?cur" using in_ tx by (auto simp: utf8_valid_def simp del: gm_get_del)
      with cred_write_wf [OF w assms(1) in_] written_text [OF tx] 2(6) have "cred_wf cd d'"
          "cred_abs cd d' = \<lparr>cs_current = ?cur, cs_hosts = (gm_get m)(host := None)\<rparr>"
        by (simp_all add: gm_get_del_fun)
      moreover have "\<forall>k. gm_get ?m k \<noteq> None \<longrightarrow> string_le (firstHost ?m) k"
        using firstHost_least(1) by blast
      ultimately show ?thesis using ne there in_ by (auto simp: spec_delete_def 2(7) gm_get_del_fun split: if_splits)
    qed
  qed
qed

lemma cred_step_refines:
  assumes "time_codec_ok cd" "cred_wf cd d" "io_read io = None" "cred_step cd io op d = (None, d')"
  shows "cred_wf cd d'" "op_text op \<Longrightarrow> spec_step op (cred_abs cd d) (cred_abs cd d')"
proof -
  have "cred_wf cd d' \<and> (op_text op \<longrightarrow> spec_step op (cred_abs cd d) (cred_abs cd d'))"
  proof (cases op)
    case (SaveOp host c)
    with assms save_refines [OF assms(1-3), of host c d'] show ?thesis by simp
  next
    case (UseOp host)
    with assms use_refines [OF assms(1-3), of host d'] show ?thesis by simp
  next
    case (DeleteOp host)
    with assms delete_refines [OF assms(1-3), of host d'] show ?thesis by simp
  next
    case ClearOp
    with assms show ?thesis
      by (auto simp: DeleteAll_def removeFile_def cred_wf_def [of _ None] cred_abs_def [of _ None] split: option.splits)
  qed
  then show "cred_wf cd d'" "op_text op \<Longrightarrow> spec_step op (cred_abs cd d) (cred_abs cd d')" by blast+
qed

lemma cred_step_error:
  assumes "cred_step cd io op d = (Some e, d')"
  shows "d' = d"
proof -
  have w: "d'' = d" if "cred_write cd io st d = (Some e', d'')" for st e' d''
    using that by (auto simp: cred_write_def split: option.splits sum.splits)
  have r: "d'' = d" if "removeFile io d = (Some e', d'')" for e' d''
    using that by (auto simp: removeFile_def split: option.splits)
  show ?thesis
  proof (cases op)
    case (SaveOp host c)
    with assms w show ?thesis by (auto simp: SaveHost_def Let_def split: if_splits sum.splits)
  next
    case (UseOp host)
    with assms w show ?thesis by (auto simp: UseHost_def split: if_splits sum.splits)
  next
    case (DeleteOp host)
    with assms w r show ?thesis by (auto simp: DeleteHost_def Let_def split: if_splits sum.splits)
  next
    case ClearOp
    with assms r show ?thesis by (simp add: DeleteAll_def)
  qed
qed

lemma LoadHost_abs:
  assumes "cred_wf cd d" "io_read io = None"
  shows "LoadHost cd io host d =
    (case cs_hosts (cred_abs cd d) host of None \<Rightarrow> Inl (Sentinel ErrNotLoggedIn) | Some c \<Rightarrow> Inr c)"
  using assms by (cases rule: loadAll_wf) (simp_all add: LoadHost_def split: option.splits)

lemma LoadCurrent_abs:
  assumes "cred_wf cd d" "io_read io = None"
  shows "LoadCurrent cd io d =
    (case cs_hosts (cred_abs cd d) (cs_current (cred_abs cd d)) of
       None \<Rightarrow> Inl (Sentinel ErrNotLoggedIn) | Some c \<Rightarrow> Inr (cs_current (cred_abs cd d), c))"
  using assms by (cases rule: loadAll_wf) (auto simp: LoadCurrent_def split: option.splits)

fun cred_run :: "time_codec \<Rightarrow> (io \<times> cred_op) list \<Rightarrow> disk \<Rightarrow> disk" where
  "cred_run cd [] d = d"
| "cred_run cd ((io, op) # ops) d = cred_run cd ops (snd (cred_step cd io op d))"

lemma cred_run_wf:
  assumes "time_codec_ok cd" "cred_wf cd d" "\<forall>(io, op) \<in> set ops. io_read io = None"
  shows "cred_wf cd (cred_run cd ops d)"
  using assms
proof (induction cd ops d rule: cred_run.induct)
  case (2 cd io op ops d)
  obtain e d' where st: "cred_step cd io op d = (e, d')" by fastforce
  have "cred_wf cd d'"
    using cred_step_refines(1) [OF 2(2,3), of io op d'] cred_step_error [of cd io op d _ d'] 2(3,4) st by (cases e) auto
  with 2 st show ?case by simp
qed simp

section \<open>The interface the login flow relies on\<close>

text \<open>
  What a client of the store may assume: a saved host is loaded back, other hosts are left alone, and
  a failed operation changes nothing.
\<close>

locale cred_map =
  fixes load :: "string \<Rightarrow> 'd \<Rightarrow> Credentials option"
    and save :: "'i \<Rightarrow> string \<Rightarrow> Credentials \<Rightarrow> 'd \<Rightarrow> goerr option \<times> 'd"
    and delete :: "'i \<Rightarrow> string \<Rightarrow> 'd \<Rightarrow> goerr option \<times> 'd"
    and wf :: "'d \<Rightarrow> bool" and fine :: "'i \<Rightarrow> bool"
    and name :: "string \<Rightarrow> bool" and kept :: "Credentials \<Rightarrow> Credentials"
  assumes save_wf: "wf d \<Longrightarrow> fine i \<Longrightarrow> save i h c d = (x, d') \<Longrightarrow> wf d'"
    and delete_wf: "wf d \<Longrightarrow> fine i \<Longrightarrow> delete i h d = (x, d') \<Longrightarrow> wf d'"
    and load_save: "wf d \<Longrightarrow> fine i \<Longrightarrow> name h \<Longrightarrow> save i h c d = (None, d') \<Longrightarrow>
      load h' d' = (if h' = h then Some (kept c) else load h' d)"
    and load_delete: "wf d \<Longrightarrow> fine i \<Longrightarrow> delete i h d = (None, d') \<Longrightarrow> load h' d' = (if h' = h then None else load h' d)"
    and save_error: "save i h c d = (Some e, d') \<Longrightarrow> d' = d"
    and delete_error: "delete i h d = (Some e, d') \<Longrightarrow> d' = d"
begin

lemma save_twice:
  assumes "wf d" "fine i" "fine j" "name h" "save i h c d = (None, d1)" "save j h c' d1 = (None, d2)"
  shows "load h' d2 = (if h' = h then Some (kept c') else load h' d)"
  using load_save [OF save_wf [OF assms(1,2,5)] assms(3,4,6), of h'] load_save [OF assms(1,2,4,5), of h'] by simp

lemma save_delete:
  assumes "wf d" "fine i" "fine j" "name h" "save i h c d = (None, d1)" "delete j h d1 = (None, d2)"
  shows "load h' d2 = (if h' = h then None else load h' d)"
  using load_delete [OF save_wf [OF assms(1,2,5)] assms(3,6), of h'] load_save [OF assms(1,2,4,5), of h'] by simp

end

interpretation credentials: cred_map "\<lambda>h d. cs_hosts (cred_abs cd d) h" "SaveHost cd" "DeleteHost cd"
  "\<lambda>d. time_codec_ok cd \<and> cred_wf cd d" "\<lambda>io :: io. io_read io = None" utf8_valid clean_creds for cd
proof unfold_locales
  fix d and io :: io and h c x d' h'
  assume wf: "time_codec_ok cd \<and> cred_wf cd d" and io: "io_read io = None"
  note step = cred_step_refines [OF conjunct1 [OF wf] conjunct2 [OF wf] io]
  show "time_codec_ok cd \<and> cred_wf cd d'" if "SaveHost cd io h c d = (x, d')"
    using step(1) [of "SaveOp h c"] cred_step_error [of cd io "SaveOp h c"] that wf by (cases x) fastforce+
  show "time_codec_ok cd \<and> cred_wf cd d'" if "DeleteHost cd io h d = (x, d')"
    using step(1) [of "DeleteOp h"] cred_step_error [of cd io "DeleteOp h"] that wf by (cases x) fastforce+
  show "cs_hosts (cred_abs cd d') h' = (if h' = h then Some (clean_creds c) else cs_hosts (cred_abs cd d) h')"
    if "utf8_valid h" "SaveHost cd io h c d = (None, d')"
    using step(2) [of "SaveOp h c"] that by (auto simp: spec_save_def)
  show "cs_hosts (cred_abs cd d') h' = (if h' = h then None else cs_hosts (cred_abs cd d) h')"
    if "DeleteHost cd io h d = (None, d')"
    using step(2) [of "DeleteOp h"] that by (auto simp: spec_delete_def)
next
  fix io h c d e d'
  show "SaveHost cd io h c d = (Some e, d') \<Longrightarrow> d' = d" using cred_step_error [of cd io "SaveOp h c"] by simp
next
  fix io h d e d'
  show "DeleteHost cd io h d = (Some e, d') \<Longrightarrow> d' = d" using cred_step_error [of cd io "DeleteOp h"] by simp
qed

section \<open>Properties\<close>

text \<open>
  C11 (the credentials file refines a map with a current host). On a file the store wrote, every
  operation that succeeds does what the specification says of the hosts and the current host, and
  leaves again a file whose current host is one of its hosts; every operation that fails, whichever
  system call failed, leaves the file exactly as it was. The bytes on disk are those of
  \<^verbatim>\<open>json.MarshalIndent\<close>, read back by \<^verbatim>\<open>json.Unmarshal\<close>.\<close>

theorem credentials_refine:
  assumes "time_codec_ok cd" "cred_wf cd d" "op_text op" "io_read io = None" "cred_step cd io op d = (err, d')"
  shows "case err of
           None \<Rightarrow> cred_wf cd d' \<and> spec_step op (cred_abs cd d) (cred_abs cd d')
         | Some _ \<Rightarrow> d' = d"
  using cred_step_refines [OF assms(1,2,4), of op d'] cred_step_error [of cd io op d _ d'] assms(3,5) by (cases err) auto

text \<open>Times written as decimal numbers, and system calls that all succeed.\<close>

definition dec_times :: time_codec where
  "dec_times = \<lparr>tc_Format = (\<lambda>t. if in_int64 t then Inr (FormatInt t) else Inl (Plain ''year outside of range'')), tc_Parse = ParseInt64\<rparr>"

lemma dec_times_ok: "time_codec_ok dec_times"
proof -
  have "body_ok (FormatInt t)" for t
  proof (rule plain_body, rule ballI)
    fix c assume "c \<in> set (FormatInt t)"
    then have "c = CHR ''-'' \<or> dec_digit c \<noteq> None" by (rule FormatInt_chars)
    moreover have "(of_char c :: int) = int (code_of c)" by (simp add: of_nat_of_char)
    ultimately have "45 \<le> code_of c \<and> code_of c \<le> 57" by (auto simp: dec_digit_def Let_def split: if_splits)
    then show "32 \<le> code_of c \<and> c \<noteq> bs \<and> c \<noteq> CHR 0x22" by (auto simp: bs_def)
  qed
  then show ?thesis by (auto simp: time_codec_ok_def dec_times_def ParseInt64_FormatInt split: if_splits)
qed

definition io_fine :: io where
  "io_fine = \<lparr>io_read = None, io_mkdir = None, io_create = None, io_chmod = None, io_write = None, io_close = None,
              io_rename = None, io_remove = None\<rparr>"

lemma save_fine:
  assumes "store_MarshalIndent cd \<lparr>st_Current = host, st_Hosts = Some [(host, c)]\<rparr> = Inr data" "host \<noteq> []"
  shows "cred_step cd io_fine (SaveOp host c) None = (None, Some data)"
  using assms by (simp add: SaveHost_def loadAll_def cred_write_def io_fine_def gm_put_def)

lemma sample_file: "\<exists>data. store_MarshalIndent cd \<lparr>st_Current = ''as'', st_Hosts = Some [(''as'', zero_Credentials\<lparr>cr_ClientID := ''c1''\<rparr>)]\<rparr> = Inr data"
  by (simp add: store_MarshalIndent_def sort_strings_def gm_get_def cred_tree_def time_IsZero_def zero_Credentials_def)

lemma ascii_valid_as: "utf8_valid ''as''"
  by (rule ascii_valid) simp

theorem credentials_refine_witness:
  "\<exists>d'. cred_wf dec_times d' \<and>
    spec_step (SaveOp ''as'' (zero_Credentials\<lparr>cr_ClientID := ''c1''\<rparr>)) (cred_abs dec_times None) (cred_abs dec_times d')"
proof -
  obtain data where data: "cred_step dec_times io_fine (SaveOp ''as'' (zero_Credentials\<lparr>cr_ClientID := ''c1''\<rparr>)) None = (None, Some data)"
    using sample_file [of dec_times] save_fine by fastforce
  from credentials_refine [OF dec_times_ok _ _ _ this] show ?thesis
    by (auto simp: cred_wf_def [of _ None] io_fine_def ascii_valid_as)
qed

text \<open>
  After any sequence of operations that starts without a file, failed ones
  included, the current credentials are those of a stored host, and there are none only when no host
  is stored.\<close>

lemma current_credentials_valid:
  assumes "time_codec_ok cd" "\<forall>(io, op) \<in> set ops. io_read io = None" "io_read io = None"
  shows "case LoadCurrent cd io (cred_run cd ops None) of
           Inr (host, c) \<Rightarrow> LoadHost cd io host (cred_run cd ops None) = Inr c
         | Inl err \<Rightarrow> err = Sentinel ErrNotLoggedIn \<and> cred_Hosts cd io (cred_run cd ops None) = Inr []"
proof -
  have wf: "cred_wf cd (cred_run cd ops None)" by (rule cred_run_wf [OF assms(1) _ assms(2)]) (simp add: cred_wf_def)
  from wf assms(3) show ?thesis
    by (cases rule: loadAll_wf) (auto simp: LoadCurrent_def LoadHost_def cred_Hosts_def sort_strings_def split: option.splits)
qed

lemma current_credentials_valid_witness:
  "case LoadCurrent dec_times io_fine (cred_run dec_times [(io_fine, SaveOp ''as'' (zero_Credentials\<lparr>cr_ClientID := ''c1''\<rparr>))] None) of
     Inr (host, c) \<Rightarrow> LoadHost dec_times io_fine host
        (cred_run dec_times [(io_fine, SaveOp ''as'' (zero_Credentials\<lparr>cr_ClientID := ''c1''\<rparr>))] None) = Inr c
   | Inl err \<Rightarrow> err = Sentinel ErrNotLoggedIn \<and> cred_Hosts dec_times io_fine
        (cred_run dec_times [(io_fine, SaveOp ''as'' (zero_Credentials\<lparr>cr_ClientID := ''c1''\<rparr>))] None) = Inr []"
  by (rule current_credentials_valid [OF dec_times_ok]) (simp_all add: io_fine_def)

text \<open>
  C23 (the credentials file). Text that was written is read back: after a successful write of a file
  whose hosts and credentials are UTF-8, loading it gives the same current host and, for every host,
  the same credentials.\<close>

theorem credentials_file_roundtrip:
  assumes "time_codec_ok cd" "utf8_valid cur" "store_text \<lparr>st_Current = cur, st_Hosts = Some hosts\<rparr>"
    and "cred_write cd io \<lparr>st_Current = cur, st_Hosts = Some hosts\<rparr> d = (None, d')" "io_read io' = None"
  shows "\<exists>hosts'. loadAll cd io' d' = Inr \<lparr>st_Current = cur, st_Hosts = Some hosts'\<rparr> \<and> gm_get hosts' = gm_get hosts"
proof -
  obtain data where d: "d' = Some data" "store_Unmarshal cd data = Inr \<lparr>st_Current = utf8_clean cur, st_Hosts = Some (written_hosts hosts)\<rparr>"
    using cred_write_result [OF assms(4,1)] by blast
  have h: "utf8_valid k \<and> clean_creds c = c" if "gm_get hosts k = Some c" for k c
    using assms(3) gm_get_in_set [of hosts k c] that by (auto simp: store_text_def)
  have "gm_get (written_hosts hosts) k = gm_get hosts k" for k
    using written_hosts_get [of hosts k] h by (cases "gm_get hosts k") auto
  then show ?thesis using d assms(2,5) by (auto simp: loadAll_def utf8_valid_def)
qed

theorem credentials_file_roundtrip_witness:
  "\<exists>d' hosts'. cred_write dec_times io_fine \<lparr>st_Current = ''as'', st_Hosts = Some [(''as'', zero_Credentials\<lparr>cr_ClientID := ''c1''\<rparr>)]\<rparr> None = (None, d') \<and>
     loadAll dec_times io_fine d' = Inr \<lparr>st_Current = ''as'', st_Hosts = Some hosts'\<rparr> \<and>
     gm_get hosts' ''as'' = Some (zero_Credentials\<lparr>cr_ClientID := ''c1''\<rparr>)"
proof -
  let ?hosts = "[(''as'', zero_Credentials\<lparr>cr_ClientID := ''c1''\<rparr>)]"
  obtain data where w: "cred_write dec_times io_fine \<lparr>st_Current = ''as'', st_Hosts = Some ?hosts\<rparr> None = (None, Some data)"
    using sample_file [of dec_times] by (auto simp: cred_write_def io_fine_def)
  have "store_text \<lparr>st_Current = ''as'', st_Hosts = Some ?hosts\<rparr>"
    using ascii_valid_as ascii_valid [of "''c1''"] by (simp add: store_text_def gm_wf_def clean_creds_iff zero_Credentials_def utf8_valid_def)
  from credentials_file_roundtrip [OF dec_times_ok ascii_valid_as this w, of io_fine] obtain hosts' where
    "loadAll dec_times io_fine (Some data) = Inr \<lparr>st_Current = ''as'', st_Hosts = Some hosts'\<rparr>" "gm_get hosts' = gm_get ?hosts"
    by (auto simp: io_fine_def)
  moreover have "gm_get ?hosts ''as'' = Some (zero_Credentials\<lparr>cr_ClientID := ''c1''\<rparr>)" by (simp add: gm_get_def)
  ultimately show ?thesis using w by metis
qed

text \<open>The file read with a given number of parser steps.\<close>

definition store_Unmarshal_within :: "nat \<Rightarrow> time_codec \<Rightarrow> string \<Rightarrow> cred_file result" where
  "store_Unmarshal_within n cd data =
     (case parse_value n data of
        Some (t, r) \<Rightarrow>
          if skip_ws r = [] \<and> tree_depth t \<le> 10000 then dec_struct (store_field cd) t \<lparr>st_Current = [], st_Hosts = None\<rparr>
          else Inl (Plain ''invalid JSON'')
      | None \<Rightarrow> Inl (Plain ''invalid JSON''))"



end
