(* ===== verification/LoginJson.thy ===== *)
theory LoginJson
  imports GoJson
begin

text \<open>
  The JSON documents the command-line client exchanges with an authorization server
  (\<^verbatim>\<open>cliauth/discovery.go\<close>, \<^verbatim>\<open>cliauth/login.go\<close>): issuer metadata, the registration request and its answer,
  and the token answer, each read as \<^verbatim>\<open>json.NewDecoder(resp.Body).Decode\<close> reads it.
\<close>

record metadataResponse =
  mr_AuthorizationEndpoint :: string
  mr_TokenEndpoint :: string
  mr_RevocationEndpoint :: string
  mr_RegistrationEndpoint :: string

record dcrResponse =
  dr_ClientID :: string
  dr_ClientSecret :: string
  dr_RedirectURIs :: "string list"

record tokenResponse =
  tk_AccessToken :: string
  tk_RefreshToken :: string
  tk_TokenType :: string
  tk_ExpiresIn :: int
  tk_Scope :: string

definition decode_body :: "(string \<Rightarrow> jtree \<Rightarrow> 'a \<Rightarrow> 'a result) \<Rightarrow> 'a \<Rightarrow> string \<Rightarrow> 'a result" where
  "decode_body f zero body = (case json_first body of Inl err \<Rightarrow> Inl err | Inr t \<Rightarrow> dec_struct f t zero)"

definition metadata_field :: "string \<Rightarrow> jtree \<Rightarrow> metadataResponse \<Rightarrow> metadataResponse result" where
  "metadata_field k t m =
     (if is_field ''authorization_endpoint'' k
      then map_sum id (\<lambda>s. m\<lparr>mr_AuthorizationEndpoint := s\<rparr>) (dec_string t (mr_AuthorizationEndpoint m))
      else if is_field ''token_endpoint'' k then map_sum id (\<lambda>s. m\<lparr>mr_TokenEndpoint := s\<rparr>) (dec_string t (mr_TokenEndpoint m))
      else if is_field ''revocation_endpoint'' k
      then map_sum id (\<lambda>s. m\<lparr>mr_RevocationEndpoint := s\<rparr>) (dec_string t (mr_RevocationEndpoint m))
      else if is_field ''registration_endpoint'' k
      then map_sum id (\<lambda>s. m\<lparr>mr_RegistrationEndpoint := s\<rparr>) (dec_string t (mr_RegistrationEndpoint m))
      else Inr m)"

definition decode_metadata :: "string \<Rightarrow> metadataResponse result" where
  "decode_metadata =
     decode_body metadata_field
       \<lparr>mr_AuthorizationEndpoint = [], mr_TokenEndpoint = [], mr_RevocationEndpoint = [], mr_RegistrationEndpoint = []\<rparr>"

definition dcr_field :: "string \<Rightarrow> jtree \<Rightarrow> dcrResponse \<Rightarrow> dcrResponse result" where
  "dcr_field k t d =
     (if is_field ''client_id'' k then map_sum id (\<lambda>s. d\<lparr>dr_ClientID := s\<rparr>) (dec_string t (dr_ClientID d))
      else if is_field ''client_secret'' k then map_sum id (\<lambda>s. d\<lparr>dr_ClientSecret := s\<rparr>) (dec_string t (dr_ClientSecret d))
      else if is_field ''redirect_uris'' k then map_sum id (\<lambda>ss. d\<lparr>dr_RedirectURIs := ss\<rparr>) (dec_strings t)
      else Inr d)"

definition decode_dcr :: "string \<Rightarrow> dcrResponse result" where
  "decode_dcr = decode_body dcr_field \<lparr>dr_ClientID = [], dr_ClientSecret = [], dr_RedirectURIs = []\<rparr>"

definition token_field :: "string \<Rightarrow> jtree \<Rightarrow> tokenResponse \<Rightarrow> tokenResponse result" where
  "token_field k t r =
     (if is_field ''access_token'' k then map_sum id (\<lambda>s. r\<lparr>tk_AccessToken := s\<rparr>) (dec_string t (tk_AccessToken r))
      else if is_field ''refresh_token'' k then map_sum id (\<lambda>s. r\<lparr>tk_RefreshToken := s\<rparr>) (dec_string t (tk_RefreshToken r))
      else if is_field ''token_type'' k then map_sum id (\<lambda>s. r\<lparr>tk_TokenType := s\<rparr>) (dec_string t (tk_TokenType r))
      else if is_field ''expires_in'' k then map_sum id (\<lambda>n. r\<lparr>tk_ExpiresIn := n\<rparr>) (dec_int t (tk_ExpiresIn r))
      else if is_field ''scope'' k then map_sum id (\<lambda>s. r\<lparr>tk_Scope := s\<rparr>) (dec_string t (tk_Scope r))
      else Inr r)"

definition decode_token :: "string \<Rightarrow> tokenResponse result" where
  "decode_token =
     decode_body token_field \<lparr>tk_AccessToken = [], tk_RefreshToken = [], tk_TokenType = [], tk_ExpiresIn = 0, tk_Scope = []\<rparr>"

section \<open>Decoded text is UTF-8\<close>

lemma decode_body_inv:
  assumes "\<And>k t y z. P y \<Longrightarrow> tree_ok t \<Longrightarrow> f k t y = Inr z \<Longrightarrow> P z" "P zero" "decode_body f zero body = Inr x"
  shows "P x"
proof -
  from assms(3) obtain t where t: "json_first body = Inr t" "dec_struct f t zero = Inr x" by (auto simp: decode_body_def split: sum.splits)
  note ok = json_first_ok [OF t(1)]
  show ?thesis
  proof (cases t)
    case (TObj ms)
    with t(2) have "dec_members f ms zero = Inr x" by (simp add: dec_struct_def)
    from dec_members_inv [where P = P, OF assms(1) _ assms(2) this] ok TObj show ?thesis by simp
  qed (use t(2) assms(2) in \<open>auto simp: dec_struct_def\<close>)
qed

lemma decode_token_text:
  assumes "decode_token body = Inr tok"
  shows "utf8_clean (tk_AccessToken tok) = tk_AccessToken tok" "utf8_clean (tk_RefreshToken tok) = tk_RefreshToken tok"
proof -
  let ?P = "\<lambda>tok. utf8_clean (tk_AccessToken tok) = tk_AccessToken tok \<and> utf8_clean (tk_RefreshToken tok) = tk_RefreshToken tok"
  have "?P z" if "?P y" "tree_ok t" "token_field k t y = Inr z" for k t y z
  proof -
    note valid = dec_string_text [OF that(2)]
    from that(3,1) show ?thesis unfolding token_field_def
      by (simp add: map_sum_def split: if_splits sum.splits) (clarify, (frule (1) valid)?, simp)+
  qed
  from decode_body_inv [where P = ?P, OF this _ assms [unfolded decode_token_def]]
  show "utf8_clean (tk_AccessToken tok) = tk_AccessToken tok" "utf8_clean (tk_RefreshToken tok) = tk_RefreshToken tok" by simp_all
qed

lemma decode_dcr_text:
  assumes "decode_dcr body = Inr d"
  shows "utf8_clean (dr_ClientID d) = dr_ClientID d" "map utf8_clean (dr_RedirectURIs d) = dr_RedirectURIs d"
proof -
  let ?P = "\<lambda>d. utf8_clean (dr_ClientID d) = dr_ClientID d \<and> map utf8_clean (dr_RedirectURIs d) = dr_RedirectURIs d"
  have "?P z" if "?P y" "tree_ok t" "dcr_field k t y = Inr z" for k t y z
  proof -
    note valid = dec_string_text [OF that(2)] dec_strings_text [OF that(2)]
    from that(3,1) show ?thesis unfolding dcr_field_def
      by (simp add: map_sum_def split: if_splits sum.splits) (clarify, (frule (1) valid(1) | frule valid(2))?, simp)+
  qed
  from decode_body_inv [where P = ?P, OF this _ assms [unfolded decode_dcr_def]]
  show "utf8_clean (dr_ClientID d) = dr_ClientID d" "map utf8_clean (dr_RedirectURIs d) = dr_RedirectURIs d" by simp_all
qed

section \<open>Reading published metadata\<close>

definition metadata_names :: "string list" where
  "metadata_names = [''authorization_endpoint'', ''token_endpoint'', ''revocation_endpoint'', ''registration_endpoint'']"

text \<open>
  In a document whose other members do not fold to one of the names the client reads, each of these
  members is read.
\<close>

lemma metadata_members:
  assumes "\<forall>k \<in> set ks. utf8_valid k \<and> (\<forall>name \<in> set metadata_names. is_field name k \<longrightarrow> k = name)"
    and "\<forall>name \<in> set metadata_names. tree name = json_string (val name)"
  shows "dec_members metadata_field (map (\<lambda>k. (quote k, tree k)) ks) m =
    Inr \<lparr>mr_AuthorizationEndpoint = (if ''authorization_endpoint'' \<in> set ks then utf8_clean (val ''authorization_endpoint'') else mr_AuthorizationEndpoint m),
         mr_TokenEndpoint = (if ''token_endpoint'' \<in> set ks then utf8_clean (val ''token_endpoint'') else mr_TokenEndpoint m),
         mr_RevocationEndpoint = (if ''revocation_endpoint'' \<in> set ks then utf8_clean (val ''revocation_endpoint'') else mr_RevocationEndpoint m),
         mr_RegistrationEndpoint = (if ''registration_endpoint'' \<in> set ks then utf8_clean (val ''registration_endpoint'') else mr_RegistrationEndpoint m)\<rparr>"
  using assms(1)
proof (induction ks arbitrary: m)
  case Nil
  then show ?case by simp
next
  case (Cons k ks)
  have k: "unquote (quote k) = k" using Cons(2) by (simp add: unquote_quote utf8_valid_def)
  have ks: "\<forall>k \<in> set ks. utf8_valid k \<and> (\<forall>name \<in> set metadata_names. is_field name k \<longrightarrow> k = name)" using Cons(2) by simp
  have tr: "tree ''authorization_endpoint'' = json_string (val ''authorization_endpoint'')" "tree ''token_endpoint'' = json_string (val ''token_endpoint'')"
      "tree ''revocation_endpoint'' = json_string (val ''revocation_endpoint'')" "tree ''registration_endpoint'' = json_string (val ''registration_endpoint'')"
    using assms(2) by (simp_all add: metadata_names_def)
  consider "k = ''authorization_endpoint''" | "k = ''token_endpoint''" | "k = ''revocation_endpoint''" | "k = ''registration_endpoint''"
    | "\<forall>name \<in> set metadata_names. k \<noteq> name" by (auto simp: metadata_names_def)
  then show ?case
  proof cases
    case 5
    have n: "\<forall>name \<in> set metadata_names. \<not> is_field name k" using 5 Cons(2) by auto
    then have "metadata_field k (tree k) m = Inr m" by (simp add: metadata_field_def metadata_names_def)
    moreover have "''authorization_endpoint'' \<noteq> k" "''token_endpoint'' \<noteq> k" "''revocation_endpoint'' \<noteq> k" "''registration_endpoint'' \<noteq> k"
      using 5 by (auto simp: metadata_names_def)
    ultimately show ?thesis using Cons(1) [OF ks, of m] k by simp
  qed (use Cons(1) [OF ks] k tr in \<open>simp_all add: metadata_field_def is_field_def lower_char_def\<close>)
qed

lemma decode_compact:
  assumes "tree_ok (TObj ms)" "tree_depth (TObj ms) \<le> 10000" "num_end r"
  shows "decode_body f zero (compact (TObj ms) @ r) = dec_members f ms zero"
  using json_first_print [of "\<lambda>_. []" "[]" ms r 0] assms by (simp add: decode_body_def compact_def dec_struct_def)

end
