(* ===== verification/CliLogin.thy ===== *)
theory CliLogin
  imports TokenEndpoint CredStore LoginJson
begin

text \<open>
  The login flow of the command-line client (\<^verbatim>\<open>cliauth/login.go\<close>, \<^verbatim>\<open>cliauth/login_http.go\<close>,
  \<^verbatim>\<open>cliauth/discovery.go\<close>, \<^verbatim>\<open>cliauth/pkce.go\<close>): discovery and validation of endpoints, dynamic
  registration, the PKCE flows over a loopback callback or a pasted URL, refresh and logout. The
  HTTP exchange is a function over a state of the network; bodies are bytes.
\<close>

section \<open>Endpoints\<close>

record Endpoints =
  ep_Authorization :: string
  ep_Token :: string
  ep_Revocation :: string
  ep_Registration :: string

definition zero_Endpoints :: Endpoints where
  "zero_Endpoints = \<lparr>ep_Authorization = [], ep_Token = [], ep_Revocation = [], ep_Registration = []\<rparr>"

definition ep_complete :: "Endpoints \<Rightarrow> bool" where
  "ep_complete e = (ep_Authorization e \<noteq> [] \<and> ep_Token e \<noteq> [] \<and> ep_Registration e \<noteq> [])"

definition ep_merge :: "Endpoints \<Rightarrow> Endpoints \<Rightarrow> Endpoints" where
  "ep_merge e fallback =
     (let pick = (\<lambda>x y. if x = ([] :: string) then y else x)
      in \<lparr>ep_Authorization = pick (ep_Authorization e) (ep_Authorization fallback),
          ep_Token = pick (ep_Token e) (ep_Token fallback),
          ep_Revocation = pick (ep_Revocation e) (ep_Revocation fallback),
          ep_Registration = pick (ep_Registration e) (ep_Registration fallback)\<rparr>)"

definition isLoopbackEndpointHost :: "string \<Rightarrow> bool" where
  "isLoopbackEndpointHost host = (host = ''localhost'' \<or> host = ''127.0.0.1'' \<or> host = ''::1'')"

definition validateEndpoint :: "string \<Rightarrow> string \<Rightarrow> goerr option" where
  "validateEndpoint issuer endpoint =
     (case url_Parse (go_TrimRight issuer (CHR ''/'')) of
        Inl err \<Rightarrow> Some (Wrap ''parse issuer'' err)
      | Inr issuerURL \<Rightarrow>
          (case url_Parse endpoint of
             Inl err \<Rightarrow> Some (Wrap ''parse endpoint'' err)
           | Inr parsed \<Rightarrow>
               if \<not> url_IsAbs parsed \<or> u_Host parsed = []
               then Some (Plain (''endpoint '' @ go_Quote endpoint @ '' must be absolute''))
               else if u_Fragment parsed \<noteq> []
               then Some (Plain (''endpoint '' @ go_Quote endpoint @ '' must not contain a fragment''))
               else if u_Scheme parsed \<noteq> u_Scheme issuerURL \<or> \<not> go_EqualFold (u_Host parsed) (u_Host issuerURL)
               then Some (Plain (''endpoint '' @ go_Quote endpoint @ '' must share issuer origin''))
               else if u_Scheme parsed = ''https'' then None
               else if u_Scheme parsed = ''http'' \<and> isLoopbackEndpointHost (url_Hostname parsed) then None
               else Some (Plain (''endpoint '' @ go_Quote endpoint @ '' must use https or loopback http''))))"

text \<open>The code ranges over a map of four endpoints, so which error is reported first is open; here it is the first in this order.\<close>

definition ep_validate :: "string \<Rightarrow> Endpoints \<Rightarrow> goerr option" where
  "ep_validate issuer e =
     fold (\<lambda>(name, endpoint) r.
        case r of
          Some _ \<Rightarrow> r
        | None \<Rightarrow>
            if endpoint = [] \<and> name = ''revocation_endpoint'' then None
            else (case validateEndpoint issuer endpoint of None \<Rightarrow> None | Some err \<Rightarrow> Some (Wrap name err)))
       [(''authorization_endpoint'', ep_Authorization e), (''token_endpoint'', ep_Token e),
        (''revocation_endpoint'', ep_Revocation e), (''registration_endpoint'', ep_Registration e)] None"

section \<open>The network\<close>

datatype req_body = NoBody | Body string

record http_req =
  hr_Method :: string
  hr_URL :: string
  hr_Header :: header
  hr_Body :: req_body

record http_resp =
  rsp_StatusCode :: int
  rsp_Status :: string
  rsp_Body :: string

record 'n net =
  nt_Do :: "http_req \<Rightarrow> 'n \<Rightarrow> http_resp result \<times> 'n"

text \<open>\<^verbatim>\<open>http.NewRequestWithContext\<close> fails on a URL that does not parse.\<close>

definition net_send :: "'n net \<Rightarrow> string \<Rightarrow> string \<Rightarrow> http_req \<Rightarrow> 'n \<Rightarrow> http_resp result \<times> 'n" where
  "net_send nt build_msg do_msg rq n =
     (case url_Parse (hr_URL rq) of
        Inl err \<Rightarrow> (Inl (Wrap build_msg err), n)
      | Inr _ \<Rightarrow>
          (case nt_Do nt rq n of
             (Inl err, n') \<Rightarrow> (Inl (Wrap do_msg err), n')
           | (Inr resp, n') \<Rightarrow> (Inr resp, n')))"

definition discoverEndpoints :: "'n net \<Rightarrow> string \<Rightarrow> 'n \<Rightarrow> Endpoints result \<times> 'n" where
  "discoverEndpoints nt issuer n =
     (let endpoint = go_TrimRight issuer (CHR ''/'') @ ''/.well-known/oauth-authorization-server''
      in (case net_send nt ''build issuer metadata request'' ''issuer metadata request''
                 \<lparr>hr_Method = ''GET'', hr_URL = endpoint, hr_Header = [(''Accept'', [''application/json''])], hr_Body = NoBody\<rparr> n of
            (Inl err, n') \<Rightarrow> (Inl err, n')
          | (Inr resp, n') \<Rightarrow>
              if rsp_StatusCode resp div 100 \<noteq> 2 then (Inl (Plain (''issuer metadata failed: '' @ rsp_Status resp)), n')
              else (case decode_metadata (rsp_Body resp) of
                      Inl err \<Rightarrow> (Inl (Wrap ''decode issuer metadata'' err), n')
                    | Inr m \<Rightarrow>
                        (Inr \<lparr>ep_Authorization = mr_AuthorizationEndpoint m, ep_Token = mr_TokenEndpoint m,
                              ep_Revocation = mr_RevocationEndpoint m, ep_Registration = mr_RegistrationEndpoint m\<rparr>, n'))))"

definition form_header :: header where
  "form_header = [(''Content-Type'', [''application/x-www-form-urlencoded''])]"

definition postToken :: "'n net \<Rightarrow> string \<Rightarrow> url_values \<Rightarrow> 'n \<Rightarrow> tokenResponse result \<times> 'n" where
  "postToken nt endpoint form n =
     (case net_send nt ''build token request'' ''token request''
             \<lparr>hr_Method = ''POST'', hr_URL = endpoint, hr_Header = header_Set ''Accept'' ''application/json'' form_header,
              hr_Body = Body (values_Encode form)\<rparr> n of
        (Inl err, n') \<Rightarrow> (Inl err, n')
      | (Inr resp, n') \<Rightarrow>
          if rsp_StatusCode resp div 100 \<noteq> 2
          then (Inl (Plain (''token endpoint '' @ rsp_Status resp @ '': '' @ go_TrimSpace (rsp_Body resp))), n')
          else (case decode_token (rsp_Body resp) of
                  Inl err \<Rightarrow> (Inl (Wrap ''decode token'' err), n')
                | Inr tok \<Rightarrow>
                    if tk_AccessToken tok = [] then (Inl (Plain ''token endpoint returned empty access_token''), n')
                    else (Inr tok, n')))"

definition revokeToken :: "'n net \<Rightarrow> string \<Rightarrow> string \<Rightarrow> string \<Rightarrow> 'n \<Rightarrow> 'n" where
  "revokeToken nt endpoint clientID token n =
     snd (net_send nt [] []
       \<lparr>hr_Method = ''POST'', hr_URL = endpoint, hr_Header = form_header,
        hr_Body = Body (values_Encode (values_Set ''client_id'' clientID
          (values_Set ''token_type_hint'' ''refresh_token'' (values_Set ''token'' token []))))\<rparr> n)"

definition buildAuthorizeURL :: "string \<Rightarrow> string \<Rightarrow> string \<Rightarrow> string \<Rightarrow> string \<Rightarrow> string \<Rightarrow> string" where
  "buildAuthorizeURL endpoint clientID redirectURI scope state challenge =
     endpoint @ ''?'' @ values_Encode
       (values_Set ''code_challenge_method'' ''S256'' (values_Set ''code_challenge'' challenge (values_Set ''state'' state
         (values_Set ''scope'' scope (values_Set ''redirect_uri'' redirectURI (values_Set ''client_id'' clientID
           (values_Set ''response_type'' ''code'' [])))))))"

section \<open>The login object\<close>

text \<open>The cached endpoints, the credentials file and the network.\<close>

record 'n login_state =
  ls_Endpoints :: Endpoints
  ls_disk :: disk
  ls_net :: 'n

text \<open>What one operation takes from its environment: the outcome of its file operations in order, random bytes, clock readings.\<close>

record login_env =
  le_io :: "nat \<Rightarrow> io"
  le_verifier :: "string result"
  le_state :: "string result"
  le_now :: gotime
  le_now_saved :: gotime

definition defaultScope :: string where "defaultScope = ''mcp.read''"

definition normalizeScope :: "string \<Rightarrow> string" where
  "normalizeScope scope = (if go_TrimSpace scope = [] then defaultScope else scope)"

definition login_endpoints :: "'n net \<Rightarrow> string \<Rightarrow> 'n login_state \<Rightarrow> Endpoints result \<times> 'n login_state" where
  "login_endpoints nt issuer s =
     (if ep_complete (ls_Endpoints s) then
        (case ep_validate issuer (ls_Endpoints s) of Some err \<Rightarrow> (Inl err, s) | None \<Rightarrow> (Inr (ls_Endpoints s), s))
      else
        (case discoverEndpoints nt issuer (ls_net s) of
           (Inl err, n) \<Rightarrow> (Inl err, s\<lparr>ls_net := n\<rparr>)
         | (Inr discovered, n) \<Rightarrow>
             (let e = ep_merge (ls_Endpoints s) discovered; s1 = s\<lparr>ls_net := n, ls_Endpoints := e\<rparr>
              in if \<not> ep_complete e then (Inl (Plain ''issuer metadata missing required OAuth endpoints''), s1)
                 else (case ep_validate issuer e of Some err \<Rightarrow> (Inl err, s1) | None \<Rightarrow> (Inr e, s1)))))"

definition dcr_body :: "string \<Rightarrow> string \<Rightarrow> jtree" where
  "dcr_body redirectURI scope =
     TObj [(''client_name'', json_string ''mcp-kit CLI''),
           (''grant_types'', TArr [json_string ''authorization_code'', json_string ''refresh_token'']),
           (''redirect_uris'', TArr [json_string redirectURI]), (''response_types'', TArr [json_string ''code'']),
           (''scope'', json_string scope), (''token_endpoint_auth_method'', json_string ''none'')]"

definition loaded :: "Credentials result \<Rightarrow> Credentials" where
  "loaded r = (case r of Inr c \<Rightarrow> c | Inl _ \<Rightarrow> zero_Credentials)"

definition ensureRegistered ::
  "time_codec \<Rightarrow> 'n net \<Rightarrow> login_env \<Rightarrow> string \<Rightarrow> Endpoints \<Rightarrow> string \<Rightarrow> string \<Rightarrow> 'n login_state \<Rightarrow> string result \<times> 'n login_state" where
  "ensureRegistered cd nt env issuer endpoints redirectURI scope s =
     (case HostFromIssuer issuer of
        Inl err \<Rightarrow> (Inl err, s)
      | Inr host \<Rightarrow>
          (let r = LoadHost cd (le_io env 0) host (ls_disk s);
               known = (case r of Inr c \<Rightarrow> cr_ClientID c \<noteq> [] \<and> cr_Issuer c = issuer \<and> redirectURI \<in> set (cr_RedirectURIs c) | Inl _ \<Rightarrow> False)
           in if known then (Inr (cr_ClientID (loaded r)), s)
              else if (case r of Inl err \<Rightarrow> \<not> errors_is err ErrNotLoggedIn | Inr _ \<Rightarrow> False)
              then (Inl (case r of Inl err \<Rightarrow> err | Inr _ \<Rightarrow> Plain []), s)
              else
                (case net_send nt ''build dcr request'' ''dcr request''
                        \<lparr>hr_Method = ''POST'', hr_URL = ep_Registration endpoints,
                         hr_Header = [(''Content-Type'', [''application/json''])], hr_Body = Body (compact (dcr_body redirectURI scope))\<rparr> (ls_net s) of
                   (Inl err, n) \<Rightarrow> (Inl err, s\<lparr>ls_net := n\<rparr>)
                 | (Inr resp, n) \<Rightarrow>
                     (let s1 = s\<lparr>ls_net := n\<rparr>
                      in if rsp_StatusCode resp div 100 \<noteq> 2
                         then (Inl (Plain (''dcr failed: '' @ rsp_Status resp @ '': '' @ go_TrimSpace (rsp_Body resp))), s1)
                         else (case decode_dcr (rsp_Body resp) of
                                 Inl err \<Rightarrow> (Inl (Wrap ''decode dcr'' err), s1)
                               | Inr dcr \<Rightarrow>
                                   if dr_ClientID dcr = [] then (Inl (Plain ''dcr response missing client_id''), s1)
                                   else
                                     (let stored = (loaded (LoadHost cd (le_io env 1) host (ls_disk s1)))
                                            \<lparr>cr_Issuer := issuer, cr_ClientID := dr_ClientID dcr, cr_RedirectURIs := dr_RedirectURIs dcr\<rparr>
                                      in (case SaveHost cd (le_io env 2) host stored (ls_disk s1) of
                                            (Some err, d) \<Rightarrow> (Inl err, s1\<lparr>ls_disk := d\<rparr>)
                                          | (None, d) \<Rightarrow> (Inr (dr_ClientID dcr), s1\<lparr>ls_disk := d\<rparr>))))))))"

record authRequest =
  ar_ClientID :: string
  ar_RedirectURI :: string
  ar_State :: string
  ar_URL :: string
  ar_Verifier :: string

definition prepareAuthRequest ::
  "(string \<Rightarrow> string) \<Rightarrow> time_codec \<Rightarrow> 'n net \<Rightarrow> login_env \<Rightarrow> string \<Rightarrow> int \<Rightarrow> string \<Rightarrow> 'n login_state \<Rightarrow>
   authRequest result \<times> 'n login_state" where
  "prepareAuthRequest sha256 cd nt env issuer port scope s =
     (let redirectURI = ''http://127.0.0.1:'' @ FormatInt port @ ''/callback''
      in (case login_endpoints nt issuer s of
            (Inl err, s1) \<Rightarrow> (Inl err, s1)
          | (Inr endpoints, s1) \<Rightarrow>
              (case ensureRegistered cd nt env issuer endpoints redirectURI scope s1 of
                 (Inl err, s2) \<Rightarrow> (Inl err, s2)
               | (Inr clientID, s2) \<Rightarrow>
                   (case NewPKCEPair sha256 (le_verifier env) of
                      Inl err \<Rightarrow> (Inl err, s2)
                    | Inr pkce \<Rightarrow>
                        (case RandomState (le_state env) of
                           Inl err \<Rightarrow> (Inl err, s2)
                         | Inr state \<Rightarrow>
                             (Inr \<lparr>ar_ClientID = clientID, ar_RedirectURI = redirectURI, ar_State = state,
                                   ar_URL = buildAuthorizeURL (ep_Authorization endpoints) clientID redirectURI scope state (pk_Challenge pkce),
                                   ar_Verifier = pk_Verifier pkce\<rparr>, s2))))))"

record exchangeParams =
  xp_ClientID :: string
  xp_RedirectURI :: string
  xp_Code :: string
  xp_Verifier :: string
  xp_Scope :: string
  xp_Issuer :: string

definition validateAuthorizeIssuer :: "string \<Rightarrow> string \<Rightarrow> goerr option" where
  "validateAuthorizeIssuer issuer iss =
     (if iss = [] then None
      else if go_TrimRight (go_TrimSpace iss) (CHR ''/'') \<noteq> issuer
      then Some (Plain (''authorization response issuer mismatch: got '' @ go_Quote iss @ '' want '' @ go_Quote issuer))
      else None)"

text \<open>\<^verbatim>\<open>time.Duration(n) * time.Second\<close> on 64-bit integers.\<close>

definition expires_at :: "gotime \<Rightarrow> int \<Rightarrow> gotime" where
  "expires_at now n = time_Add now (wrap64 (n * time_Second))"

definition store_tokens :: "gotime \<Rightarrow> tokenResponse \<Rightarrow> Credentials \<Rightarrow> Credentials" where
  "store_tokens now tok c =
     c\<lparr>cr_AccessToken := tk_AccessToken tok,
       cr_RefreshToken := (if tk_RefreshToken tok \<noteq> [] then tk_RefreshToken tok else cr_RefreshToken c),
       cr_ExpiresAt := (if tk_ExpiresIn tok > 0 then expires_at now (tk_ExpiresIn tok) else cr_ExpiresAt c)\<rparr>"

definition exchange_form :: "exchangeParams \<Rightarrow> url_values" where
  "exchange_form p =
     values_Set ''code_verifier'' (xp_Verifier p) (values_Set ''client_id'' (xp_ClientID p)
       (values_Set ''redirect_uri'' (xp_RedirectURI p) (values_Set ''code'' (xp_Code p)
         (values_Set ''grant_type'' ''authorization_code'' []))))"

definition exchangeAndSave ::
  "time_codec \<Rightarrow> 'n net \<Rightarrow> login_env \<Rightarrow> string \<Rightarrow> exchangeParams \<Rightarrow> 'n login_state \<Rightarrow> goerr option \<times> 'n login_state" where
  "exchangeAndSave cd nt env issuer p s =
     (case validateAuthorizeIssuer issuer (xp_Issuer p) of
        Some err \<Rightarrow> (Some err, s)
      | None \<Rightarrow>
          (case HostFromIssuer issuer of
             Inl err \<Rightarrow> (Some err, s)
           | Inr host \<Rightarrow>
               (let form = exchange_form p
                in (case login_endpoints nt issuer s of
                      (Inl err, s1) \<Rightarrow> (Some err, s1)
                    | (Inr endpoints, s1) \<Rightarrow>
                        (case postToken nt (ep_Token endpoints) form (ls_net s1) of
                           (Inl err, n) \<Rightarrow> (Some err, s1\<lparr>ls_net := n\<rparr>)
                         | (Inr tok, n) \<Rightarrow>
                             (let s2 = s1\<lparr>ls_net := n\<rparr>;
                                  stored = (store_tokens (le_now_saved env) tok (loaded (LoadHost cd (le_io env 3) host (ls_disk s2))))
                                    \<lparr>cr_Issuer := issuer, cr_ClientID := xp_ClientID p, cr_Scope := xp_Scope p\<rparr>
                              in (case SaveHost cd (le_io env 4) host stored (ls_disk s2) of
                                    (e, d) \<Rightarrow> (e, s2\<lparr>ls_disk := d\<rparr>))))))))"

definition refresh ::
  "time_codec \<Rightarrow> 'n net \<Rightarrow> login_env \<Rightarrow> Endpoints \<Rightarrow> string \<Rightarrow> Credentials \<Rightarrow> 'n login_state \<Rightarrow> tokenResponse result \<times> 'n login_state" where
  "refresh cd nt env endpoints host creds s =
     (let form = values_Set ''client_id'' (cr_ClientID creds) (values_Set ''refresh_token'' (cr_RefreshToken creds)
                   (values_Set ''grant_type'' ''refresh_token'' []))
      in (case postToken nt (ep_Token endpoints) form (ls_net s) of
            (Inl err, n) \<Rightarrow> (Inl err, s\<lparr>ls_net := n\<rparr>)
          | (Inr tok, n) \<Rightarrow>
              (case SaveHost cd (le_io env 1) host (store_tokens (le_now_saved env) tok creds) (ls_disk s) of
                 (Some err, d) \<Rightarrow> (Inl err, s\<lparr>ls_net := n, ls_disk := d\<rparr>)
               | (None, d) \<Rightarrow> (Inr tok, s\<lparr>ls_net := n, ls_disk := d\<rparr>))))"

definition GetAccessToken ::
  "time_codec \<Rightarrow> 'n net \<Rightarrow> login_env \<Rightarrow> string \<Rightarrow> 'n login_state \<Rightarrow> string result \<times> 'n login_state" where
  "GetAccessToken cd nt env issuer s =
     (case HostFromIssuer issuer of
        Inl err \<Rightarrow> (Inl err, s)
      | Inr host \<Rightarrow>
          (case LoadHost cd (le_io env 0) host (ls_disk s) of
             Inl err \<Rightarrow> (Inl err, s)
           | Inr creds \<Rightarrow>
               if cr_Issuer creds \<noteq> issuer then (Inl (Sentinel ErrNotLoggedIn), s)
               else if \<not> NeedsRefresh (le_now env) creds then (Inr (cr_AccessToken creds), s)
               else if cr_RefreshToken creds = []
               then (Inl (Plain ''access token expired and no refresh token available; log in again''), s)
               else (case login_endpoints nt issuer s of
                       (Inl err, s1) \<Rightarrow> (Inl err, s1)
                     | (Inr endpoints, s1) \<Rightarrow>
                         (case refresh cd nt env endpoints host creds s1 of
                            (Inl err, s2) \<Rightarrow> (Inl err, s2)
                          | (Inr tok, s2) \<Rightarrow> (Inr (tk_AccessToken tok), s2)))))"

definition Logout ::
  "time_codec \<Rightarrow> 'n net \<Rightarrow> login_env \<Rightarrow> string \<Rightarrow> 'n login_state \<Rightarrow> goerr option \<times> 'n login_state" where
  "Logout cd nt env issuer s =
     (case HostFromIssuer issuer of
        Inl err \<Rightarrow> (Some err, s)
      | Inr host \<Rightarrow>
          (case LoadHost cd (le_io env 0) host (ls_disk s) of
             Inl err \<Rightarrow> (if errors_is err ErrNotLoggedIn then None else Some err, s)
           | Inr creds \<Rightarrow>
               if cr_Issuer creds \<noteq> issuer then (None, s)
               else
                 (let s1 = (if cr_RefreshToken creds = [] then s
                            else (case login_endpoints nt issuer s of
                                    (Inl _, s') \<Rightarrow> s'
                                  | (Inr endpoints, s') \<Rightarrow>
                                      if ep_Revocation endpoints = [] then s'
                                      else s'\<lparr>ls_net := revokeToken nt (ep_Revocation endpoints) (cr_ClientID creds)
                                                         (cr_RefreshToken creds) (ls_net s')\<rparr>))
                  in (case DeleteHost cd (le_io env 1) host (ls_disk s1) of (e, d) \<Rightarrow> (e, s1\<lparr>ls_disk := d\<rparr>)))))"

section \<open>The two login flows\<close>

record loopbackCallbackResult =
  lc_code :: string
  lc_err :: "goerr option"
  lc_state :: string
  lc_iss :: string

definition loopback_callback :: "url_values \<Rightarrow> loopbackCallbackResult" where
  "loopback_callback q =
     (let errCode = values_Get q ''error''; desc = values_Get q ''error_description''
      in if errCode \<noteq> []
         then \<lparr>lc_code = [], lc_err = Some (Plain (''authorize error: '' @ errCode @ '': '' @ desc)), lc_state = [], lc_iss = []\<rparr>
         else \<lparr>lc_code = values_Get q ''code'', lc_err = None, lc_state = values_Get q ''state'', lc_iss = values_Get q ''iss''\<rparr>)"

text \<open>The listener's port or its error, and what ends the wait: a cancelled context or the first callback.\<close>

datatype wait_result = ContextDone goerr | CallbackGot url_values

definition RunLoopback ::
  "(string \<Rightarrow> string) \<Rightarrow> time_codec \<Rightarrow> 'n net \<Rightarrow> login_env \<Rightarrow> string \<Rightarrow> int result \<Rightarrow> string \<Rightarrow> wait_result \<Rightarrow> 'n login_state \<Rightarrow>
   goerr option \<times> 'n login_state" where
  "RunLoopback sha256 cd nt env issuer listen scope0 wait s =
     (let scope = normalizeScope scope0
      in (case listen of
            Inl err \<Rightarrow> (Some (Wrap ''bind callback listener'' err), s)
          | Inr port \<Rightarrow>
              (case prepareAuthRequest sha256 cd nt env issuer port scope s of
                 (Inl err, s1) \<Rightarrow> (Some err, s1)
               | (Inr rq, s1) \<Rightarrow>
                   (case wait of
                      ContextDone err \<Rightarrow> (Some err, s1)
                    | CallbackGot q \<Rightarrow>
                        (let r = loopback_callback q
                         in (case lc_err r of
                               Some err \<Rightarrow> (Some err, s1)
                             | None \<Rightarrow>
                                 if lc_state r \<noteq> ar_State rq
                                 then (Some (Plain (''state mismatch: got '' @ go_Quote (lc_state r) @ '' want '' @ go_Quote (ar_State rq))), s1)
                                 else exchangeAndSave cd nt env issuer
                                        \<lparr>xp_ClientID = ar_ClientID rq, xp_RedirectURI = ar_RedirectURI rq, xp_Code = lc_code r,
                                         xp_Verifier = ar_Verifier rq, xp_Scope = scope, xp_Issuer = lc_iss r\<rparr> s1))))))"

text \<open>
  The instructions of the paste flow. The outcome of each write is an argument; what was written before
  an error stays written.
\<close>

definition paste_lines :: "string \<Rightarrow> string list" where
  "paste_lines authorizeURL =
     [''Open this URL in any browser:'', [], ''    '' @ authorizeURL, [], ''After approving, paste the full redirect URL here:'']"

fun write_lines :: "(nat \<Rightarrow> goerr option) \<Rightarrow> nat \<Rightarrow> string list \<Rightarrow> goerr option \<times> string" where
  "write_lines out i [] = (None, [])"
| "write_lines out i (line # lines) =
     (case out i of
        Some err \<Rightarrow> (Some (Wrap ''write paste instructions'' err), [])
      | None \<Rightarrow> (case write_lines out (Suc i) lines of (e, rest) \<Rightarrow> (e, line @ CHR 0x0A # rest)))"

definition writePasteInstructions :: "(nat \<Rightarrow> goerr option) \<Rightarrow> string \<Rightarrow> goerr option \<times> string" where
  "writePasteInstructions out authorizeURL = write_lines out 0 (paste_lines authorizeURL)"

text \<open>What the scanner returns: a line, a read error, or nothing. The reader and the writer of the options may be missing.\<close>

datatype scan_result = ScanLine string | ScanError goerr | ScanNothing

definition readPastedRedirect :: "scan_result \<Rightarrow> string \<Rightarrow> (string \<times> string) result" where
  "readPastedRedirect inp expectedState =
     (case inp of
        ScanError err \<Rightarrow> Inl (Wrap ''read paste'' err)
      | ScanNothing \<Rightarrow> Inl (Plain ''no input received'')
      | ScanLine line \<Rightarrow>
          (let pasted = go_TrimSpace line
           in if pasted = [] then Inl (Plain ''pasted URL is empty'')
              else (case url_Parse pasted of
                      Inl err \<Rightarrow> Inl (Wrap ''parse pasted URL'' err)
                    | Inr parsed \<Rightarrow>
                        (let q = url_Query parsed
                         in if values_Get q ''error'' \<noteq> []
                            then Inl (Plain (''authorize error: '' @ values_Get q ''error'' @ '': '' @ values_Get q ''error_description''))
                            else if values_Get q ''state'' \<noteq> expectedState
                            then Inl (Plain (''state mismatch: got '' @ go_Quote (values_Get q ''state'') @ '' want '' @ go_Quote expectedState))
                            else if values_Get q ''code'' = [] then Inl (Plain ''pasted URL has no ?code parameter'')
                            else Inr (values_Get q ''code'', values_Get q ''iss'')))))"

definition RunPasteRedirect ::
  "(string \<Rightarrow> string) \<Rightarrow> time_codec \<Rightarrow> 'n net \<Rightarrow> login_env \<Rightarrow> string \<Rightarrow> int \<Rightarrow> string \<Rightarrow> (nat \<Rightarrow> goerr option) option \<Rightarrow>
   scan_result option \<Rightarrow> 'n login_state \<Rightarrow> goerr option \<times> 'n login_state" where
  "RunPasteRedirect sha256 cd nt env issuer port0 scope0 out inp s =
     (let scope = normalizeScope scope0; port = (if port0 = 0 then 8765 else port0)
      in if inp = None then (Some (Plain ''PasteOptions.In is required''), s)
         else if out = None then (Some (Plain ''PasteOptions.Out is required''), s)
         else (case prepareAuthRequest sha256 cd nt env issuer port scope s of
            (Inl err, s1) \<Rightarrow> (Some err, s1)
          | (Inr rq, s1) \<Rightarrow>
              (case fst (writePasteInstructions (the out) (ar_URL rq)) of
                 Some err \<Rightarrow> (Some err, s1)
               | None \<Rightarrow>
                   (case readPastedRedirect (the inp) (ar_State rq) of
                      Inl err \<Rightarrow> (Some err, s1)
                    | Inr (code, iss) \<Rightarrow>
                        exchangeAndSave cd nt env issuer
                          \<lparr>xp_ClientID = ar_ClientID rq, xp_RedirectURI = ar_RedirectURI rq, xp_Code = code,
                           xp_Verifier = ar_Verifier rq, xp_Scope = scope, xp_Issuer = iss\<rparr> s1))))"

section \<open>Requests stay with the issuer\<close>

text \<open>Where the client may send a request: the issuer's metadata, or an endpoint validated against the issuer.\<close>

definition allowed_url :: "string \<Rightarrow> string \<Rightarrow> bool" where
  "allowed_url issuer u =
     (u = go_TrimRight issuer (CHR ''/'') @ ''/.well-known/oauth-authorization-server'' \<or> validateEndpoint issuer u = None)"

definition nets_agree :: "string \<Rightarrow> 'n net \<Rightarrow> (http_req \<Rightarrow> 'n \<Rightarrow> http_resp result \<times> 'n) \<Rightarrow> bool" where
  "nets_agree issuer nt send = (\<forall>rq n. allowed_url issuer (hr_URL rq) \<longrightarrow> nt_Do nt rq n = send rq n)"

lemma ep_validate_None:
  "ep_validate issuer e = None \<longleftrightarrow>
     validateEndpoint issuer (ep_Authorization e) = None \<and> validateEndpoint issuer (ep_Token e) = None \<and>
     (ep_Revocation e = [] \<or> validateEndpoint issuer (ep_Revocation e) = None) \<and>
     validateEndpoint issuer (ep_Registration e) = None"
  by (auto simp: ep_validate_def split: option.splits)

lemma login_endpoints_valid: "login_endpoints nt issuer s = (Inr e, s') \<Longrightarrow> ep_validate issuer e = None"
  by (auto simp: login_endpoints_def Let_def split: if_splits option.splits sum.splits prod.splits)

lemma net_send_agree:
  assumes "nets_agree issuer nt send" "allowed_url issuer (hr_URL rq)"
  shows "net_send (nt\<lparr>nt_Do := send\<rparr>) a b rq n = net_send nt a b rq n"
  using assms by (simp add: net_send_def nets_agree_def split: sum.splits)

lemma login_endpoints_agree:
  assumes "nets_agree issuer nt send"
  shows "login_endpoints (nt\<lparr>nt_Do := send\<rparr>) issuer s = login_endpoints nt issuer s"
proof -
  have "discoverEndpoints (nt\<lparr>nt_Do := send\<rparr>) issuer n = discoverEndpoints nt issuer n" for n
    by (simp add: discoverEndpoints_def Let_def net_send_agree [OF assms] allowed_url_def split: sum.splits prod.splits)
  then show ?thesis by (simp add: login_endpoints_def split: sum.splits prod.splits)
qed

lemma postToken_agree:
  assumes "nets_agree issuer nt send" "validateEndpoint issuer endpoint = None"
  shows "postToken (nt\<lparr>nt_Do := send\<rparr>) endpoint form n = postToken nt endpoint form n"
  by (simp add: postToken_def net_send_agree [OF assms(1)] allowed_url_def assms(2) split: sum.splits prod.splits)

lemma refresh_agree:
  assumes "nets_agree issuer nt send" "ep_validate issuer e = None"
  shows "refresh cd (nt\<lparr>nt_Do := send\<rparr>) env e host c s = refresh cd nt env e host c s"
  using assms by (simp add: refresh_def Let_def postToken_agree ep_validate_None)

lemma exchangeAndSave_agree:
  assumes "nets_agree issuer nt send"
  shows "exchangeAndSave cd (nt\<lparr>nt_Do := send\<rparr>) env issuer p s = exchangeAndSave cd nt env issuer p s"
proof -
  have "postToken (nt\<lparr>nt_Do := send\<rparr>) (ep_Token e) form n = postToken nt (ep_Token e) form n"
    if "login_endpoints nt issuer s = (Inr e, s1)" for e s1 form n
    using login_endpoints_valid [OF that] assms by (simp add: postToken_agree ep_validate_None)
  then show ?thesis
    by (simp add: exchangeAndSave_def Let_def login_endpoints_agree [OF assms] split: option.splits sum.splits prod.splits)
qed

lemma prepareAuthRequest_agree:
  assumes "nets_agree issuer nt send"
  shows "prepareAuthRequest sha cd (nt\<lparr>nt_Do := send\<rparr>) env issuer port scope s = prepareAuthRequest sha cd nt env issuer port scope s"
proof -
  have "ensureRegistered cd (nt\<lparr>nt_Do := send\<rparr>) env issuer e uri scope s1 = ensureRegistered cd nt env issuer e uri scope s1"
    if "login_endpoints nt issuer s = (Inr e, s1)" for e s1 uri
    using login_endpoints_valid [OF that]
    by (simp add: ensureRegistered_def Let_def net_send_agree [OF assms] allowed_url_def ep_validate_None
        split: sum.splits prod.splits)
  then show ?thesis
    by (simp add: prepareAuthRequest_def Let_def login_endpoints_agree [OF assms] split: sum.splits prod.splits)
qed


text \<open>A server that answers every request with a document of the right kind.\<close>

definition sample_metadata :: jtree where
  "sample_metadata =
     TObj [(''authorization_endpoint'', json_string ''https://as/authorize''), (''token_endpoint'', json_string ''https://as/token''),
           (''registration_endpoint'', json_string ''https://as/register'')]"

definition sample_dcr :: jtree where
  "sample_dcr = TObj [(''client_id'', json_string ''c2''), (''redirect_uris'', TArr (map json_string [''http://127.0.0.1:8765/callback'']))]"

definition sample_token :: jtree where
  "sample_token = TObj [(''access_token'', json_string ''at2''), (''token_type'', json_string ''bearer''), (''expires_in'', TNum ''60'')]"

definition sample_net :: "nat net" where
  "sample_net =
     \<lparr>nt_Do = (\<lambda>rq n. (Inr \<lparr>rsp_StatusCode = 200, rsp_Status = ''200 OK'',
        rsp_Body = compact (if hr_URL rq = ''https://as/token'' then sample_token
                            else if hr_URL rq = ''https://as/register'' then sample_dcr else sample_metadata)\<rparr>, n + 1))\<rparr>"

lemma wire_names [simp]:
  "unquote ''access_token'' = ''access_token''" "unquote ''token_type'' = ''token_type''" "unquote ''expires_in'' = ''expires_in''"
  "unquote ''client_id'' = ''client_id''" "unquote ''redirect_uris'' = ''redirect_uris''"
  "body_ok ''access_token''" "body_ok ''token_type''" "body_ok ''expires_in''" "body_ok ''client_id''" "body_ok ''redirect_uris''"
  by (rule plain_unquote plain_body, simp add: bs_def)+

lemma ascii_clean: "\<forall>c \<in> set s. code_of c < 128 \<Longrightarrow> utf8_clean s = s"
  using ascii_valid [of s] by (simp add: utf8_valid_def)

lemma sample_token_decodes:
  "decode_token (compact sample_token) =
     Inr \<lparr>tk_AccessToken = ''at2'', tk_RefreshToken = [], tk_TokenType = ''bearer'', tk_ExpiresIn = 60, tk_Scope = []\<rparr>"
proof -
  have n: "number_ok ''60''" "ParseInt64 ''60'' = Inr 60" by code_simp+
  show ?thesis
    using decode_compact [of "[(''access_token'', json_string ''at2''), (''token_type'', json_string ''bearer''), (''expires_in'', TNum ''60'')]" "[]" token_field] n
    by (simp add: decode_token_def sample_token_def token_field_def is_field_def lower_char_def dec_int_def ascii_clean)
qed

lemma sample_dcr_decodes:
  "decode_dcr (compact sample_dcr) =
     Inr \<lparr>dr_ClientID = ''c2'', dr_ClientSecret = [], dr_RedirectURIs = [''http://127.0.0.1:8765/callback'']\<rparr>"
  using decode_compact [of "[(''client_id'', json_string ''c2''), (''redirect_uris'', TArr (map json_string [''http://127.0.0.1:8765/callback'']))]" "[]" dcr_field]
    dec_strings_json [of "[''http://127.0.0.1:8765/callback'']"]
  by (simp add: decode_dcr_def sample_dcr_def dcr_field_def is_field_def lower_char_def ascii_clean)

definition sample_login_env :: login_env where
  "sample_login_env = \<lparr>le_io = (\<lambda>_. io_fine), le_verifier = Inr ''v'', le_state = Inr ''s'', le_now = 100, le_now_saved = 100\<rparr>"

definition fresh_login :: "nat login_state" where
  "fresh_login = \<lparr>ls_Endpoints = zero_Endpoints, ls_disk = None, ls_net = 0\<rparr>"


section \<open>Tokens and the credentials file\<close>

definition stored :: "time_codec \<Rightarrow> 'n login_state \<Rightarrow> string \<Rightarrow> Credentials option" where
  "stored cd s host = cs_hosts (cred_abs cd (ls_disk s)) host"

definition files_ok :: "time_codec \<Rightarrow> login_env \<Rightarrow> 'n login_state \<Rightarrow> bool" where
  "files_ok cd env s = (time_codec_ok cd \<and> cred_wf cd (ls_disk s) \<and> (\<forall>i. io_read (le_io env i) = None))"

text \<open>The issuer and its host are UTF-8, so the file holds them as they are.\<close>

definition issuer_text :: "string \<Rightarrow> bool" where
  "issuer_text issuer = (utf8_valid issuer \<and> (case HostFromIssuer issuer of Inl _ \<Rightarrow> True | Inr host \<Rightarrow> utf8_valid host))"

lemma load_stored:
  assumes "files_ok cd env s"
  shows "LoadHost cd (le_io env i) host (ls_disk s) = (case stored cd s host of None \<Rightarrow> Inl (Sentinel ErrNotLoggedIn) | Some c \<Rightarrow> Inr c)"
  using assms LoadHost_abs [of cd "ls_disk s" "le_io env i" host] by (simp add: files_ok_def stored_def)

lemma stored_text:
  assumes "files_ok cd env s" "stored cd s host = Some c"
  shows "utf8_valid host" "clean_creds c = c"
proof -
  from assms(1) have "cred_wf cd (ls_disk s)" "io_read (le_io env 0) = None" by (simp_all add: files_ok_def)
  then have "utf8_valid host \<and> clean_creds c = c"
    by (cases rule: loadAll_wf) (use assms(2) in \<open>auto simp: stored_def\<close>)
  then show "utf8_valid host" "clean_creds c = c" by blast+
qed

lemma save_stored:
  assumes "files_ok cd env s" "utf8_valid host" "SaveHost cd (le_io env i) host c (ls_disk s) = (None, d)"
  shows "stored cd (s\<lparr>ls_disk := d, ls_net := n, ls_Endpoints := e\<rparr>) host' = (if host' = host then Some (clean_creds c) else stored cd s host')"
    and "files_ok cd env (s\<lparr>ls_disk := d, ls_net := n, ls_Endpoints := e\<rparr>)"
  using assms credentials.load_save [of cd "ls_disk s" "le_io env i" host c d host'] credentials.save_wf [of cd "ls_disk s" "le_io env i" host c None d]
  by (simp_all add: files_ok_def stored_def)

lemma postToken_text:
  assumes "postToken nt u form n = (Inr tok, n')"
  shows "utf8_clean (tk_AccessToken tok) = tk_AccessToken tok" "utf8_clean (tk_RefreshToken tok) = tk_RefreshToken tok" "tk_AccessToken tok \<noteq> []"
proof -
  from assms obtain body where b: "decode_token body = Inr tok" "tk_AccessToken tok \<noteq> []"
    by (auto simp: postToken_def split: sum.splits prod.splits if_splits)
  from decode_token_text [OF b(1)] b(2)
  show "utf8_clean (tk_AccessToken tok) = tk_AccessToken tok" "utf8_clean (tk_RefreshToken tok) = tk_RefreshToken tok" "tk_AccessToken tok \<noteq> []" by blast+
qed

lemma login_endpoints_disk: "login_endpoints nt issuer s = (r, s') \<Longrightarrow> ls_disk s' = ls_disk s"
  by (auto simp: login_endpoints_def Let_def split: if_splits option.splits sum.splits prod.splits)

lemma stored_disk: "ls_disk s' = ls_disk s \<Longrightarrow> stored cd s' = stored cd s \<and> files_ok cd env s' = files_ok cd env s"
  by (auto simp: stored_def files_ok_def fun_eq_iff)

lemma refresh_saved:
  assumes "files_ok cd env s" "stored cd s host = Some c" "refresh cd nt env e host c s = (Inr tok, s')"
  shows "stored cd s' host = Some (store_tokens (le_now_saved env) tok c)" "tk_AccessToken tok \<noteq> []"
proof -
  obtain n d where n: "postToken nt (ep_Token e) (values_Set ''client_id'' (cr_ClientID c) (values_Set ''refresh_token'' (cr_RefreshToken c)
        (values_Set ''grant_type'' ''refresh_token'' []))) (ls_net s) = (Inr tok, n)"
    and d: "SaveHost cd (le_io env 1) host (store_tokens (le_now_saved env) tok c) (ls_disk s) = (None, d)" "s' = s\<lparr>ls_net := n, ls_disk := d\<rparr>"
    using assms(3) by (auto simp: refresh_def Let_def split: sum.splits prod.splits option.splits)
  note old = stored_text [OF assms(1,2)] and tok = postToken_text [OF n]
  have "clean_creds (store_tokens (le_now_saved env) tok c) = store_tokens (le_now_saved env) tok c"
    using old(2) tok(1,2) unfolding clean_creds_iff by (simp add: store_tokens_def)
  with save_stored(1) [OF assms(1) old(1) d(1), where n = n and e = "ls_Endpoints s" and host' = host]
  show "stored cd s' host = Some (store_tokens (le_now_saved env) tok c)" by (simp add: d(2) stored_def)
  show "tk_AccessToken tok \<noteq> []" by (rule tok(3))
qed


definition old_creds :: Credentials where
  "old_creds = zero_Credentials\<lparr>cr_Issuer := ''https://as/a'', cr_ClientID := ''c1'', cr_AccessToken := ''at1'', cr_RefreshToken := ''rt1'',
     cr_ExpiresAt := 1000000000000\<rparr>"

text \<open>The file with one host.\<close>

definition disk_of :: "Credentials \<Rightarrow> disk" where
  "disk_of c = (case store_MarshalIndent dec_times \<lparr>st_Current = ''as'', st_Hosts = Some [(''as'', c)]\<rparr> of Inl _ \<Rightarrow> None | Inr data \<Rightarrow> Some data)"

lemma disk_of_read:
  assumes "in_int64 (cr_ExpiresAt c)" "clean_creds c = c"
  obtains data where "store_MarshalIndent dec_times \<lparr>st_Current = ''as'', st_Hosts = Some [(''as'', c)]\<rparr> = Inr data" "disk_of c = Some data"
    "store_Unmarshal dec_times data = Inr \<lparr>st_Current = ''as'', st_Hosts = Some [(''as'', c)]\<rparr>"
proof -
  let ?st = "\<lparr>st_Current = ''as'', st_Hosts = Some [(''as'', c)]\<rparr>"
  obtain data where m: "store_MarshalIndent dec_times ?st = Inr data"
    using assms(1) by (fastforce simp: store_MarshalIndent_def sort_strings_def gm_get_def cred_tree_def dec_times_def)
  have "clean_store ?st = ?st"
    using assms(2) by (simp add: clean_store_def clean_hosts_def sort_strings_def gm_get_def gm_put_def ascii_clean)
  with store_read [OF dec_times_ok m] have "store_Unmarshal dec_times data = Inr ?st" by simp
  with m show thesis using that by (simp add: disk_of_def)
qed

lemma disk_of_load:
  assumes "in_int64 (cr_ExpiresAt c)" "clean_creds c = c"
  shows "LoadHost dec_times io_fine ''as'' (disk_of c) = Inr c" "cred_wf dec_times (disk_of c)"
    "cs_hosts (cred_abs dec_times (disk_of c)) ''as'' = Some c"
proof -
  from assms obtain data where "disk_of c = Some data" "store_Unmarshal dec_times data = Inr \<lparr>st_Current = ''as'', st_Hosts = Some [(''as'', c)]\<rparr>"
    by (rule disk_of_read)
  then show "LoadHost dec_times io_fine ''as'' (disk_of c) = Inr c" "cred_wf dec_times (disk_of c)"
    "cs_hosts (cred_abs dec_times (disk_of c)) ''as'' = Some c"
    by (simp_all add: LoadHost_def loadAll_def io_fine_def gm_get_def cred_wf_def cred_abs_def gm_wf_def)
qed

lemma disk_of_save:
  assumes "in_int64 (cr_ExpiresAt c)" "clean_creds c = c" "in_int64 (cr_ExpiresAt c')" "clean_creds c' = c'"
  shows "SaveHost dec_times io_fine ''as'' c' (disk_of c) = (None, disk_of c')"
proof -
  from assms(1,2) obtain data where d: "disk_of c = Some data" "store_Unmarshal dec_times data = Inr \<lparr>st_Current = ''as'', st_Hosts = Some [(''as'', c)]\<rparr>"
    by (rule disk_of_read)
  from assms(3,4) obtain data' where "store_MarshalIndent dec_times \<lparr>st_Current = ''as'', st_Hosts = Some [(''as'', c')]\<rparr> = Inr data'" "disk_of c' = Some data'"
    by (rule disk_of_read)
  with d show ?thesis by (simp add: SaveHost_def loadAll_def io_fine_def gm_put_def cred_write_def)
qed

definition old_login :: "nat login_state" where
  "old_login = \<lparr>ls_Endpoints = zero_Endpoints, ls_disk = disk_of old_creds, ls_net = 0\<rparr>"

lemma old_creds_ok: "in_int64 (cr_ExpiresAt old_creds)" "clean_creds old_creds = old_creds"
  by (simp_all add: old_creds_def zero_Credentials_def clean_creds_def ascii_clean in_int64_def)

lemma old_login_files: "files_ok dec_times sample_login_env old_login"
  by (simp add: files_ok_def dec_times_ok old_login_def disk_of_load old_creds_ok sample_login_env_def io_fine_def)

lemma old_login_stored: "stored dec_times old_login ''as'' = Some old_creds"
  by (simp add: stored_def old_login_def disk_of_load old_creds_ok)


lemma ensureRegistered_keeps:
  assumes "files_ok cd env s" "ensureRegistered cd nt env issuer e uri scope s = (r, s')"
  shows "files_ok cd env s'"
proof -
  have "files_ok cd env (s\<lparr>ls_net := n, ls_disk := d\<rparr>)" if "SaveHost cd (le_io env i) host c (ls_disk s) = (x, d)" for n d i host c x
    using assms(1) credentials.save_wf [of cd "ls_disk s" "le_io env i" host c x d] that by (simp add: files_ok_def)
  moreover have "files_ok cd env (s\<lparr>ls_net := n\<rparr>)" for n using assms(1) by (simp add: files_ok_def)
  ultimately show ?thesis
    using assms by (auto simp: ensureRegistered_def Let_def split: sum.splits prod.splits if_splits option.splits)
qed

lemma prepareAuthRequest_keeps:
  assumes "files_ok cd env s" "prepareAuthRequest sha cd nt env issuer port scope s = (r, s')"
  shows "files_ok cd env s'"
proof -
  have "files_ok cd env s1" if "login_endpoints nt issuer s = (x, s1)" for x s1
    using stored_disk [OF login_endpoints_disk [OF that]] assms(1) by simp
  then show ?thesis
    using assms(2) ensureRegistered_keeps
    by (auto simp: prepareAuthRequest_def Let_def split: sum.splits prod.splits)
qed

lemma ensureRegistered_text:
  assumes "files_ok cd env s" "ensureRegistered cd nt env issuer e uri scope s = (Inr cid, s')"
  shows "utf8_clean cid = cid"
proof -
  from assms(2) obtain host where h: "HostFromIssuer issuer = Inr host" by (auto simp: ensureRegistered_def split: sum.splits)
  from assms(2) h consider c where "stored cd s host = Some c" "cid = cr_ClientID c"
    | dcr body where "decode_dcr body = Inr dcr" "cid = dr_ClientID dcr"
    by (auto simp: ensureRegistered_def Let_def load_stored [OF assms(1)] loaded_def split: sum.splits prod.splits if_splits option.splits)
  then show ?thesis
  proof cases
    case 1
    from stored_text(2) [OF assms(1) 1(1)] 1(2) show ?thesis by (simp add: clean_creds_iff)
  next
    case 2
    from decode_dcr_text(1) [OF 2(1)] 2(2) show ?thesis by simp
  qed
qed

lemma prepareAuthRequest_text:
  assumes "files_ok cd env s" "prepareAuthRequest sha cd nt env issuer port scope s = (Inr rq, s')"
  shows "utf8_clean (ar_ClientID rq) = ar_ClientID rq"
proof -
  from assms(2) obtain e s1 cid s2 uri where e: "login_endpoints nt issuer s = (Inr e, s1)"
      "ensureRegistered cd nt env issuer e uri scope s1 = (Inr cid, s2)" "ar_ClientID rq = cid"
    by (auto simp: prepareAuthRequest_def Let_def split: sum.splits prod.splits)
  have "files_ok cd env s1" using stored_disk [OF login_endpoints_disk [OF e(1)]] assms(1) by simp
  from ensureRegistered_text [OF this e(2)] e(3) show ?thesis by simp
qed

lemma normalizeScope_text: "utf8_clean scope = scope \<Longrightarrow> utf8_clean (normalizeScope scope) = normalizeScope scope"
  by (simp add: normalizeScope_def defaultScope_def ascii_clean)

text \<open>What a successful exchange leaves: the token of this code, stored for this issuer and client.\<close>

lemma exchange_saved:
  assumes "files_ok cd env s" "issuer_text issuer" "utf8_clean (xp_ClientID xp) = xp_ClientID xp" "utf8_clean (xp_Scope xp) = xp_Scope xp"
    and "exchangeAndSave cd nt env issuer xp s = (None, s')"
  shows "\<exists>host e s2 tok n c.
     (xp_Issuer xp = [] \<or> go_TrimRight (go_TrimSpace (xp_Issuer xp)) (CHR ''/'') = issuer) \<and>
     login_endpoints nt issuer s = (Inr e, s2) \<and> postToken nt (ep_Token e) (exchange_form xp) (ls_net s2) = (Inr tok, n) \<and>
     HostFromIssuer issuer = Inr host \<and> stored cd s' host = Some c \<and>
     cr_Issuer c = issuer \<and> cr_ClientID c = xp_ClientID xp \<and> cr_AccessToken c = tk_AccessToken tok \<and> cr_Scope c = xp_Scope xp"
proof -
  from assms(5) have iss: "validateAuthorizeIssuer issuer (xp_Issuer xp) = None" by (auto simp: exchangeAndSave_def split: option.splits)
  then have iss': "xp_Issuer xp = [] \<or> go_TrimRight (go_TrimSpace (xp_Issuer xp)) (CHR ''/'') = issuer"
    by (auto simp: validateAuthorizeIssuer_def split: if_splits)
  from assms(5) iss obtain host e s2 tok n d c0 where x: "HostFromIssuer issuer = Inr host" "login_endpoints nt issuer s = (Inr e, s2)"
      "postToken nt (ep_Token e) (exchange_form xp) (ls_net s2) = (Inr tok, n)"
      "SaveHost cd (le_io env 4) host ((store_tokens (le_now_saved env) tok c0)
         \<lparr>cr_Issuer := issuer, cr_ClientID := xp_ClientID xp, cr_Scope := xp_Scope xp\<rparr>) (ls_disk s2) = (None, d)"
      "s' = s2\<lparr>ls_net := n, ls_disk := d\<rparr>"
    by (auto simp: exchangeAndSave_def Let_def split: sum.splits prod.splits)
  have host: "utf8_valid host" "utf8_clean issuer = issuer" using assms(2) x(1) by (auto simp: issuer_text_def utf8_valid_def)
  have "files_ok cd env s2" using stored_disk [OF login_endpoints_disk [OF x(2)]] assms(1) by simp
  from save_stored(1) [OF this host(1) x(4), where n = n and e = "ls_Endpoints s2" and host' = host] host(2) postToken_text(1) [OF x(3)] assms(3,4)
  have "\<exists>c. stored cd s' host = Some c \<and> cr_Issuer c = issuer \<and> cr_ClientID c = xp_ClientID xp \<and>
      cr_AccessToken c = tk_AccessToken tok \<and> cr_Scope c = xp_Scope xp"
    by (simp add: x(5) stored_def store_tokens_def)
  with iss' x(1-3) show ?thesis by blast
qed

text \<open>
  C12 (a login ends with this request's answer). \<^verbatim>\<open>RunLoopback\<close> succeeds only when the callback carried
  the state that was put into the authorization URL, no error, and either no issuer or this issuer;
  then the code was redeemed with the verifier of this request and the file holds, for this issuer
  and client, the access token the token endpoint gave for it. (Issuer and scope are UTF-8 text.)\<close>

theorem loopback_login_checked:
  assumes "files_ok cd env s" "issuer_text issuer" "utf8_valid scope"
    and "RunLoopback sha cd nt env issuer listen scope (CallbackGot q) s = (None, s')"
  shows "\<exists>port rq s1 host e s2 tok n c.
     listen = Inr port \<and> prepareAuthRequest sha cd nt env issuer port (normalizeScope scope) s = (Inr rq, s1) \<and>
     values_Get q ''error'' = [] \<and> values_Get q ''state'' = ar_State rq \<and>
     (values_Get q ''iss'' = [] \<or> go_TrimRight (go_TrimSpace (values_Get q ''iss'')) (CHR ''/'') = issuer) \<and>
     login_endpoints nt issuer s1 = (Inr e, s2) \<and>
     postToken nt (ep_Token e) (exchange_form \<lparr>xp_ClientID = ar_ClientID rq, xp_RedirectURI = ar_RedirectURI rq,
       xp_Code = values_Get q ''code'', xp_Verifier = ar_Verifier rq, xp_Scope = normalizeScope scope,
       xp_Issuer = values_Get q ''iss''\<rparr>) (ls_net s2) = (Inr tok, n) \<and>
     HostFromIssuer issuer = Inr host \<and> stored cd s' host = Some c \<and>
     cr_Issuer c = issuer \<and> cr_ClientID c = ar_ClientID rq \<and> cr_AccessToken c = tk_AccessToken tok \<and> cr_Scope c = normalizeScope scope"
proof -
  from assms(4) obtain port where port: "listen = Inr port" by (auto simp: RunLoopback_def Let_def split: sum.splits)
  with assms(4) obtain rq s1 where p: "prepareAuthRequest sha cd nt env issuer port (normalizeScope scope) s = (Inr rq, s1)"
    by (auto simp: RunLoopback_def Let_def split: sum.splits prod.splits)
  let ?r = "loopback_callback q"
  define xp where "xp = \<lparr>xp_ClientID = ar_ClientID rq, xp_RedirectURI = ar_RedirectURI rq, xp_Code = lc_code ?r,
      xp_Verifier = ar_Verifier rq, xp_Scope = normalizeScope scope, xp_Issuer = lc_iss ?r\<rparr>"
  from assms(4) port p have cb: "lc_err ?r = None" "lc_state ?r = ar_State rq" "exchangeAndSave cd nt env issuer xp s1 = (None, s')"
    by (auto simp: RunLoopback_def Let_def xp_def split: option.splits if_splits)
  from cb(1) have err: "values_Get q ''error'' = []" by (auto simp: loopback_callback_def Let_def split: if_splits)
  then have q: "lc_state ?r = values_Get q ''state''" "lc_iss ?r = values_Get q ''iss''" "lc_code ?r = values_Get q ''code''"
    by (simp_all add: loopback_callback_def Let_def)
  have "utf8_clean (xp_ClientID xp) = xp_ClientID xp" "utf8_clean (xp_Scope xp) = xp_Scope xp"
    using prepareAuthRequest_text [OF assms(1) p] assms(3) by (simp_all add: xp_def utf8_valid_def normalizeScope_text)
  from exchange_saved [OF prepareAuthRequest_keeps [OF assms(1) p] assms(2) this cb(3)] port p err cb(2) q
  show ?thesis unfolding xp_def by fastforce
qed

definition registered_creds :: Credentials where
  "registered_creds = zero_Credentials\<lparr>cr_Issuer := ''https://as'', cr_ClientID := ''c2'', cr_RedirectURIs := [''http://127.0.0.1:8765/callback'']\<rparr>"

definition known_endpoints :: Endpoints where
  "known_endpoints = \<lparr>ep_Authorization = ''https://as/authorize'', ep_Token = ''https://as/token'', ep_Revocation = [],
     ep_Registration = ''https://as/register''\<rparr>"

definition known_login :: "nat login_state" where
  "known_login = \<lparr>ls_Endpoints = known_endpoints, ls_disk = disk_of registered_creds, ls_net = 0\<rparr>"

lemma registered_creds_ok: "in_int64 (cr_ExpiresAt registered_creds)" "clean_creds registered_creds = registered_creds"
  by (simp_all add: registered_creds_def zero_Credentials_def clean_creds_def ascii_clean in_int64_def)

lemma known_login_files: "files_ok dec_times sample_login_env known_login"
  by (simp add: files_ok_def dec_times_ok known_login_def disk_of_load registered_creds_ok sample_login_env_def io_fine_def)

lemma known_login_values:
  "HostFromIssuer ''https://as'' = Inr ''as''"
  "NewPKCEPair id (Inr ''v'') = Inr \<lparr>pk_Verifier = ''dg'', pk_Challenge = ''ZGc'', pk_Method = ''S256''\<rparr>"
  "RandomState (Inr ''s'') = Inr ''cw''"
  "FormatInt 8765 = ''8765''"
  "case_sum (\<lambda>_. False) (\<lambda>_. True) (url_Parse ''https://as/token'')"
  "normalizeScope [] = ''mcp.read''"
  by code_simp+

lemma known_login_endpoints:
  "login_endpoints sample_net ''https://as'' known_login = (Inr known_endpoints, known_login)"
  by code_simp

lemmas known_login_load = disk_of_load(1) [OF registered_creds_ok]

definition logged_in_creds :: Credentials where
  "logged_in_creds = registered_creds\<lparr>cr_AccessToken := ''at2'', cr_ExpiresAt := 60000000100, cr_Scope := ''mcp.read''\<rparr>"

lemma logged_in_creds_ok: "in_int64 (cr_ExpiresAt logged_in_creds)" "clean_creds logged_in_creds = logged_in_creds"
  by (simp_all add: logged_in_creds_def registered_creds_def zero_Credentials_def clean_creds_def ascii_clean in_int64_def)

lemma known_login_save:
  "SaveHost dec_times io_fine ''as'' (store_tokens 100 \<lparr>tk_AccessToken = ''at2'', tk_RefreshToken = [], tk_TokenType = ''bearer'',
      tk_ExpiresIn = 60, tk_Scope = []\<rparr> registered_creds
      \<lparr>cr_Issuer := ''https://as'', cr_ClientID := ''c2'', cr_Scope := ''mcp.read''\<rparr>) (disk_of registered_creds) = (None, disk_of logged_in_creds)"
proof -
  have "expires_at 100 60 = 60000000100" by code_simp
  then have "store_tokens 100 \<lparr>tk_AccessToken = ''at2'', tk_RefreshToken = [], tk_TokenType = ''bearer'', tk_ExpiresIn = 60, tk_Scope = []\<rparr> registered_creds
      \<lparr>cr_Issuer := ''https://as'', cr_ClientID := ''c2'', cr_Scope := ''mcp.read''\<rparr> = logged_in_creds"
    by (simp add: store_tokens_def logged_in_creds_def registered_creds_def)
  with disk_of_save [OF registered_creds_ok logged_in_creds_ok] show ?thesis by simp
qed

lemma known_login_registered:
  "ensureRegistered dec_times sample_net sample_login_env ''https://as'' known_endpoints ''http://127.0.0.1:8765/callback'' ''mcp.read'' known_login =
     (Inr ''c2'', known_login)"
  by (simp add: ensureRegistered_def known_login_values(1) sample_login_env_def known_login_def known_login_load)
    (simp add: registered_creds_def loaded_def)

lemmas known_login_steps = known_login_values known_login_endpoints known_login_load known_login_save known_login_registered

lemma known_login_prepares:
  "\<exists>u. prepareAuthRequest id dec_times sample_net sample_login_env ''https://as'' 8765 ''mcp.read'' known_login =
     (Inr \<lparr>ar_ClientID = ''c2'', ar_RedirectURI = ''http://127.0.0.1:8765/callback'', ar_State = ''cw'', ar_URL = u, ar_Verifier = ''dg''\<rparr>, known_login)"
  using known_login_registered by (simp add: prepareAuthRequest_def Let_def known_login_steps sample_login_env_def)

lemma known_login_token: "postToken sample_net ''https://as/token'' form n =
  (Inr \<lparr>tk_AccessToken = ''at2'', tk_RefreshToken = [], tk_TokenType = ''bearer'', tk_ExpiresIn = 60, tk_Scope = []\<rparr>, n + 1)"
  using known_login_values(5) by (auto simp: postToken_def net_send_def sample_net_def sample_token_decodes split: sum.splits)

theorem loopback_login_checked_witness:
  "\<exists>s' c. RunLoopback id dec_times sample_net sample_login_env ''https://as'' (Inr 8765) []
      (CallbackGot [(''state'', [''cw'']), (''code'', [''k''])]) known_login = (None, s') \<and>
     stored dec_times s' ''as'' = Some c \<and> cr_Issuer c = ''https://as''"
proof -
  let ?s = "known_login\<lparr>ls_net := 1, ls_disk := disk_of logged_in_creds\<rparr>"
  have d: "ls_disk known_login = disk_of registered_creds" "ls_net known_login = 0" "ep_Token known_endpoints = ''https://as/token''"
    "\<And>i. le_io sample_login_env i = io_fine" "le_now_saved sample_login_env = 100"
    by (simp_all add: known_login_def known_endpoints_def sample_login_env_def)
  have r: "RunLoopback id dec_times sample_net sample_login_env ''https://as'' (Inr 8765) []
      (CallbackGot [(''state'', [''cw'']), (''code'', [''k''])]) known_login = (None, ?s)"
    using known_login_prepares
    by (auto simp: RunLoopback_def loopback_callback_def values_Get_def gm_get_def
        exchangeAndSave_def validateAuthorizeIssuer_def known_login_steps known_login_token loaded_def d)
  have "issuer_text ''https://as''" using known_login_values(1) by (simp add: issuer_text_def ascii_valid)
  from loopback_login_checked [OF known_login_files this _ r] known_login_values(1) r show ?thesis by auto
qed

text \<open>
  C22 (a pasted redirect is checked the same way). \<^verbatim>\<open>RunPasteRedirect\<close> succeeds only when the pasted
  line is a URL whose query carries a code, the state that was put into the authorization URL, no error,
  and either no issuer or this issuer; then the code was redeemed with the verifier of this request and
  the file holds, for this issuer and client, the access token the token endpoint gave for it.\<close>

theorem paste_login_checked:
  assumes "files_ok cd env s" "issuer_text issuer" "utf8_valid scope"
    and "RunPasteRedirect sha cd nt env issuer port scope out inp s = (None, s')"
  shows "\<exists>rq s1 line u host e s2 tok n c.
     prepareAuthRequest sha cd nt env issuer (if port = 0 then 8765 else port) (normalizeScope scope) s = (Inr rq, s1) \<and>
     inp = Some (ScanLine line) \<and> url_Parse (go_TrimSpace line) = Inr u \<and>
     (let q = url_Query u
      in values_Get q ''error'' = [] \<and> values_Get q ''state'' = ar_State rq \<and> values_Get q ''code'' \<noteq> [] \<and>
         (values_Get q ''iss'' = [] \<or> go_TrimRight (go_TrimSpace (values_Get q ''iss'')) (CHR ''/'') = issuer) \<and>
         login_endpoints nt issuer s1 = (Inr e, s2) \<and>
         postToken nt (ep_Token e) (exchange_form \<lparr>xp_ClientID = ar_ClientID rq, xp_RedirectURI = ar_RedirectURI rq,
           xp_Code = values_Get q ''code'', xp_Verifier = ar_Verifier rq, xp_Scope = normalizeScope scope,
           xp_Issuer = values_Get q ''iss''\<rparr>) (ls_net s2) = (Inr tok, n)) \<and>
     HostFromIssuer issuer = Inr host \<and> stored cd s' host = Some c \<and>
     cr_Issuer c = issuer \<and> cr_ClientID c = ar_ClientID rq \<and> cr_AccessToken c = tk_AccessToken tok \<and> cr_Scope c = normalizeScope scope"
proof -
  let ?port = "if port = 0 then 8765 else port"
  from assms(4) obtain rq s1 where p: "prepareAuthRequest sha cd nt env issuer ?port (normalizeScope scope) s = (Inr rq, s1)"
    by (auto simp: RunPasteRedirect_def Let_def split: sum.splits prod.splits if_splits)
  from assms(4) p obtain sr code iss where sr: "inp = Some sr" "readPastedRedirect sr (ar_State rq) = Inr (code, iss)"
      and x: "exchangeAndSave cd nt env issuer \<lparr>xp_ClientID = ar_ClientID rq, xp_RedirectURI = ar_RedirectURI rq, xp_Code = code,
        xp_Verifier = ar_Verifier rq, xp_Scope = normalizeScope scope, xp_Issuer = iss\<rparr> s1 = (None, s')"
    by (auto simp: RunPasteRedirect_def Let_def split: if_splits option.splits sum.splits)
  from sr(2) obtain line u where l: "sr = ScanLine line" "url_Parse (go_TrimSpace line) = Inr u"
      "values_Get (url_Query u) ''error'' = []" "values_Get (url_Query u) ''state'' = ar_State rq" "values_Get (url_Query u) ''code'' \<noteq> []"
      "code = values_Get (url_Query u) ''code''" "iss = values_Get (url_Query u) ''iss''"
    by (auto simp: readPastedRedirect_def Let_def split: scan_result.splits if_splits sum.splits)
  have "utf8_clean (ar_ClientID rq) = ar_ClientID rq" "utf8_clean (normalizeScope scope) = normalizeScope scope"
    using prepareAuthRequest_text [OF assms(1) p] assms(3) by (simp_all add: utf8_valid_def normalizeScope_text)
  with exchange_saved [OF prepareAuthRequest_keeps [OF assms(1) p] assms(2) _ _ x] p sr(1) l show ?thesis by (simp add: Let_def)
qed

theorem paste_login_checked_witness:
  "\<exists>s' c. RunPasteRedirect id dec_times sample_net sample_login_env ''https://as'' 0 [] (Some (\<lambda>_. None))
      (Some (ScanLine ''http://127.0.0.1:8765/callback?state=cw&code=k'')) known_login = (None, s') \<and>
     stored dec_times s' ''as'' = Some c \<and> cr_Issuer c = ''https://as''"
proof -
  let ?s = "known_login\<lparr>ls_net := 1, ls_disk := disk_of logged_in_creds\<rparr>"
  have d: "ls_disk known_login = disk_of registered_creds" "ls_net known_login = 0" "ep_Token known_endpoints = ''https://as/token''"
    "\<And>i. le_io sample_login_env i = io_fine" "le_now_saved sample_login_env = 100"
    by (simp_all add: known_login_def known_endpoints_def sample_login_env_def)
  have q: "readPastedRedirect (ScanLine ''http://127.0.0.1:8765/callback?state=cw&code=k'') ''cw'' = Inr (''k'', [])" by code_simp
  have r: "RunPasteRedirect id dec_times sample_net sample_login_env ''https://as'' 0 [] (Some (\<lambda>_. None))
      (Some (ScanLine ''http://127.0.0.1:8765/callback?state=cw&code=k'')) known_login = (None, ?s)"
    using known_login_prepares
    by (auto simp: RunPasteRedirect_def writePasteInstructions_def paste_lines_def q
        exchangeAndSave_def validateAuthorizeIssuer_def known_login_steps known_login_token loaded_def d)
  have "issuer_text ''https://as''" using known_login_values(1) by (simp add: issuer_text_def ascii_valid)
  from paste_login_checked [OF known_login_files this _ r] known_login_values(1) r show ?thesis by (auto simp: Let_def)
qed

lemma ensureRegistered_files:
  assumes "files_ok cd env s" "ensureRegistered cd nt env issuer e uri scope s = (Inr cid, s')" "HostFromIssuer issuer = Inr host"
    and "stored cd s host = Some old" "cr_Issuer old \<noteq> issuer" "utf8_valid issuer"
  shows "\<exists>uris. stored cd s' host = Some (old\<lparr>cr_Issuer := issuer, cr_ClientID := cid, cr_RedirectURIs := uris\<rparr>)"
    and "files_ok cd env s'"
proof -
  obtain dcr :: dcrResponse and body where b: "decode_dcr body = Inr dcr" and d: "cid = dr_ClientID dcr" "s' = s\<lparr>ls_net := ls_net s', ls_disk := ls_disk s'\<rparr>"
      "SaveHost cd (le_io env 2) host (old\<lparr>cr_Issuer := issuer, cr_ClientID := dr_ClientID dcr, cr_RedirectURIs := dr_RedirectURIs dcr\<rparr>) (ls_disk s) = (None, ls_disk s')"
    using assms(2,3,4,5)
    by (auto simp: ensureRegistered_def Let_def load_stored [OF assms(1)] loaded_def split: sum.splits prod.splits if_splits option.splits)
  have cl: "clean_creds (old\<lparr>cr_Issuer := issuer, cr_ClientID := dr_ClientID dcr, cr_RedirectURIs := dr_RedirectURIs dcr\<rparr>) =
      old\<lparr>cr_Issuer := issuer, cr_ClientID := dr_ClientID dcr, cr_RedirectURIs := dr_RedirectURIs dcr\<rparr>"
    using stored_text(2) [OF assms(1,4)] decode_dcr_text [OF b] assms(6) unfolding clean_creds_iff by (simp add: utf8_valid_def)
  note sv = save_stored [OF assms(1) stored_text(1) [OF assms(1,4)] d(3), where n = "ls_net s'" and e = "ls_Endpoints s"]
  from sv(1) [where host' = host] show "\<exists>uris. stored cd s' host = Some (old\<lparr>cr_Issuer := issuer, cr_ClientID := cid, cr_RedirectURIs := uris\<rparr>)"
    by (auto simp: d(1) stored_def cl)
  from sv(2) show "files_ok cd env s'" by (simp add: files_ok_def)
qed

text \<open>
  When credentials of another issuer on the same host are
  stored and the client registers with this issuer, the file afterwards names this issuer but keeps
  the other issuer's tokens: a login that stops there leaves \<^verbatim>\<open>GetAccessToken\<close> handing out the access
  token of the other issuer.\<close>

lemma issuer_switch_keeps_tokens:
  assumes "files_ok cd env s" "HostFromIssuer issuer = Inr host" "stored cd s host = Some old" "cr_Issuer old \<noteq> issuer" "utf8_valid issuer"
    and "ensureRegistered cd nt env issuer e uri scope s = (Inr cid, s1)"
    and "\<forall>i. io_read (le_io env' i) = None" "\<not> NeedsRefresh (le_now env') old"
  shows "GetAccessToken cd nt env' issuer s1 = (Inr (cr_AccessToken old), s1)"
proof -
  obtain uris where st: "stored cd s1 host = Some (old\<lparr>cr_Issuer := issuer, cr_ClientID := cid, cr_RedirectURIs := uris\<rparr>)"
    using ensureRegistered_files(1) [OF assms(1,6,2,3,4,5)] by blast
  have "files_ok cd env' s1" using ensureRegistered_files(2) [OF assms(1,6,2,3,4,5)] assms(7) by (simp add: files_ok_def)
  moreover have "NeedsRefresh (le_now env') (old\<lparr>cr_Issuer := issuer, cr_ClientID := cid, cr_RedirectURIs := uris\<rparr>) = NeedsRefresh (le_now env') old"
    by (simp add: NeedsRefresh_def)
  ultimately show ?thesis using st assms(2,8) by (simp add: GetAccessToken_def load_stored)
qed

lemma issuer_switch_keeps_tokens_witness:
  "\<exists>s1. ensureRegistered dec_times sample_net sample_login_env ''https://as/b''
       (zero_Endpoints\<lparr>ep_Registration := ''https://as/register''\<rparr>) ''http://127.0.0.1:8765/callback'' ''mcp.read'' old_login = (Inr ''c2'', s1) \<and>
     GetAccessToken dec_times sample_net sample_login_env ''https://as/b'' s1 = (Inr ''at1'', s1)"
proof -
  have h: "HostFromIssuer ''https://as/b'' = Inr ''as''" by code_simp
  have n: "\<not> NeedsRefresh (le_now sample_login_env) old_creds" by code_simp
  have i: "\<forall>i. io_read (le_io sample_login_env i) = None" by (simp add: sample_login_env_def io_fine_def)
  have o: "cr_Issuer old_creds \<noteq> ''https://as/b''" by (simp add: old_creds_def)
  have u: "case_sum (\<lambda>_. False) (\<lambda>_. True) (url_Parse ''https://as/register'')" by code_simp
  let ?c = "old_creds\<lparr>cr_Issuer := ''https://as/b'', cr_ClientID := ''c2'', cr_RedirectURIs := [''http://127.0.0.1:8765/callback'']\<rparr>"
  have c: "in_int64 (cr_ExpiresAt ?c)" "clean_creds ?c = ?c"
    by (simp_all add: old_creds_def zero_Credentials_def clean_creds_def ascii_clean in_int64_def)
  have r: "ensureRegistered dec_times sample_net sample_login_env ''https://as/b''
      (zero_Endpoints\<lparr>ep_Registration := ''https://as/register''\<rparr>) ''http://127.0.0.1:8765/callback'' ''mcp.read'' old_login =
      (Inr ''c2'', old_login\<lparr>ls_net := 1, ls_disk := disk_of ?c\<rparr>)"
    using u o disk_of_save [OF old_creds_ok c]
    by (auto simp: ensureRegistered_def h sample_login_env_def old_login_def disk_of_load old_creds_ok loaded_def net_send_def sample_net_def
        sample_dcr_decodes split: sum.splits)
  have v: "utf8_valid ''https://as/b''" by (rule ascii_valid) simp
  from issuer_switch_keeps_tokens [OF old_login_files h old_login_stored o v r i n] r show ?thesis by (auto simp: old_creds_def)
qed

text \<open>
  A token answer without lifetime and refresh token leaves credentials that are never usable: the
  absent expiry counts as expired.\<close>

lemma token_without_lifetime_unusable:
  assumes "files_ok cd env s" "HostFromIssuer issuer = Inr host" "stored cd s host = Some (store_tokens now tok c)"
    and "cr_Issuer c = issuer" "cr_ExpiresAt c = 0" "cr_RefreshToken c = []" "tk_ExpiresIn tok = 0" "tk_RefreshToken tok = []"
  shows "GetAccessToken cd nt env issuer s =
    (Inl (Plain ''access token expired and no refresh token available; log in again''), s)"
  using assms by (simp add: GetAccessToken_def load_stored store_tokens_def NeedsRefresh_def time_IsZero_def)

text \<open>A lifetime of more than about 292 years wraps around and lies in the past.\<close>

lemma expires_in_wraps: "expires_at now 10000000000 < now"
  by (simp add: expires_at_def wrap64_def time_defs)

end
