(* ===== verification/CliSetup.thy ===== *)
theory CliSetup
  imports CliLogin
begin

text \<open>
  How the command-line client is put together (\<^verbatim>\<open>cliauth/login.go\<close>, \<^verbatim>\<open>cliauth/credstore.go\<close>,
  \<^verbatim>\<open>cliauth/browser.go\<close>) and what its loopback server answers (\<^verbatim>\<open>cliauth/login_http.go\<close>). Environment
  variables, the home directory, the operating system and the start of a process are arguments.
\<close>

section \<open>The credentials path\<close>

text \<open>
  \<^verbatim>\<open>filepath.Clean\<close> on slash-separated paths: empty and dot elements go, a double dot takes back the
  element before it, or stays in front of a relative path.
\<close>

definition clean_step :: "bool \<Rightarrow> string \<Rightarrow> string list \<Rightarrow> string list" where
  "clean_step rooted e acc =
     (if e = [] \<or> e = ''.'' then acc
      else if e = ''..'' then
        (case acc of
           [] \<Rightarrow> if rooted then [] else [e]
         | x # rest \<Rightarrow> if x = ''..'' then e # acc else rest)
      else e # acc)"

definition filepath_Clean :: "string \<Rightarrow> string" where
  "filepath_Clean path =
     (let rooted = (path \<noteq> [] \<and> hd path = CHR ''/'');
          elems = rev (fold (clean_step rooted) (go_Split path (CHR ''/'')) [])
      in if rooted then CHR ''/'' # go_Join elems ''/''
         else if elems = [] then ''.'' else go_Join elems ''/'')"

definition filepath_Join :: "string list \<Rightarrow> string" where
  "filepath_Join elems =
     (case filter (\<lambda>e. e \<noteq> []) elems of [] \<Rightarrow> [] | es \<Rightarrow> filepath_Clean (go_Join es ''/''))"

record path_env =
  pe_XDG_CONFIG_HOME :: string
  pe_UserHomeDir :: "string result"
  pe_sha256_hex :: "string \<Rightarrow> string"

definition DefaultCredPath :: "path_env \<Rightarrow> string \<Rightarrow> string result" where
  "DefaultCredPath pe issuer =
     (case normalizeIssuer issuer of
        Inl err \<Rightarrow> Inl err
      | Inr normalized \<Rightarrow>
          (case (if pe_XDG_CONFIG_HOME pe = []
                 then (case pe_UserHomeDir pe of
                         Inl err \<Rightarrow> Inl (Wrap ''locate home dir'' err)
                       | Inr home \<Rightarrow> Inr (filepath_Join [home, ''.config'']))
                 else Inr (pe_XDG_CONFIG_HOME pe)) of
             Inl err \<Rightarrow> Inl err
           | Inr base \<Rightarrow> Inr (filepath_Join [base, ''mcp-kit'', pe_sha256_hex pe normalized, ''credentials.json''])))"

section \<open>The login object\<close>

record CredStoreRef =
  cst_path :: string

definition NewCredStore :: "string \<Rightarrow> CredStoreRef" where "NewCredStore path = \<lparr>cst_path = path\<rparr>"

definition store_Path :: "CredStoreRef \<Rightarrow> string" where "store_Path s = cst_path s"

record 'n LoginOptions =
  lo_Issuer :: string
  lo_CredPath :: string
  lo_Store :: "CredStoreRef option"
  lo_HTTPClient :: "'n net option"
  lo_OpenURL :: "(string \<Rightarrow> goerr option) option"
  lo_Endpoints :: Endpoints

record 'n Login =
  lg_Issuer :: string
  lg_Store :: CredStoreRef
  lg_HTTPClient :: "'n net option"
  lg_OpenURL :: "(string \<Rightarrow> goerr option) option"
  lg_Endpoints :: Endpoints

definition NewLogin :: "path_env \<Rightarrow> 'n LoginOptions \<Rightarrow> 'n Login result" where
  "NewLogin pe opts =
     (case HostFromIssuer (lo_Issuer opts) of
        Inl err \<Rightarrow> Inl err
      | Inr _ \<Rightarrow>
          (case (case lo_Store opts of
                   Some store \<Rightarrow> Inr store
                 | None \<Rightarrow>
                     if lo_CredPath opts = []
                     then (case DefaultCredPath pe (lo_Issuer opts) of Inl err \<Rightarrow> Inl err | Inr path \<Rightarrow> Inr (NewCredStore path))
                     else Inr (NewCredStore (lo_CredPath opts))) of
             Inl err \<Rightarrow> Inl err
           | Inr store \<Rightarrow>
               Inr \<lparr>lg_Issuer = go_TrimRight (lo_Issuer opts) (CHR ''/''), lg_Store = store, lg_HTTPClient = lo_HTTPClient opts,
                    lg_OpenURL = lo_OpenURL opts, lg_Endpoints = lo_Endpoints opts\<rparr>))"

definition login_httpClient :: "'n net \<Rightarrow> 'n Login \<Rightarrow> 'n net" where
  "login_httpClient defaultClient l = (case lg_HTTPClient l of Some c \<Rightarrow> c | None \<Rightarrow> defaultClient)"

text \<open>Starting a command: its words, and the error of the start.\<close>

definition openBrowser :: "string \<Rightarrow> (string list \<Rightarrow> goerr option) \<Rightarrow> string \<Rightarrow> goerr option" where
  "openBrowser goos start url =
     (let cmd = (if goos = ''darwin'' then [''open'', url]
                 else if goos = ''windows'' then [''rundll32'', ''url.dll,FileProtocolHandler'', url]
                 else [''xdg-open'', url])
      in (case start cmd of Some err \<Rightarrow> Some (Wrap ''open browser'' err) | None \<Rightarrow> None))"

definition login_openURL :: "(string \<Rightarrow> goerr option) \<Rightarrow> 'n Login \<Rightarrow> string \<Rightarrow> goerr option" where
  "login_openURL browser l u = (case lg_OpenURL l of Some f \<Rightarrow> f u | None \<Rightarrow> browser u)"

section \<open>The loopback server\<close>

datatype net_addr = TCPAddr int | OtherAddr string

definition CallbackPort :: "net_addr \<Rightarrow> int" where
  "CallbackPort addr =
     (case addr of
        TCPAddr port \<Rightarrow> port
      | OtherAddr str \<Rightarrow>
          (case net_SplitHostPort str of
             Inl _ \<Rightarrow> 0
           | Inr (_, p) \<Rightarrow> (case ParseInt64 p of Inl _ \<Rightarrow> 0 | Inr n \<Rightarrow> n)))"

definition html_EscapeString :: "string \<Rightarrow> string" where "html_EscapeString s = concat (map html_escape s)"

definition page_lines :: "string list \<Rightarrow> string" where "page_lines ls = go_Join ls [CHR 0x0A]"

definition q_attr :: "string \<Rightarrow> string" where "q_attr s = CHR 0x22 # s @ [CHR 0x22]"

definition callbackSuccessPage :: string where
  "callbackSuccessPage =
     page_lines
       [''<!doctype html><html lang='' @ q_attr ''en'' @ ''>'',
        ''<head><meta charset='' @ q_attr ''utf-8'' @ ''><title>Authorized</title>'',
        ''<style>body{font-family:system-ui,sans-serif;max-width:520px;margin:80px auto;padding:0 20px;color:#0f172a}'',
        ''h1{color:#16a34a}p{color:#475569}</style></head>'',
        ''<body><h1>Authorized</h1>'',
        ''<p>You can close this tab and return to the terminal.</p></body></html>'']"

definition error_head :: string where
  "error_head =
     page_lines
       [''<!doctype html><html lang='' @ q_attr ''en'' @ ''><head><meta charset='' @ q_attr ''utf-8'' @ ''><title>Error</title>'',
        ''<style>body{font-family:system-ui,sans-serif;max-width:520px;margin:80px auto;padding:0 20px;color:#0f172a}'',
        ''h1{color:#dc2626}p{color:#475569}</style></head>'',
        ''<body><h1>Authorization failed</h1>'',
        ''<p><strong>'']"

definition error_tail :: string where
  "error_tail = page_lines [''</p>'', ''<p>Return to the terminal; the CLI has the details.</p></body></html>'']"

definition callbackErrorPage :: "string \<Rightarrow> string \<Rightarrow> string" where
  "callbackErrorPage code desc =
     error_head @ html_EscapeString code @ ''</strong></p><p>'' @ html_EscapeString desc @ error_tail"

text \<open>What the handler writes to the browser; \<^const>\<open>loopback_callback\<close> is what it sends to the login.\<close>

definition loopback_page :: "url_values \<Rightarrow> string" where
  "loopback_page q =
     (let errCode = values_Get q ''error''
      in if errCode \<noteq> [] then callbackErrorPage errCode (values_Get q ''error_description'') else callbackSuccessPage)"

section \<open>Facts\<close>

lemma html_escape_safe: "c \<in> set (html_EscapeString s) \<Longrightarrow> c \<noteq> CHR ''<'' \<and> c \<noteq> CHR ''>'' \<and> c \<noteq> CHR 0x22 \<and> c \<noteq> CHR 0x27"
  by (induction s) (auto simp: html_EscapeString_def html_escape_def split: if_splits)

text \<open>
  The page for a failed authorization has the markup of the page and no other: with the text of the
  request's parameters taken out, what is left is fixed, and the text itself holds no markup.\<close>

lemma callback_page_markup:
  assumes "values_Get q ''error'' \<noteq> []"
  shows "\<exists>code desc. loopback_page q = error_head @ code @ ''</strong></p><p>'' @ desc @ error_tail \<and>
    (\<forall>c \<in> set code \<union> set desc. c \<noteq> CHR ''<'' \<and> c \<noteq> CHR ''>'' \<and> c \<noteq> CHR 0x22 \<and> c \<noteq> CHR 0x27)"
  using assms html_escape_safe unfolding loopback_page_def callbackErrorPage_def Let_def by auto

text \<open>Issuers that differ only in trailing slashes and surrounding blanks share a default file.\<close>

lemma default_path_issuer:
  assumes "normalizeIssuer i = normalizeIssuer j"
  shows "DefaultCredPath pe i = DefaultCredPath pe j"
  using assms by (simp add: DefaultCredPath_def)

section \<open>Each issuer has its own file\<close>

definition plain_elem :: "string \<Rightarrow> bool" where
  "plain_elem e = (CHR ''/'' \<notin> set e \<and> e \<noteq> [] \<and> e \<noteq> ''.'' \<and> e \<noteq> ''..'')"

lemma go_Split_slash: "go_Split (a @ CHR ''/'' # b) (CHR ''/'') = go_Split a (CHR ''/'') @ go_Split b (CHR ''/'')"
proof (induction a)
  case (Cons c a)
  have "go_Split a (CHR ''/'') \<noteq> []" by (cases a) (auto split: list.splits)
  with Cons show ?case by (cases "go_Split a (CHR ''/'')") auto
qed simp

lemma clean_plain: "\<forall>e \<in> set es. plain_elem e \<Longrightarrow> fold (clean_step rooted) es acc = rev es @ acc"
  by (induction es arbitrary: acc) (simp_all add: clean_step_def plain_elem_def)

lemma go_Join_append: "ys \<noteq> [] \<Longrightarrow> go_Join (xs @ ys) sep = (if xs = [] then [] else go_Join xs sep @ sep) @ go_Join ys sep"
proof (induction xs sep rule: go_Join.induct)
  case (2 x sep)
  then show ?case by (cases ys) simp_all
qed simp_all

lemma Join_digest:
  assumes "base \<noteq> []"
  shows "\<exists>pre. \<forall>d. plain_elem d \<longrightarrow>
    filepath_Join [base, ''mcp-kit'', d, ''credentials.json''] = pre @ ''mcp-kit/'' @ d @ ''/credentials.json''"
proof -
  define rooted where "rooted = (hd base = CHR ''/'')"
  define els where "els = rev (fold (clean_step rooted) (go_Split base (CHR ''/'')) [])"
  define pre where "pre = (if rooted then ''/'' else []) @ (if els = [] then [] else go_Join els ''/'' @ ''/'')"
  have "filepath_Join [base, ''mcp-kit'', d, ''credentials.json''] = pre @ ''mcp-kit/'' @ d @ ''/credentials.json''" if d: "plain_elem d" for d
  proof -
    let ?p = "base @ CHR ''/'' # ''mcp-kit'' @ CHR ''/'' # d @ CHR ''/'' # ''credentials.json''"
    have j: "filepath_Join [base, ''mcp-kit'', d, ''credentials.json''] = filepath_Clean ?p"
      using assms d by (simp add: filepath_Join_def plain_elem_def)
    have sp: "go_Split ?p (CHR ''/'') = go_Split base (CHR ''/'') @ [''mcp-kit'', d, ''credentials.json'']"
      unfolding go_Split_slash using d by (simp add: go_Split_single plain_elem_def del: go_Split.simps)
    have r: "(?p \<noteq> [] \<and> hd ?p = CHR ''/'') = rooted" using assms by (simp add: rooted_def)
    have pl: "\<forall>e \<in> set [''mcp-kit'', d, ''credentials.json'']. plain_elem e" using d by (simp add: plain_elem_def)
    have el: "rev (fold (clean_step rooted) (go_Split ?p (CHR ''/'')) []) = els @ [''mcp-kit'', d, ''credentials.json'']"
      unfolding sp fold_append comp_apply clean_plain [OF pl] els_def by simp
    show ?thesis unfolding j filepath_Clean_def Let_def r el go_Join_append [of "[''mcp-kit'', d, ''credentials.json'']", simplified] pre_def
      by simp
  qed
  then show ?thesis by blast
qed

lemma clean_step_nonempty: "\<forall>e \<in> set acc. e \<noteq> [] \<Longrightarrow> \<forall>e \<in> set (fold (clean_step rooted) es acc). e \<noteq> []"
proof (induction es arbitrary: acc)
  case (Cons e es)
  have "\<forall>x \<in> set (clean_step rooted e acc). x \<noteq> []" using Cons(2) by (auto simp: clean_step_def split: list.splits)
  with Cons(1) show ?case by simp
qed simp

lemma filepath_Clean_nonempty: "filepath_Clean p \<noteq> []"
proof -
  have "go_Join es ''/'' \<noteq> []" if "\<forall>e \<in> set es. e \<noteq> []" "es \<noteq> []" for es
    using that by (cases "(es, ''/'')" rule: go_Join.cases) auto
  then show ?thesis using clean_step_nonempty [of "[]"] by (simp add: filepath_Clean_def Let_def) (simp add: clean_step_def)
qed

definition config_base :: "path_env \<Rightarrow> string" where
  "config_base pe =
     (if pe_XDG_CONFIG_HOME pe = [] then case_sum (\<lambda>_. []) (\<lambda>home. filepath_Join [home, ''.config'']) (pe_UserHomeDir pe)
      else pe_XDG_CONFIG_HOME pe)"

lemma DefaultCredPath_form:
  assumes "DefaultCredPath pe i = Inr p"
  shows "config_base pe \<noteq> []"
    "p = filepath_Join [config_base pe, ''mcp-kit'', pe_sha256_hex pe (go_TrimRight (go_TrimSpace i) (CHR ''/'')), ''credentials.json'']"
proof -
  show "p = filepath_Join [config_base pe, ''mcp-kit'', pe_sha256_hex pe (go_TrimRight (go_TrimSpace i) (CHR ''/'')), ''credentials.json'']"
    using assms by (auto simp: DefaultCredPath_def normalizeIssuer_def config_base_def split: sum.splits if_splits)
  have "filepath_Join [home, ''.config''] \<noteq> []" for home by (simp add: filepath_Join_def filepath_Clean_nonempty)
  then show "config_base pe \<noteq> []" using assms by (auto simp: DefaultCredPath_def config_base_def split: sum.splits if_splits)
qed

text \<open>
  With a digest that is a file name and does
  not collide on these two issuers, their default paths are the same exactly when the issuers are the
  same up to surrounding blanks and trailing slashes, whatever the configuration directory is.\<close>

lemma default_path_per_issuer:
  assumes "DefaultCredPath pe i = Inr p" "DefaultCredPath pe j = Inr q" "\<forall>s. plain_elem (pe_sha256_hex pe s)"
    and "pe_sha256_hex pe (go_TrimRight (go_TrimSpace i) (CHR ''/'')) = pe_sha256_hex pe (go_TrimRight (go_TrimSpace j) (CHR ''/'')) \<Longrightarrow>
         go_TrimRight (go_TrimSpace i) (CHR ''/'') = go_TrimRight (go_TrimSpace j) (CHR ''/'')"
  shows "p = q \<longleftrightarrow> go_TrimRight (go_TrimSpace i) (CHR ''/'') = go_TrimRight (go_TrimSpace j) (CHR ''/'')"
proof -
  let ?h = "\<lambda>i. pe_sha256_hex pe (go_TrimRight (go_TrimSpace i) (CHR ''/''))"
  obtain pre where "\<forall>d. plain_elem d \<longrightarrow>
      filepath_Join [config_base pe, ''mcp-kit'', d, ''credentials.json''] = pre @ ''mcp-kit/'' @ d @ ''/credentials.json''"
    using Join_digest [OF DefaultCredPath_form(1) [OF assms(1)]] by blast
  then have "p = pre @ ''mcp-kit/'' @ ?h i @ ''/credentials.json''" "q = pre @ ''mcp-kit/'' @ ?h j @ ''/credentials.json''"
    using DefaultCredPath_form(2) [OF assms(1)] DefaultCredPath_form(2) [OF assms(2)] assms(3) by simp_all
  then have "p = q \<longleftrightarrow> ?h i = ?h j" by simp
  with assms(4) show ?thesis by auto
qed

definition sample_paths :: path_env where
  "sample_paths = \<lparr>pe_XDG_CONFIG_HOME = [], pe_UserHomeDir = Inr ''/home/u/'', pe_sha256_hex = (\<lambda>s. CHR ''x'' # RawURL_EncodeToString s)\<rparr>"

lemma sample_digest_plain: "\<forall>s. plain_elem (pe_sha256_hex sample_paths s)"
  using RawURL_alphabet(6) by (auto simp: plain_elem_def sample_paths_def)

lemma default_path_per_issuer_witness:
  "\<exists>p q. DefaultCredPath sample_paths ''https://as/a/'' = Inr p \<and> DefaultCredPath sample_paths ''https://as/b'' = Inr q \<and> p \<noteq> q"
proof -
  have n: "normalizeIssuer ''https://as/a/'' = Inr ''https://as/a''" "normalizeIssuer ''https://as/b'' = Inr ''https://as/b''" by code_simp+
  then obtain p q where pq: "DefaultCredPath sample_paths ''https://as/a/'' = Inr p" "DefaultCredPath sample_paths ''https://as/b'' = Inr q"
    by (simp add: DefaultCredPath_def sample_paths_def)
  have t: "go_TrimRight (go_TrimSpace ''https://as/a/'') (CHR ''/'') = ''https://as/a''" "go_TrimRight (go_TrimSpace ''https://as/b'') (CHR ''/'') = ''https://as/b''"
    by code_simp+
  have "p \<noteq> q" using default_path_per_issuer [OF pq sample_digest_plain] unfolding t by (simp add: sample_paths_def)
  with pq show ?thesis by blast
qed

lemma NewLogin_issuer:
  assumes "NewLogin pe opts = Inr l"
  shows "lg_Issuer l = go_TrimRight (lo_Issuer opts) (CHR ''/'')"
  using assms by (auto simp: NewLogin_def split: sum.splits)

end
