(* ===== verification/RegistrationJson.thy ===== *)
theory RegistrationJson
  imports Registration LoginJson
begin

text \<open>
  The bytes of dynamic client registration (\<^verbatim>\<open>oauth/register.go\<close>): how the handler reads the request body
  through its size limit, and how a client reads the answer.
\<close>

section \<open>Reading a request\<close>

definition maxRegistrationBodyBytes :: nat where "maxRegistrationBodyBytes = 16 * 1024"

text \<open>
  \<^verbatim>\<open>http.MaxBytesReader\<close>: reading past the limit is an error. A value that is complete within the limit is
  decoded; the control character stands for the error, as no value goes on past it.
\<close>

definition limited_body :: "string \<Rightarrow> string" where
  "limited_body body =
     (if length body \<le> maxRegistrationBodyBytes then body else take maxRegistrationBodyBytes body @ [CHR 0x00])"

definition registration_field :: "string \<Rightarrow> jtree \<Rightarrow> registrationRequest \<Rightarrow> registrationRequest result" where
  "registration_field k t r =
     (if is_field ''redirect_uris'' k then map_sum id (\<lambda>ss. r\<lparr>rr_RedirectURIs := ss\<rparr>) (dec_strings t)
      else if is_field ''client_name'' k then map_sum id (\<lambda>s. r\<lparr>rr_ClientName := s\<rparr>) (dec_string t (rr_ClientName r))
      else if is_field ''grant_types'' k then map_sum id (\<lambda>ss. r\<lparr>rr_GrantTypes := ss\<rparr>) (dec_strings t)
      else if is_field ''response_types'' k then map_sum id (\<lambda>ss. r\<lparr>rr_ResponseTypes := ss\<rparr>) (dec_strings t)
      else if is_field ''token_endpoint_auth_method'' k
      then map_sum id (\<lambda>s. r\<lparr>rr_TokenEndpointAuthMethod := s\<rparr>) (dec_string t (rr_TokenEndpointAuthMethod r))
      else if is_field ''scope'' k then map_sum id (\<lambda>s. r\<lparr>rr_Scope := s\<rparr>) (dec_string t (rr_Scope r))
      else if is_field ''logo_uri'' k then map_sum id (\<lambda>s. r\<lparr>rr_LogoURI := s\<rparr>) (dec_string t (rr_LogoURI r))
      else Inr r)"

definition zero_registration :: registrationRequest where
  "zero_registration =
     \<lparr>rr_RedirectURIs = [], rr_ClientName = [], rr_GrantTypes = [], rr_ResponseTypes = [], rr_TokenEndpointAuthMethod = [],
      rr_Scope = [], rr_LogoURI = []\<rparr>"

definition decode_registration :: "string \<Rightarrow> registrationRequest result" where
  "decode_registration body = decode_body registration_field zero_registration (limited_body body)"

text \<open>The whole handler: bytes in, bytes out.\<close>

definition registration_serve ::
  "'st StoreOps \<Rightarrow> RegistrationConfig \<Rightarrow> reg_env \<Rightarrow> string \<Rightarrow> string \<Rightarrow> 'st \<times> writer \<Rightarrow> 'st \<times> writer" where
  "registration_serve ops cfg env meth body = registration_ServeHTTP ops cfg env meth (decode_registration body)"

section \<open>Reading the answer\<close>

definition text_opt :: "string \<Rightarrow> string \<Rightarrow> (string \<times> jtree) list" where
  "text_opt name s = (if s = [] then [] else [(quote name, json_string s)])"

definition response_members :: "registrationResponse \<Rightarrow> (string \<times> jtree) list" where
  "response_members r =
     (quote ''client_id'', json_string (rs_ClientID r)) # text_opt ''client_secret'' (rs_ClientSecret r) @
     (quote ''client_id_issued_at'', TNum (FormatInt (rs_ClientIDIssuedAt r))) #
     (if rs_ClientSecretExpiresAt r = 0 then [] else [(quote ''client_secret_expires_at'', TNum (FormatInt (rs_ClientSecretExpiresAt r)))]) @
     [(quote ''client_name'', json_string (rs_ClientName r)),
      (quote ''redirect_uris'', TArr (map json_string (rs_RedirectURIs r))), (quote ''grant_types'', TArr (map json_string (rs_GrantTypes r))),
      (quote ''response_types'', TArr (map json_string (rs_ResponseTypes r))),
      (quote ''token_endpoint_auth_method'', json_string (rs_TokenEndpointAuthMethod r))] @
     text_opt ''scope'' (rs_Scope r) @ text_opt ''logo_uri'' (rs_LogoURI r)"

lemma json_tree_strings: "json_tree (json_strings ss) = Some (TArr (map json_string ss))"
proof -
  have "all_some (map json_tree (map JStr ss)) = Some (map json_string ss)" by (induction ss) simp_all
  then show ?thesis by (simp add: json_strings_def)
qed

lemma response_tree: "json_tree (json_of_registrationResponse r) = Some (TObj (response_members r))"
  by (simp add: json_of_registrationResponse_def response_members_def json_opt_def text_opt_def json_tree_strings)

lemma response_ok: "tree_ok (TObj (response_members r))" "tree_depth (TObj (response_members r)) \<le> 10000"
proof -
  show "tree_ok (TObj (response_members r))" by (auto simp: response_members_def text_opt_def FormatInt_number)
  have "Max (insert 0 ((\<lambda>x. 0 :: nat) ` set ss)) = 0" for ss :: "string list" by (cases ss) (simp_all add: image_constant_conv)
  then have "\<forall>m \<in> set (response_members r). tree_depth (snd m) \<le> 1"
    by (auto simp: response_members_def text_opt_def json_string_def)
  from tree_depth_obj [OF this] show "tree_depth (TObj (response_members r)) \<le> 10000" by linarith
qed

lemma dcr_fields:
  "dcr_field ''client_id'' t d = map_sum id (\<lambda>s. d\<lparr>dr_ClientID := s\<rparr>) (dec_string t (dr_ClientID d))"
  "dcr_field ''client_secret'' t d = map_sum id (\<lambda>s. d\<lparr>dr_ClientSecret := s\<rparr>) (dec_string t (dr_ClientSecret d))"
  "dcr_field ''redirect_uris'' t d = map_sum id (\<lambda>ss. d\<lparr>dr_RedirectURIs := ss\<rparr>) (dec_strings t)"
  "dcr_field ''client_id_issued_at'' t d = Inr d" "dcr_field ''client_secret_expires_at'' t d = Inr d" "dcr_field ''client_name'' t d = Inr d"
  "dcr_field ''grant_types'' t d = Inr d" "dcr_field ''response_types'' t d = Inr d" "dcr_field ''token_endpoint_auth_method'' t d = Inr d"
  "dcr_field ''scope'' t d = Inr d" "dcr_field ''logo_uri'' t d = Inr d"
proof -
  have "map (is_field ''client_id'') [''client_id'', ''client_secret'', ''redirect_uris''] = [True, False, False]"
    "map (is_field ''client_secret'') [''client_secret'', ''redirect_uris''] = [True, False]" "is_field ''redirect_uris'' ''redirect_uris''"
    by code_simp+
  then show "dcr_field ''client_id'' t d = map_sum id (\<lambda>s. d\<lparr>dr_ClientID := s\<rparr>) (dec_string t (dr_ClientID d))"
    "dcr_field ''client_secret'' t d = map_sum id (\<lambda>s. d\<lparr>dr_ClientSecret := s\<rparr>) (dec_string t (dr_ClientSecret d))"
    "dcr_field ''redirect_uris'' t d = map_sum id (\<lambda>ss. d\<lparr>dr_RedirectURIs := ss\<rparr>) (dec_strings t)"
    by (simp_all add: dcr_field_def)
  have o: "list_all (\<lambda>k. \<not> is_field ''client_id'' k \<and> \<not> is_field ''client_secret'' k \<and> \<not> is_field ''redirect_uris'' k)
      [''client_id_issued_at'', ''client_secret_expires_at'', ''client_name'', ''grant_types'', ''response_types'',
       ''token_endpoint_auth_method'', ''scope'', ''logo_uri'']" by code_simp
  show "dcr_field ''client_id_issued_at'' t d = Inr d" "dcr_field ''client_secret_expires_at'' t d = Inr d" "dcr_field ''client_name'' t d = Inr d"
    "dcr_field ''grant_types'' t d = Inr d" "dcr_field ''response_types'' t d = Inr d" "dcr_field ''token_endpoint_auth_method'' t d = Inr d"
    "dcr_field ''scope'' t d = Inr d" "dcr_field ''logo_uri'' t d = Inr d"
    using o by (simp_all add: dcr_field_def)
qed

text \<open>A client that reads the answer gets the ID, the secret and the redirect URIs of the response, as UTF-8.\<close>

lemma response_decodes:
  "\<exists>body. json_body (json_of_registrationResponse r) = Some body \<and>
     decode_dcr body = Inr \<lparr>dr_ClientID = utf8_clean (rs_ClientID r), dr_ClientSecret = utf8_clean (rs_ClientSecret r),
       dr_RedirectURIs = map utf8_clean (rs_RedirectURIs r)\<rparr>"
proof -
  have n: "unquote (quote k) = k" if "\<forall>c \<in> set k. code_of c < 128" for k
    using ascii_valid [OF that] by (simp add: unquote_quote utf8_valid_def)
  have "num_end [CHR 0x0A]" by (simp add: is_digit_def)
  from decode_compact [OF response_ok this, where f = dcr_field]
  have "decode_dcr (compact (TObj (response_members r)) @ [CHR 0x0A]) =
      dec_members dcr_field (response_members r) \<lparr>dr_ClientID = [], dr_ClientSecret = [], dr_RedirectURIs = []\<rparr>"
    by (simp add: decode_dcr_def)
  also have "\<dots> = Inr \<lparr>dr_ClientID = utf8_clean (rs_ClientID r), dr_ClientSecret = utf8_clean (rs_ClientSecret r),
       dr_RedirectURIs = map utf8_clean (rs_RedirectURIs r)\<rparr>"
    by (simp add: response_members_def text_opt_def n dcr_fields)
  finally show ?thesis by (simp add: json_body_def response_tree)
qed

end
