(* ===== verification/CliServer.thy ===== *)
theory CliServer
  imports CliSetup RegistrationJson
begin

text \<open>
  The command-line client against the registration endpoint: the network hands the bytes of a request
  to the handler and the bytes the handler writes back to the client. Shows that the two sides agree on
  the documents they exchange.
\<close>

section \<open>The loopback redirect URI\<close>

definition callback_uri :: "int \<Rightarrow> string" where
  "callback_uri port = ''http://127.0.0.1:'' @ FormatInt port @ ''/callback''"

lemma digit_chars:
  assumes "list_all is_digit ds" "c \<in> {CHR ''#'', CHR ''?'', CHR ''/'', CHR ''@'', CHR '':'', CHR ''['', CHR ''%''}"
  shows "c \<notin> set ds"
proof
  assume "c \<in> set ds"
  with assms(1) have "is_digit c" by (simp add: list_all_iff)
  with assms(2) show False by (auto simp: is_digit_def)
qed

lemma unescape_digits: "list_all is_digit ds \<Longrightarrow> url_unescape encodeHost ds = Inr ds"
proof (induction ds)
  case (Cons c ds)
  then have "c \<noteq> CHR ''%''" "\<not> shouldEscape c encodeHost"
    using digit_chars [of "[c]" "CHR ''%''"] by (auto simp: shouldEscape_def)
  with Cons show ?case by simp
qed simp

lemma callback_parses:
  assumes "list_all is_digit ds"
  shows "\<exists>u. url_Parse (''http://127.0.0.1:'' @ ds @ ''/callback'') = Inr u \<and> u_Scheme u = ''http'' \<and>
    u_Host u = ''127.0.0.1:'' @ ds \<and> u_Fragment u = []"
proof -
  let ?auth = "''127.0.0.1:'' @ ds"
  note d = digit_chars [OF assms]
  have "\<not> list_ex ctl_byte ds" using assms by (auto simp: list_ex_iff list_all_iff ctl_byte_def is_digit_def)
  then have ctl: "\<not> list_ex ctl_byte (''http://127.0.0.1:'' @ ds @ ''/callback'')" by (simp add: ctl_byte_def)
  have g: "getScheme (''http://127.0.0.1:'' @ ds @ ''/callback'') = Inr (''http'', ''//127.0.0.1:'' @ ds @ ''/callback'')"
    by (simp add: getScheme_def is_alpha_def is_digit_def)
  have q: "split_query (''//127.0.0.1:'' @ ds @ ''/callback'') = (False, ''//127.0.0.1:'' @ ds @ ''/callback'', [])"
    using d [of "CHR ''?''"] by (simp add: split_query_def go_Cut_None [THEN iffD2])
  have a: "split_authority (?auth @ ''/callback'') = (?auth, ''/callback'')"
    using d [of "CHR ''/''"] go_Cut_append [of "CHR ''/''" ?auth "''callback''"] by (simp add: split_authority_def)
  have un: "url_unescape encodeHost ?auth = Inr ?auth"
    using unescape_digits [OF assms] by (simp add: shouldEscape_def is_digit_def)
  have h: "parseHost ?auth = Inr ?auth"
  proof -
    have "go_Cut ?auth (CHR '':'') = Some (''127.0.0.1'', ds)" using go_Cut_append [of "CHR '':''" "''127.0.0.1''" ds] by simp
    then show ?thesis using d [of "CHR '':''"] d [of "CHR ''[''"] assms un by (simp add: parseHost_def validOptionalPort_def)
  qed
  have "go_Cut (rev ?auth) (CHR ''@'') = None" using d [of "CHR ''@''"] by (simp add: go_Cut_None del: rev.simps)
  then have p: "parseAuthority ?auth = Inr (None, ?auth)" using h by (simp add: parseAuthority_def cut_last_def bind_res_def del: rev.simps rev_append)
  have path: "url_unescape encodePath ''/callback'' = Inr ''/callback''" by simp
  have "\<exists>u. parse_nofrag (''http://127.0.0.1:'' @ ds @ ''/callback'') = Inr u \<and> u_Scheme u = ''http'' \<and> u_Host u = ?auth \<and> u_Fragment u = []"
    using ctl g q a p path
    by (simp add: parse_nofrag_def bind_res_def parse_rest_def setPath_def empty_url_def go_HasPrefix_def lower_char_def go_ToLower_def del: url_unescape.simps)
  moreover have "go_Cut (''http://127.0.0.1:'' @ ds @ ''/callback'') (CHR ''#'') = None"
    unfolding go_Cut_None using d [of "CHR ''#''"] by simp
  ultimately show ?thesis by (auto simp: url_Parse_def)
qed

lemma callback_uri_valid:
  assumes "0 \<le> port"
  shows "validateRedirectURI (callback_uri port) = Inr ()" "utf8_valid (callback_uri port)"
proof -
  have f: "FormatInt port = format_dec port" using assms by (simp add: FormatInt_def)
  have ds: "list_all is_digit (format_dec port)" using format_dec_is_digit [OF assms] by (simp add: list_all_iff)
  obtain u where u: "url_Parse (callback_uri port) = Inr u" "u_Scheme u = ''http''" "u_Host u = ''127.0.0.1:'' @ format_dec port" "u_Fragment u = []"
    using callback_parses [OF ds] by (auto simp: callback_uri_def f)
  have "CHR '':'' \<notin> set (rev (format_dec port))" using digit_chars [OF ds, of "CHR '':''"] by simp
  from go_Cut_append [OF this, of "rev ''127.0.0.1''"]
  have "cut_last (''127.0.0.1:'' @ format_dec port) (CHR '':'') = Some (''127.0.0.1'', format_dec port)" by (simp add: cut_last_def)
  then have "url_Hostname u = ''127.0.0.1''" using ds by (simp add: url_Hostname_def u(3) splitHostPort_url_def go_HasPrefix_def)
  then show "validateRedirectURI (callback_uri port) = Inr ()"
    using u by (simp add: validateRedirectURI_def url_IsAbs_def isLoopbackHost_def) (simp add: callback_uri_def)
  show "utf8_valid (callback_uri port)"
    by (rule ascii_valid) (use ds in \<open>auto simp: callback_uri_def f list_all_iff is_digit_def\<close>)
qed

section \<open>The client's request at the handler\<close>

definition cli_request :: "string \<Rightarrow> string \<Rightarrow> registrationRequest" where
  "cli_request redirectURI scope =
     \<lparr>rr_RedirectURIs = [redirectURI], rr_ClientName = ''mcp-kit CLI'', rr_GrantTypes = [''authorization_code'', ''refresh_token''],
      rr_ResponseTypes = [''code''], rr_TokenEndpointAuthMethod = ''none'', rr_Scope = scope, rr_LogoURI = []\<rparr>"

lemma dcr_names [simp]:
  "unquote ''client_name'' = ''client_name''" "unquote ''grant_types'' = ''grant_types''" "unquote ''redirect_uris'' = ''redirect_uris''"
  "unquote ''response_types'' = ''response_types''" "unquote ''scope'' = ''scope''"
  "unquote ''token_endpoint_auth_method'' = ''token_endpoint_auth_method''"
  "body_ok ''client_name''" "body_ok ''grant_types''" "body_ok ''redirect_uris''" "body_ok ''response_types''" "body_ok ''scope''"
  "body_ok ''token_endpoint_auth_method''"
  by (rule plain_unquote plain_body, simp add: bs_def)+

lemma cli_texts [simp]:
  "utf8_clean ''mcp-kit CLI'' = ''mcp-kit CLI''" "utf8_clean ''authorization_code'' = ''authorization_code''"
  "utf8_clean ''refresh_token'' = ''refresh_token''" "utf8_clean ''code'' = ''code''" "utf8_clean ''none'' = ''none''"
  by (rule ascii_clean, simp)+

lemma registration_fields:
  "registration_field ''redirect_uris'' t r = map_sum id (\<lambda>ss. r\<lparr>rr_RedirectURIs := ss\<rparr>) (dec_strings t)"
  "registration_field ''client_name'' t r = map_sum id (\<lambda>s. r\<lparr>rr_ClientName := s\<rparr>) (dec_string t (rr_ClientName r))"
  "registration_field ''grant_types'' t r = map_sum id (\<lambda>ss. r\<lparr>rr_GrantTypes := ss\<rparr>) (dec_strings t)"
  "registration_field ''response_types'' t r = map_sum id (\<lambda>ss. r\<lparr>rr_ResponseTypes := ss\<rparr>) (dec_strings t)"
  "registration_field ''token_endpoint_auth_method'' t r =
     map_sum id (\<lambda>s. r\<lparr>rr_TokenEndpointAuthMethod := s\<rparr>) (dec_string t (rr_TokenEndpointAuthMethod r))"
  "registration_field ''scope'' t r = map_sum id (\<lambda>s. r\<lparr>rr_Scope := s\<rparr>) (dec_string t (rr_Scope r))"
proof -
  define names where "names = [''redirect_uris'', ''client_name'', ''grant_types'', ''response_types'', ''token_endpoint_auth_method'', ''scope'']"
  have "list_all (\<lambda>x. fold_name x = x) names" unfolding names_def by code_simp
  then have f: "fold_name x = x" if "x \<in> set names" for x using that by (simp add: list_all_iff)
  have n: "is_field x y \<longleftrightarrow> x = y" if "x \<in> set names" "y \<in> set names" for x y
    unfolding is_field_def f [OF that(1)] f [OF that(2)] by blast
  show "registration_field ''redirect_uris'' t r = map_sum id (\<lambda>ss. r\<lparr>rr_RedirectURIs := ss\<rparr>) (dec_strings t)"
    "registration_field ''client_name'' t r = map_sum id (\<lambda>s. r\<lparr>rr_ClientName := s\<rparr>) (dec_string t (rr_ClientName r))"
    "registration_field ''grant_types'' t r = map_sum id (\<lambda>ss. r\<lparr>rr_GrantTypes := ss\<rparr>) (dec_strings t)"
    "registration_field ''response_types'' t r = map_sum id (\<lambda>ss. r\<lparr>rr_ResponseTypes := ss\<rparr>) (dec_strings t)"
    "registration_field ''token_endpoint_auth_method'' t r =
       map_sum id (\<lambda>s. r\<lparr>rr_TokenEndpointAuthMethod := s\<rparr>) (dec_string t (rr_TokenEndpointAuthMethod r))"
    "registration_field ''scope'' t r = map_sum id (\<lambda>s. r\<lparr>rr_Scope := s\<rparr>) (dec_string t (rr_Scope r))"
    by (simp_all add: registration_field_def n names_def)
qed

lemma cli_request_decodes:
  assumes "length (compact (dcr_body redirectURI scope)) \<le> maxRegistrationBodyBytes" "utf8_valid redirectURI" "utf8_valid scope"
  shows "decode_registration (compact (dcr_body redirectURI scope)) = Inr (cli_request redirectURI scope)"
proof -
  have ok: "tree_ok (dcr_body redirectURI scope)" "tree_depth (dcr_body redirectURI scope) \<le> 10000" by (simp_all add: dcr_body_def)
  have arr: "dec_strings (TArr [json_string a]) = Inr [utf8_clean a]" "dec_strings (TArr [json_string a, json_string b]) = Inr [utf8_clean a, utf8_clean b]" for a b
    using dec_strings_json [of "[a]"] dec_strings_json [of "[a, b]"] by simp_all
  obtain ms where ms: "dcr_body redirectURI scope = TObj ms" by (simp add: dcr_body_def)
  have "decode_registration (compact (dcr_body redirectURI scope)) = dec_members registration_field ms zero_registration"
    using decode_compact [of ms "[]" registration_field zero_registration] ok assms(1) by (simp add: decode_registration_def limited_body_def ms)
  also have "\<dots> = Inr (cli_request redirectURI scope)"
    using assms(2,3) ms [symmetric] by (simp add: dcr_body_def cli_request_def zero_registration_def registration_fields arr utf8_valid_def)
  finally show ?thesis .
qed

section \<open>Client and server together\<close>

text \<open>
  A network with one host: requests for the registration endpoint go to the handler over the in-memory
  store, and what it writes comes back.
\<close>

definition registration_net :: "RegistrationConfig \<Rightarrow> reg_env \<Rightarrow> string \<Rightarrow> MemoryStore net" where
  "registration_net cfg renv endpoint =
     \<lparr>nt_Do = (\<lambda>rq st.
        if hr_URL rq \<noteq> endpoint then (Inl (Plain ''no such host''), st)
        else
          (case registration_serve memory_StoreOps cfg renv (hr_Method rq) (case hr_Body rq of Body b \<Rightarrow> b | NoBody \<Rightarrow> []) (st, new_writer) of
             (st', w) \<Rightarrow>
               (case w_body w of
                  [JsonDoc doc] \<Rightarrow>
                    (case json_body doc of
                       Some bytes \<Rightarrow> (Inr \<lparr>rsp_StatusCode = w_status w, rsp_Status = FormatInt (w_status w), rsp_Body = bytes\<rparr>, st')
                     | None \<Rightarrow> (Inl (Plain ''unexpected EOF''), st'))
                | _ \<Rightarrow> (Inl (Plain ''unexpected EOF''), st'))))\<rparr>"

lemma cli_request_registers:
  assumes "validateRedirectURI redirectURI = Inr ()" "go_TrimSpace scope \<noteq> []" "set (go_Fields scope) \<subseteq> set (rg_AllowedScopes cfg)"
  shows "\<exists>client resp. process_registration memory_StoreOps cfg renv (cli_request redirectURI scope) st =
      (Inr resp, st\<lparr>ms_clients := gm_put (cl_ID client) client (ms_clients st)\<rparr>) \<and>
    rs_ClientID resp = cl_ID client \<and> rs_ClientSecret resp = [] \<and> rs_RedirectURIs resp = [redirectURI] \<and>
    cl_ID client = rg_ClientIDPrefix cfg @ RawURL_EncodeToString (re_id_bytes renv) \<and>
    cl_IsPublic client \<and> cl_RedirectURIs client = [redirectURI] \<and> cl_Scopes client = go_Fields scope \<and>
    cl_GrantTypes client = [''authorization_code'', ''refresh_token'']"
proof -
  have "normalizeScopesWithDefault scope ds as (scopeSet (rg_AllowedScopes cfg)) = Inr (go_Fields scope, go_Join (go_Fields scope) '' '')" for ds as
    using assms(2,3) check_scopes_Inr [of "''scope ''" "scopeSet (rg_AllowedScopes cfg)" "go_Fields scope"]
    by (simp add: normalizeScopesWithDefault_def normalizeScopes_def Let_def scopeSet_def)
  then have "process_registration memory_StoreOps cfg renv (cli_request redirectURI scope) st =
      register_client memory_StoreOps renv (registration_client cfg renv (cli_request redirectURI scope)
        [''authorization_code'', ''refresh_token''] [''code''] ''none'' (go_Fields scope) []) [] (go_Join (go_Fields scope) '' '') st"
    using assms(1) by (simp add: process_registration_def cli_request_def normalizeGrantTypes_def normalizeResponseTypes_def normalizeAuthMethod_def
        check_supported_def supportedGrantTypes_def supportedResponseTypes_def supportedAuthMethods_def authMethodNone_def
        authMethodClientSecretBasic_def authMethodClientSecretPost_def validateLogoURI_def Let_def)
  then show ?thesis
    by (intro exI [of _ "registration_client cfg renv (cli_request redirectURI scope)
        [''authorization_code'', ''refresh_token''] [''code''] ''none'' (go_Fields scope) []"])
       (simp add: register_client_def memory_StoreOps_def mem_SaveClient_def registration_client_def generateRandomURLValue_def
        cli_request_def authMethodNone_def)
qed

lemma registration_net_answers:
  assumes "validateRedirectURI redirectURI = Inr ()" "utf8_valid redirectURI" "utf8_valid scope" "go_TrimSpace scope \<noteq> []"
    and "set (go_Fields scope) \<subseteq> set (rg_AllowedScopes cfg)" "utf8_valid (rg_ClientIDPrefix cfg)"
    and "length (compact (dcr_body redirectURI scope)) \<le> maxRegistrationBodyBytes"
  shows "\<exists>resp client. nt_Do (registration_net cfg renv endpoint)
      \<lparr>hr_Method = ''POST'', hr_URL = endpoint, hr_Header = h, hr_Body = Body (compact (dcr_body redirectURI scope))\<rparr> st =
      (Inr resp, st\<lparr>ms_clients := gm_put (cl_ID client) client (ms_clients st)\<rparr>) \<and> rsp_StatusCode resp = 201 \<and>
    decode_dcr (rsp_Body resp) = Inr \<lparr>dr_ClientID = cl_ID client, dr_ClientSecret = [], dr_RedirectURIs = [redirectURI]\<rparr> \<and>
    cl_ID client = rg_ClientIDPrefix cfg @ RawURL_EncodeToString (re_id_bytes renv) \<and>
    cl_IsPublic client \<and> cl_RedirectURIs client = [redirectURI] \<and> cl_Scopes client = go_Fields scope \<and>
    cl_GrantTypes client = [''authorization_code'', ''refresh_token'']"
proof -
  let ?rq = "\<lparr>hr_Method = ''POST'', hr_URL = endpoint, hr_Header = h, hr_Body = Body (compact (dcr_body redirectURI scope))\<rparr>"
  obtain r client where r: "process_registration memory_StoreOps cfg renv (cli_request redirectURI scope) st =
      (Inr r, st\<lparr>ms_clients := gm_put (cl_ID client) client (ms_clients st)\<rparr>)"
    "rs_ClientID r = cl_ID client" "rs_ClientSecret r = []" "rs_RedirectURIs r = [redirectURI]"
    "cl_ID client = rg_ClientIDPrefix cfg @ RawURL_EncodeToString (re_id_bytes renv)"
    "cl_IsPublic client" "cl_RedirectURIs client = [redirectURI]" "cl_Scopes client = go_Fields scope"
    "cl_GrantTypes client = [''authorization_code'', ''refresh_token'']"
    using cli_request_registers [OF assms(1,4,5), of renv st] by blast
  obtain bytes where b: "json_body (json_of_registrationResponse r) = Some bytes"
    "decode_dcr bytes = Inr \<lparr>dr_ClientID = utf8_clean (rs_ClientID r), dr_ClientSecret = utf8_clean (rs_ClientSecret r),
       dr_RedirectURIs = map utf8_clean (rs_RedirectURIs r)\<rparr>"
    using response_decodes [of r] by blast
  have "utf8_clean (cl_ID client) = cl_ID client" using clean_append [OF assms(6)] RawURL_valid [of "re_id_bytes renv"] by (simp add: r(5) utf8_valid_def)
  then have "decode_dcr bytes = Inr \<lparr>dr_ClientID = cl_ID client, dr_ClientSecret = [], dr_RedirectURIs = [redirectURI]\<rparr>"
    using b(2) assms(2) by (simp add: r(2-4) utf8_valid_def)
  moreover have "nt_Do (registration_net cfg renv endpoint) ?rq st =
      (Inr \<lparr>rsp_StatusCode = 201, rsp_Status = FormatInt 201, rsp_Body = bytes\<rparr>, st\<lparr>ms_clients := gm_put (cl_ID client) client (ms_clients st)\<rparr>)"
    using r(1) b(1) cli_request_decodes [OF assms(7,2,3)]
    by (simp add: registration_net_def registration_serve_def registration_ServeHTTP_def new_writer_def w_header_def w_WriteHeader_def
        w_Write_def informational_def Let_def)
  ultimately show ?thesis using r(5-9) by (intro exI conjI) (assumption | simp)+
qed

text \<open>
  C20 (the client can register with the server). A client without credentials that registers for a
  loopback redirect at this server, with scopes the server allows, ends up with the ID of a client that
  the server stores: a public one, for exactly this redirect URI, these scopes and the grants of the
  flow; and its file holds that ID for this issuer. Only writing the file can fail.\<close>

theorem cli_registers_with_server:
  assumes "files_ok cd env s" "issuer_text issuer" "HostFromIssuer issuer = Inr host" "stored cd s host = None"
    and "url_Parse (ep_Registration e) = Inr u" "0 \<le> port" "utf8_valid scope" "go_TrimSpace scope \<noteq> []"
    and "set (go_Fields scope) \<subseteq> set (rg_AllowedScopes cfg)" "utf8_valid (rg_ClientIDPrefix cfg)" "re_id_bytes renv \<noteq> []"
    and "length (compact (dcr_body (callback_uri port) scope)) \<le> maxRegistrationBodyBytes"
  shows "case ensureRegistered cd (registration_net cfg renv (ep_Registration e)) env issuer e (callback_uri port) scope s of
     (Inr cid, s') \<Rightarrow>
       (\<exists>client c. mem_GetClient cid (ls_net s') = Inr client \<and> cl_IsPublic client \<and> cl_RedirectURIs client = [callback_uri port] \<and>
          cl_Scopes client = go_Fields scope \<and> cl_GrantTypes client = [''authorization_code'', ''refresh_token''] \<and>
          stored cd s' host = Some c \<and> cr_ClientID c = cid \<and> cr_Issuer c = issuer \<and> cr_RedirectURIs c = [callback_uri port])
   | (Inl err, s') \<Rightarrow> \<exists>c. SaveHost cd (le_io env 2) host c (ls_disk s) = (Some err, ls_disk s')"
proof -
  let ?rq = "\<lparr>hr_Method = ''POST'', hr_URL = ep_Registration e, hr_Header = [(''Content-Type'', [''application/json''])],
      hr_Body = Body (compact (dcr_body (callback_uri port) scope))\<rparr>"
  note uri = callback_uri_valid [OF assms(6)]
  obtain resp client where net: "nt_Do (registration_net cfg renv (ep_Registration e)) ?rq (ls_net s) =
      (Inr resp, (ls_net s)\<lparr>ms_clients := gm_put (cl_ID client) client (ms_clients (ls_net s))\<rparr>)" "rsp_StatusCode resp = 201"
    "decode_dcr (rsp_Body resp) = Inr \<lparr>dr_ClientID = cl_ID client, dr_ClientSecret = [], dr_RedirectURIs = [callback_uri port]\<rparr>"
    and cid: "cl_ID client = rg_ClientIDPrefix cfg @ RawURL_EncodeToString (re_id_bytes renv)"
    and client: "cl_IsPublic client" "cl_RedirectURIs client = [callback_uri port]" "cl_Scopes client = go_Fields scope"
      "cl_GrantTypes client = [''authorization_code'', ''refresh_token'']"
    using registration_net_answers [OF uri assms(7-10,12), of renv "ep_Registration e" "[(''Content-Type'', [''application/json''])]" "ls_net s"] by blast
  have "0 < length (re_id_bytes renv)" using assms(11) by simp
  then have "0 < length (RawURL_EncodeToString (re_id_bytes renv))" unfolding RawURL_length by presburger
  then have ne: "cl_ID client \<noteq> []" using cid by auto
  let ?n = "(ls_net s)\<lparr>ms_clients := gm_put (cl_ID client) client (ms_clients (ls_net s))\<rparr>"
  let ?c = "zero_Credentials\<lparr>cr_Issuer := issuer, cr_ClientID := cl_ID client, cr_RedirectURIs := [callback_uri port]\<rparr>"
  have load: "LoadHost cd (le_io env i) host (ls_disk s) = Inl (Sentinel ErrNotLoggedIn)" for i
    using load_stored [OF assms(1)] assms(4) by simp
  have reg: "ensureRegistered cd (registration_net cfg renv (ep_Registration e)) env issuer e (callback_uri port) scope s =
      (case SaveHost cd (le_io env 2) host ?c (ls_disk s) of
         (Some err, d) \<Rightarrow> (Inl err, s\<lparr>ls_net := ?n, ls_disk := d\<rparr>) | (None, d) \<Rightarrow> (Inr (cl_ID client), s\<lparr>ls_net := ?n, ls_disk := d\<rparr>))"
    using assms(3,5) load net ne by (simp add: ensureRegistered_def net_send_def loaded_def Let_def split: prod.splits option.splits)
  obtain err d where d: "SaveHost cd (le_io env 2) host ?c (ls_disk s) = (err, d)" by fastforce
  show ?thesis
  proof (cases err)
    case None
    have host: "utf8_valid host" "utf8_clean issuer = issuer" using assms(2,3) by (auto simp: issuer_text_def utf8_valid_def)
    have "utf8_clean (cl_ID client) = cl_ID client"
      using clean_append [OF assms(10)] RawURL_valid [of "re_id_bytes renv"] by (simp add: cid utf8_valid_def)
    then have "clean_creds ?c = ?c" using host uri(2) by (simp add: clean_creds_iff zero_Credentials_def utf8_valid_def)
    with save_stored(1) [OF assms(1) host(1) d [unfolded None], where n = ?n and e = "ls_Endpoints s" and host' = host]
    have "stored cd (s\<lparr>ls_net := ?n, ls_disk := d\<rparr>) host = Some ?c" by (simp add: stored_def)
    with reg d None client show ?thesis by (simp add: mem_GetClient_def)
  next
    case (Some er)
    with reg d show ?thesis by (auto intro: exI [of _ ?c])
  qed
qed

definition new_login :: "MemoryStore login_state" where
  "new_login = \<lparr>ls_Endpoints = known_endpoints, ls_disk = None, ls_net = NewMemoryStore_oauth\<rparr>"

theorem cli_registers_with_server_witness:
  "case ensureRegistered dec_times (registration_net ex_reg_cfg ex_reg_env (ep_Registration known_endpoints)) sample_login_env ''https://as''
      known_endpoints (callback_uri 8765) ''read'' new_login of
     (Inr cid, s') \<Rightarrow> (\<exists>client. mem_GetClient cid (ls_net s') = Inr client \<and> cl_RedirectURIs client = [callback_uri 8765])
   | (Inl err, s') \<Rightarrow> \<exists>c. SaveHost dec_times (le_io sample_login_env 2) ''as'' c (ls_disk new_login) = (Some err, ls_disk s')"
proof -
  have f: "files_ok dec_times sample_login_env new_login" "stored dec_times new_login ''as'' = None"
    using dec_times_ok by (simp_all add: files_ok_def new_login_def cred_wf_def sample_login_env_def io_fine_def stored_def cred_abs_def)
  have h: "HostFromIssuer ''https://as'' = Inr ''as''" by code_simp
  have v: "utf8_valid ''https://as''" "utf8_valid ''as''" "utf8_valid ''read''" "utf8_valid ''dcr-''" by (rule ascii_valid, simp)+
  have t: "go_TrimSpace ''read'' \<noteq> []" "go_Fields ''read'' = [''read'']" by code_simp+
  have "case_sum (\<lambda>_. False) (\<lambda>_. True) (url_Parse (ep_Registration known_endpoints))" by code_simp
  then obtain u where u: "url_Parse (ep_Registration known_endpoints) = Inr u" by (auto split: sum.splits)
  have l: "length (compact (dcr_body (callback_uri 8765) ''read'')) \<le> maxRegistrationBodyBytes" by code_simp
  have i: "issuer_text ''https://as''" using h v by (simp add: issuer_text_def)
  from cli_registers_with_server [OF f(1) i h f(2) u, of 8765 "''read''" ex_reg_cfg ex_reg_env] v t l
  show ?thesis by (simp add: ex_reg_cfg_def ex_reg_env_def split: prod.splits sum.splits) blast
qed

end
