(* ===== verification/SigningKeys.thy ===== *)
theory SigningKeys
  imports AuditEvents
begin

text \<open>
  Package keys (\<^verbatim>\<open>oauth/keys\<close>): the signing-key store interface and its in-memory implementation, the
  key manager and the rotation loop. The store interface is the record \<open>KeyStore\<close> of the operations
  a manager calls; the locale \<open>signing_key_store\<close> states what the interface comment promises, and
  \<open>memory_KeyStore\<close> is interpreted in it. RSA, X.509, PEM and UUID generation are parameters.
\<close>

section \<open>Signing keys and their in-memory store\<close>

definition SigningAlgorithm :: string where "SigningAlgorithm = ''RS256''"
definition KeyUseSignature :: string where "KeyUseSignature = ''sig''"
definition keys_ErrNotFound :: string where "keys_ErrNotFound = ''oauth keys: not found''"

record SigningKey =
  sk_KID :: string
  sk_Algorithm :: string
  sk_PrivateKeyPEM :: string
  sk_PublicKeyPEM :: string
  sk_IsActive :: bool
  sk_CreatedAt :: gotime
  sk_RetiredAt :: "gotime option"

type_synonym key_memory = "SigningKey list"

definition NewMemoryStore_keys :: key_memory where "NewMemoryStore_keys = []"

fun FindActiveSigningKey :: "key_memory \<Rightarrow> SigningKey result" where
  "FindActiveSigningKey [] = Inl (Sentinel keys_ErrNotFound)"
| "FindActiveSigningKey (key # ks) =
     (if sk_IsActive key then Inr key else FindActiveSigningKey ks)"

definition EnsureSigningKey_mem :: "SigningKey \<Rightarrow> key_memory \<Rightarrow> SigningKey result \<times> key_memory" where
  "EnsureSigningKey_mem key ks =
     (case FindActiveSigningKey ks of
        Inr existing \<Rightarrow> (Inr existing, ks)
      | Inl _ \<Rightarrow> (Inr key, ks @ [key]))"

definition retire :: "gotime \<Rightarrow> SigningKey \<Rightarrow> SigningKey" where
  "retire retiredAt k =
     (if sk_IsActive k then k\<lparr>sk_IsActive := False, sk_RetiredAt := Some retiredAt\<rparr> else k)"

definition RotateSigningKey_mem ::
  "SigningKey \<Rightarrow> gotime \<Rightarrow> key_memory \<Rightarrow> SigningKey result \<times> key_memory" where
  "RotateSigningKey_mem replacement retiredAt ks =
     (Inr replacement, map (retire retiredAt) ks @ [replacement])"

definition verifying :: "gotime \<Rightarrow> SigningKey \<Rightarrow> bool" where
  "verifying now k =
     (sk_IsActive k \<or> (case sk_RetiredAt k of None \<Rightarrow> False | Some t \<Rightarrow> time_After t now))"

definition ListVerifyingSigningKeys :: "gotime \<Rightarrow> key_memory \<Rightarrow> SigningKey list result" where
  "ListVerifyingSigningKeys now ks = Inr (filter (verifying now) ks)"

definition expired :: "gotime \<Rightarrow> SigningKey \<Rightarrow> bool" where
  "expired now k =
     (\<not> sk_IsActive k \<and> (case sk_RetiredAt k of None \<Rightarrow> False | Some t \<Rightarrow> time_Before t now))"

fun delete_expired_loop :: "gotime \<Rightarrow> SigningKey list \<Rightarrow> SigningKey list \<Rightarrow> int \<Rightarrow> SigningKey list \<times> int" where
  "delete_expired_loop now [] kept deleted = (kept, deleted)"
| "delete_expired_loop now (k # ks) kept deleted =
     (if expired now k then delete_expired_loop now ks kept (deleted + 1)
      else delete_expired_loop now ks (kept @ [k]) deleted)"

definition DeleteExpiredSigningKeys :: "gotime \<Rightarrow> key_memory \<Rightarrow> int result \<times> key_memory" where
  "DeleteExpiredSigningKeys now ks =
     (case delete_expired_loop now ks [] 0 of (kept, deleted) \<Rightarrow> (Inr deleted, kept))"

section \<open>The store interface\<close>

record 's KeyStore =
  ks_FindActiveSigningKey :: "'s \<Rightarrow> SigningKey result"
  ks_EnsureSigningKey :: "SigningKey \<Rightarrow> 's \<Rightarrow> SigningKey result \<times> 's"
  ks_RotateSigningKey :: "SigningKey \<Rightarrow> gotime \<Rightarrow> 's \<Rightarrow> SigningKey result \<times> 's"
  ks_ListVerifyingSigningKeys :: "gotime \<Rightarrow> 's \<Rightarrow> SigningKey list result"
  ks_DeleteExpiredSigningKeys :: "gotime \<Rightarrow> 's \<Rightarrow> int result \<times> 's"

definition memory_KeyStore :: "key_memory KeyStore" where
  "memory_KeyStore =
     \<lparr>ks_FindActiveSigningKey = FindActiveSigningKey,
      ks_EnsureSigningKey = EnsureSigningKey_mem,
      ks_RotateSigningKey = RotateSigningKey_mem,
      ks_ListVerifyingSigningKeys = ListVerifyingSigningKeys,
      ks_DeleteExpiredSigningKeys = DeleteExpiredSigningKeys\<rparr>"

section \<open>Manager\<close>

text \<open>
  What the manager uses of the cryptographic packages: RSA keys of type \<open>'k\<close>, their public halves of
  type \<open>'p\<close>, the DER and PEM codecs. \<open>keygen\<close> is one outcome of \<^verbatim>\<open>rsa.GenerateKey\<close> and \<^verbatim>\<open>uuid.NewString\<close>.
\<close>

record ('k, 'p) key_codec =
  kc_PublicKey :: "'k \<Rightarrow> 'p"
  kc_MarshalPKIXPublicKey :: "'p \<Rightarrow> string result"
  kc_MarshalPKCS1PrivateKey :: "'k \<Rightarrow> string"
  kc_ParsePKCS1PrivateKey :: "string \<Rightarrow> 'k result"
  kc_ParsePKIXPublicKey :: "string \<Rightarrow> 'p result"
  kc_pem_EncodeToMemory :: "string \<Rightarrow> string \<Rightarrow> string"
  kc_pem_Decode :: "string \<Rightarrow> (string \<times> string) option"

record 'k keygen =
  kg_rsa_GenerateKey :: "'k result"
  kg_uuid_NewString :: string

definition generateSigningKey ::
  "('k, 'p) key_codec \<Rightarrow> 'k keygen \<Rightarrow> gotime \<Rightarrow> SigningKey result" where
  "generateSigningKey kc g now =
     (case kg_rsa_GenerateKey g of
        Inl e \<Rightarrow> Inl (Wrap ''generate RSA key'' e)
      | Inr privateKey \<Rightarrow>
          (case kc_MarshalPKIXPublicKey kc (kc_PublicKey kc privateKey) of
             Inl e \<Rightarrow> Inl (Wrap ''marshal public key'' e)
           | Inr publicKeyBytes \<Rightarrow>
               Inr \<lparr>sk_KID = kg_uuid_NewString g,
                    sk_Algorithm = SigningAlgorithm,
                    sk_PrivateKeyPEM =
                      kc_pem_EncodeToMemory kc ''RSA PRIVATE KEY''
                        (kc_MarshalPKCS1PrivateKey kc privateKey),
                    sk_PublicKeyPEM = kc_pem_EncodeToMemory kc ''PUBLIC KEY'' publicKeyBytes,
                    sk_IsActive = True,
                    sk_CreatedAt = now,
                    sk_RetiredAt = None\<rparr>))"

definition parsePrivateKeyPEM :: "('k, 'p) key_codec \<Rightarrow> string \<Rightarrow> 'k result" where
  "parsePrivateKeyPEM kc pem =
     (case kc_pem_Decode kc pem of
        None \<Rightarrow> Inl (Plain ''decode private key PEM'')
      | Some (_, bytes) \<Rightarrow>
          (case kc_ParsePKCS1PrivateKey kc bytes of
             Inl e \<Rightarrow> Inl (Wrap ''parse private key'' e)
           | Inr k \<Rightarrow> Inr k))"

definition parsePublicKeyPEM :: "('k, 'p) key_codec \<Rightarrow> string \<Rightarrow> 'p result" where
  "parsePublicKeyPEM kc pem =
     (case kc_pem_Decode kc pem of
        None \<Rightarrow> Inl (Plain ''decode public key PEM'')
      | Some (_, bytes) \<Rightarrow>
          (case kc_ParsePKIXPublicKey kc bytes of
             Inl e \<Rightarrow> Inl (Wrap ''parse public key'' e)
           | Inr p \<Rightarrow> Inr p))"

definition EnsureSigningKey ::
  "'s KeyStore \<Rightarrow> ('k, 'p) key_codec \<Rightarrow> 'k keygen \<Rightarrow> gotime \<Rightarrow> 's \<Rightarrow> SigningKey result \<times> 's" where
  "EnsureSigningKey ops kc g now s =
     (case ks_FindActiveSigningKey ops s of
        Inr active \<Rightarrow> (Inr active, s)
      | Inl err \<Rightarrow>
          if \<not> errors_is err keys_ErrNotFound
          then (Inl (Wrap ''query active signing key'' err), s)
          else (case generateSigningKey kc g now of
                  Inl e \<Rightarrow> (Inl e, s)
                | Inr key \<Rightarrow>
                    (case ks_EnsureSigningKey ops key s of
                       (Inl e, s') \<Rightarrow> (Inl (Wrap ''ensure signing key'' e), s')
                     | (Inr created, s') \<Rightarrow> (Inr created, s'))))"

definition GetActivePrivateKey ::
  "'s KeyStore \<Rightarrow> ('k, 'p) key_codec \<Rightarrow> 's \<Rightarrow> ('k \<times> string) result" where
  "GetActivePrivateKey ops kc s =
     (case ks_FindActiveSigningKey ops s of
        Inl e \<Rightarrow> Inl (Wrap ''query active key'' e)
      | Inr key \<Rightarrow>
          (case parsePrivateKeyPEM kc (sk_PrivateKeyPEM key) of
             Inl e \<Rightarrow> Inl e
           | Inr privateKey \<Rightarrow> Inr (privateKey, sk_KID key)))"

record 'p JSONWebKey =
  jwk_Key :: 'p
  jwk_KeyID :: string
  jwk_Algorithm :: string
  jwk_Use :: string

text \<open>The loop of \<^verbatim>\<open>JWKS\<close>: a key whose PEM does not parse is logged and skipped.\<close>

fun jwks_loop :: "('k, 'p) key_codec \<Rightarrow> SigningKey list \<Rightarrow> 'p JSONWebKey list" where
  "jwks_loop kc [] = []"
| "jwks_loop kc (signingKey # ks) =
     (case parsePublicKeyPEM kc (sk_PublicKeyPEM signingKey) of
        Inl _ \<Rightarrow> jwks_loop kc ks
      | Inr publicKey \<Rightarrow>
          \<lparr>jwk_Key = publicKey, jwk_KeyID = sk_KID signingKey,
           jwk_Algorithm = sk_Algorithm signingKey, jwk_Use = KeyUseSignature\<rparr> # jwks_loop kc ks)"

definition JWKS ::
  "'s KeyStore \<Rightarrow> ('k, 'p) key_codec \<Rightarrow> gotime \<Rightarrow> 's \<Rightarrow> 'p JSONWebKey list result" where
  "JWKS ops kc now s =
     (case ks_ListVerifyingSigningKeys ops now s of
        Inl e \<Rightarrow> Inl (Wrap ''query signing keys'' e)
      | Inr signingKeys \<Rightarrow> Inr (jwks_loop kc signingKeys))"

text \<open>\<^verbatim>\<open>rotateSigningKeyAt\<close> reads the clock twice: for the new key's creation time and for the grace deadline.\<close>

definition rotateSigningKeyAt ::
  "'s KeyStore \<Rightarrow> ('k, 'p) key_codec \<Rightarrow> 'k keygen \<Rightarrow> duration \<Rightarrow> gotime \<Rightarrow> gotime \<Rightarrow> 's \<Rightarrow>
   SigningKey result \<times> 's" where
  "rotateSigningKeyAt ops kc g grace now1 now2 s =
     (case generateSigningKey kc g now1 of
        Inl e \<Rightarrow> (Inl e, s)
      | Inr key \<Rightarrow>
          (case ks_RotateSigningKey ops key (time_Add now2 grace) s of
             (Inl e, s') \<Rightarrow> (Inl (Wrap ''rotate signing key'' e), s')
           | (Inr created, s') \<Rightarrow> (Inr created, s')))"

definition retireExpiredKeysAt :: "'s KeyStore \<Rightarrow> gotime \<Rightarrow> 's \<Rightarrow> int result \<times> 's" where
  "retireExpiredKeysAt ops now s =
     (case ks_DeleteExpiredSigningKeys ops now s of
        (Inl e, s') \<Rightarrow> (Inl (Wrap ''delete expired signing keys'' e), s')
      | (Inr deleted, s') \<Rightarrow> (Inr deleted, s'))"

section \<open>Rotator\<close>

definition DefaultRotationInterval :: duration where "DefaultRotationInterval = 90 * 24 * time_Hour"
definition DefaultRotationGrace :: duration where "DefaultRotationGrace = 48 * time_Hour"
definition minRotationInterval :: duration where "minRotationInterval = time_Hour"
definition minRotationGrace :: duration where "minRotationGrace = time_Hour"

record RotationConfig =
  rc_Interval :: duration
  rc_Grace :: duration

definition rotation_applyDefaults :: "RotationConfig \<Rightarrow> RotationConfig" where
  "rotation_applyDefaults c =
     (let i1 = (if rc_Interval c = 0 then DefaultRotationInterval else rc_Interval c);
          i2 = (if i1 < minRotationInterval then minRotationInterval else i1);
          g1 = (if rc_Grace c = 0 then DefaultRotationGrace else rc_Grace c);
          g2 = (if g1 < minRotationGrace then minRotationGrace else g1)
      in c\<lparr>rc_Interval := i2, rc_Grace := g2\<rparr>)"

definition delayUntilFirstRotation ::
  "'s KeyStore \<Rightarrow> RotationConfig \<Rightarrow> gotime \<Rightarrow> 's \<Rightarrow> duration result" where
  "delayUntilFirstRotation ops cfg now s =
     (case ks_FindActiveSigningKey ops s of
        Inl err \<Rightarrow> if errors_is err keys_ErrNotFound then Inr (rc_Interval cfg) else Inl err
      | Inr current \<Rightarrow>
          (let age = time_Sub now (sk_CreatedAt current)
           in if age \<ge> rc_Interval cfg then Inr 0 else Inr (wrap64 (rc_Interval cfg - age))))"

definition context_Canceled :: string where "context_Canceled = ''context canceled''"

definition emitKeyRotated :: "emitter option \<Rightarrow> gotime \<Rightarrow> string \<Rightarrow> Event list" where
  "emitKeyRotated auditEmitter now newKID =
     (case auditEmitter of
        None \<Rightarrow> []
      | Some _ \<Rightarrow> [zero_Event\<lparr>ev_EntityType := ''oauth_key'', ev_EntityID := newKID,
                            ev_Action := ''rotated'', ev_Timestamp := now\<rparr>])"

text \<open>
  One firing of the timer. \<open>tick\<close> collects what the environment supplies: whether the context is
  already done, the generated key, and the clock readings in the order they are taken (creation
  time, grace deadline, audit timestamp, cleanup).
\<close>

record 'k tick =
  tk_ctx_Err :: bool
  tk_keygen :: "'k keygen"
  tk_now_created :: gotime
  tk_now_grace :: gotime
  tk_now_audit :: gotime
  tk_now_cleanup :: gotime

definition rotateAndCleanup ::
  "'s KeyStore \<Rightarrow> ('k, 'p) key_codec \<Rightarrow> RotationConfig \<Rightarrow> emitter option \<Rightarrow> 'k tick \<Rightarrow> 's \<Rightarrow> 's \<times> Event list" where
  "rotateAndCleanup ops kc cfg em tk s =
     (if tk_ctx_Err tk then (s, [])
      else
        (case rotateSigningKeyAt ops kc (tk_keygen tk) (rc_Grace cfg)
                (tk_now_created tk) (tk_now_grace tk) s of
           (Inr created, s') \<Rightarrow>
             (snd (retireExpiredKeysAt ops (tk_now_cleanup tk) s'),
              emitKeyRotated em (tk_now_audit tk) (sk_KID created))
         | (Inl err, s') \<Rightarrow>
             if errors_is err context_Canceled then (s', [])
             else (snd (retireExpiredKeysAt ops (tk_now_cleanup tk) s'), [])))"

text \<open>
  \<^verbatim>\<open>Run\<close>: compute the first delay (the interval when that fails), then serve timer firings until the
  context is done; each firing re-arms the timer with the interval. The result lists the delays the
  timer was armed with, and \<^term>\<open>None\<close> in the event list is \<^verbatim>\<open>ctx.Done()\<close>.
\<close>

fun run_loop ::
  "'s KeyStore \<Rightarrow> ('k, 'p) key_codec \<Rightarrow> RotationConfig \<Rightarrow> emitter option \<Rightarrow> 'k tick option list \<Rightarrow> 's \<Rightarrow>
   's \<times> Event list \<times> duration list" where
  "run_loop ops kc cfg em [] s = (s, [], [])"
| "run_loop ops kc cfg em (None # _) s = (s, [], [])"
| "run_loop ops kc cfg em (Some tk # ticks) s =
     (case rotateAndCleanup ops kc cfg em tk s of
        (s', evs) \<Rightarrow>
          (case run_loop ops kc cfg em ticks s' of
             (s'', evs', ds) \<Rightarrow> (s'', evs @ evs', rc_Interval cfg # ds)))"

definition rotator_Run ::
  "'s KeyStore \<Rightarrow> ('k, 'p) key_codec \<Rightarrow> RotationConfig \<Rightarrow> emitter option \<Rightarrow> gotime \<Rightarrow> 'k tick option list \<Rightarrow> 's \<Rightarrow>
   's \<times> Event list \<times> duration list" where
  "rotator_Run ops kc cfg em now ticks s =
     (let delay = (case delayUntilFirstRotation ops cfg now s of
                     Inl _ \<Rightarrow> rc_Interval cfg | Inr d \<Rightarrow> d)
      in case run_loop ops kc cfg em ticks s of (s', evs, ds) \<Rightarrow> (s', evs, delay # ds))"


section \<open>The contract of a key store\<close>

text \<open>A key that may be handed to the store: active, not retired, with an unused key ID.\<close>

definition fresh_key :: "SigningKey \<Rightarrow> SigningKey set \<Rightarrow> bool" where
  "fresh_key key K = (sk_IsActive key \<and> sk_RetiredAt key = None \<and> sk_KID key \<notin> sk_KID ` K)"

locale signing_key_store =
  fixes ops :: "'s KeyStore"
    and keys_of :: "'s \<Rightarrow> SigningKey set"
    and invar :: "'s \<Rightarrow> bool"
  assumes find_Inr:
      "invar s \<Longrightarrow> ks_FindActiveSigningKey ops s = Inr k \<Longrightarrow> k \<in> keys_of s \<and> sk_IsActive k"
    and find_Inl:
      "invar s \<Longrightarrow> ks_FindActiveSigningKey ops s = Inl e \<Longrightarrow>
         errors_is e keys_ErrNotFound \<and> (\<forall>k \<in> keys_of s. \<not> sk_IsActive k)"
    and one_active:
      "invar s \<Longrightarrow> k \<in> keys_of s \<Longrightarrow> k' \<in> keys_of s \<Longrightarrow> sk_IsActive k \<Longrightarrow> sk_IsActive k' \<Longrightarrow> k = k'"
    and ensure_create:
      "invar s \<Longrightarrow> \<forall>k \<in> keys_of s. \<not> sk_IsActive k \<Longrightarrow> fresh_key key (keys_of s) \<Longrightarrow>
         \<exists>s'. ks_EnsureSigningKey ops key s = (Inr key, s') \<and> invar s' \<and>
              keys_of s' = insert key (keys_of s)"
    and ensure_keep:
      "invar s \<Longrightarrow> k \<in> keys_of s \<Longrightarrow> sk_IsActive k \<Longrightarrow> ks_EnsureSigningKey ops key s = (Inr k, s)"
    and rotate_create:
      "invar s \<Longrightarrow> fresh_key key (keys_of s) \<Longrightarrow>
         \<exists>s'. ks_RotateSigningKey ops key t s = (Inr key, s') \<and> invar s' \<and>
              keys_of s' = insert key (retire t ` keys_of s)"
    and list_verifying:
      "invar s \<Longrightarrow>
         \<exists>ks. ks_ListVerifyingSigningKeys ops now s = Inr ks \<and>
              set ks = {k \<in> keys_of s. verifying now k}"
    and delete_expired:
      "invar s \<Longrightarrow>
         \<exists>n s'. ks_DeleteExpiredSigningKeys ops now s = (Inr n, s') \<and> invar s' \<and>
                keys_of s' = {k \<in> keys_of s. \<not> expired now k}"

text \<open>
  Documented behaviour of the codecs: what is encoded decodes to the same value. A stored key is
  \<open>generated\<close> when its two PEM blocks encode one RSA key pair.
\<close>

definition codec_ok :: "('k, 'p) key_codec \<Rightarrow> bool" where
  "codec_ok kc =
     ((\<forall>k. kc_ParsePKCS1PrivateKey kc (kc_MarshalPKCS1PrivateKey kc k) = Inr k) \<and>
      (\<forall>p b. kc_MarshalPKIXPublicKey kc p = Inr b \<longrightarrow> kc_ParsePKIXPublicKey kc b = Inr p) \<and>
      (\<forall>ty b. kc_pem_Decode kc (kc_pem_EncodeToMemory kc ty b) = Some (ty, b)))"

definition generated :: "('k, 'p) key_codec \<Rightarrow> SigningKey \<Rightarrow> bool" where
  "generated kc key =
     (\<exists>k. parsePrivateKeyPEM kc (sk_PrivateKeyPEM key) = Inr k \<and>
          parsePublicKeyPEM kc (sk_PublicKeyPEM key) = Inr (kc_PublicKey kc k))"

lemma generateSigningKey_Inr:
  assumes "codec_ok kc" "generateSigningKey kc g now = Inr key"
  shows "\<exists>k. kg_rsa_GenerateKey g = Inr k \<and> parsePrivateKeyPEM kc (sk_PrivateKeyPEM key) = Inr k \<and>
             parsePublicKeyPEM kc (sk_PublicKeyPEM key) = Inr (kc_PublicKey kc k)"
    and "sk_KID key = kg_uuid_NewString g" "sk_IsActive key" "sk_RetiredAt key = None"
        "sk_Algorithm key = SigningAlgorithm" "sk_CreatedAt key = now"
  using assms
  by (auto simp: generateSigningKey_def codec_ok_def parsePrivateKeyPEM_def parsePublicKeyPEM_def
      split: sum.splits)

lemma generateSigningKey_generated:
  "codec_ok kc \<Longrightarrow> generateSigningKey kc g now = Inr key \<Longrightarrow> generated kc key"
  using generateSigningKey_Inr(1) by (fastforce simp: generated_def)

lemma generateSigningKey_fresh:
  "codec_ok kc \<Longrightarrow> generateSigningKey kc g now = Inr key \<Longrightarrow> kg_uuid_NewString g \<notin> sk_KID ` K \<Longrightarrow>
   fresh_key key K"
  by (simp add: fresh_key_def generateSigningKey_Inr)

lemma jwks_loop_mem:
  "key \<in> set ks \<Longrightarrow> parsePublicKeyPEM kc (sk_PublicKeyPEM key) = Inr p \<Longrightarrow>
   \<lparr>jwk_Key = p, jwk_KeyID = sk_KID key, jwk_Algorithm = sk_Algorithm key, jwk_Use = KeyUseSignature\<rparr>
     \<in> set (jwks_loop kc ks)"
  by (induction ks) (auto split: sum.splits)

lemma jwks_loop_source:
  "j \<in> set (jwks_loop kc ks) \<Longrightarrow>
   \<exists>key \<in> set ks. parsePublicKeyPEM kc (sk_PublicKeyPEM key) = Inr (jwk_Key j) \<and>
                  jwk_KeyID j = sk_KID key"
  by (induction ks) (auto split: sum.splits)

context signing_key_store
begin

lemma find_active:
  assumes "invar s" "k \<in> keys_of s" "sk_IsActive k"
  shows "ks_FindActiveSigningKey ops s = Inr k"
proof (cases "ks_FindActiveSigningKey ops s")
  case (Inl e)
  with assms find_Inl show ?thesis by blast
next
  case (Inr k')
  with assms find_Inr one_active show ?thesis by metis
qed

lemma ensure_active:
  assumes "invar s" "codec_ok kc" "kg_uuid_NewString g \<notin> sk_KID ` keys_of s"
    and "EnsureSigningKey ops kc g now s = (Inr k, s')"
  shows "invar s' \<and> k \<in> keys_of s' \<and> sk_IsActive k \<and> keys_of s \<subseteq> keys_of s' \<and>
         ((\<forall>k \<in> keys_of s. generated kc k) \<longrightarrow> (\<forall>k \<in> keys_of s'. generated kc k))"
proof (cases "ks_FindActiveSigningKey ops s")
  case (Inr active)
  with assms find_Inr [OF assms(1) Inr] show ?thesis by (auto simp: EnsureSigningKey_def)
next
  case (Inl e)
  note none = find_Inl [OF assms(1) Inl]
  with Inl assms(4) obtain key where key: "generateSigningKey kc g now = Inr key"
    by (auto simp: EnsureSigningKey_def split: sum.splits)
  with assms ensure_create [OF assms(1) none [THEN conjunct2]] obtain s1 where
    "ks_EnsureSigningKey ops key s = (Inr key, s1)" "invar s1"
    "keys_of s1 = insert key (keys_of s)"
    using generateSigningKey_fresh by metis
  with Inl none key assms(4) generateSigningKey_Inr [OF assms(2) key]
    generateSigningKey_generated [OF assms(2) key]
  show ?thesis by (auto simp: EnsureSigningKey_def)
qed

lemma rotate_keys:
  assumes "invar s" "codec_ok kc" "kg_uuid_NewString g \<notin> sk_KID ` keys_of s"
    and "generateSigningKey kc g now1 = Inr key"
  shows "\<exists>s'. rotateSigningKeyAt ops kc g grace now1 now2 s = (Inr key, s') \<and> invar s' \<and>
              keys_of s' = insert key (retire (now2 + grace) ` keys_of s)"
proof -
  from assms have "fresh_key key (keys_of s)" by (metis generateSigningKey_fresh)
  from rotate_create [OF assms(1) this, of "now2 + grace"] obtain s' where
    "ks_RotateSigningKey ops key (now2 + grace) s = (Inr key, s')" "invar s'"
    "keys_of s' = insert key (retire (now2 + grace) ` keys_of s)" by blast
  with assms(4) show ?thesis by (simp add: rotateSigningKeyAt_def time_Add_def)
qed

lemma cleanup_keys:
  "invar s \<Longrightarrow> \<exists>n s'. retireExpiredKeysAt ops now s = (Inr n, s') \<and> invar s' \<and>
                     keys_of s' = {k \<in> keys_of s. \<not> expired now k}"
  using delete_expired [of s now] by (auto simp: retireExpiredKeysAt_def)

lemma jwks_published:
  assumes "invar s" "key \<in> keys_of s" "verifying now key"
    and "parsePublicKeyPEM kc (sk_PublicKeyPEM key) = Inr p"
  shows "\<exists>js. JWKS ops kc now s = Inr js \<and>
              \<lparr>jwk_Key = p, jwk_KeyID = sk_KID key, jwk_Algorithm = sk_Algorithm key,
               jwk_Use = KeyUseSignature\<rparr> \<in> set js"
proof -
  from list_verifying [OF assms(1)] obtain ks where
    "ks_ListVerifyingSigningKeys ops now s = Inr ks" "key \<in> set ks"
    using assms(2,3) by blast
  with assms(4) show ?thesis by (auto simp: JWKS_def intro: jwks_loop_mem)
qed

lemma active_key_signs:
  assumes "invar s" "key \<in> keys_of s" "sk_IsActive key" "generated kc key"
  shows "\<exists>k. GetActivePrivateKey ops kc s = Inr (k, sk_KID key) \<and>
             parsePublicKeyPEM kc (sk_PublicKeyPEM key) = Inr (kc_PublicKey kc k)"
  using assms find_active [OF assms(1-3)] by (auto simp: GetActivePrivateKey_def generated_def)

lemma signer_published:
  assumes "invar s" "\<forall>k \<in> keys_of s. generated kc k" "GetActivePrivateKey ops kc s = Inr (k, kid)"
  shows "\<exists>js j. JWKS ops kc now s = Inr js \<and> j \<in> set js \<and> jwk_KeyID j = kid \<and>
                jwk_Key j = kc_PublicKey kc k \<and> jwk_Use j = ''sig''"
proof -
  from assms(3) obtain key where key: "ks_FindActiveSigningKey ops s = Inr key" "sk_KID key = kid"
    "parsePrivateKeyPEM kc (sk_PrivateKeyPEM key) = Inr k"
    by (auto simp: GetActivePrivateKey_def split: sum.splits)
  with find_Inr assms have mem: "key \<in> keys_of s" "sk_IsActive key" by blast+
  with assms(2) key(3) have "parsePublicKeyPEM kc (sk_PublicKeyPEM key) = Inr (kc_PublicKey kc k)"
    by (auto simp: generated_def)
  from jwks_published [OF assms(1) mem(1) _ this, of now] mem(2) key(2) show ?thesis
    by (fastforce simp: verifying_def KeyUseSignature_def)
qed

end

section \<open>The in-memory store meets the contract\<close>

definition keys_inv :: "key_memory \<Rightarrow> bool" where
  "keys_inv ks =
     (distinct (map sk_KID ks) \<and> length (filter sk_IsActive ks) \<le> 1 \<and>
      (\<forall>k \<in> set ks. sk_IsActive k \<longleftrightarrow> sk_RetiredAt k = None))"

lemma FindActiveSigningKey_Inr:
  "FindActiveSigningKey ks = Inr k \<Longrightarrow> k \<in> set ks \<and> sk_IsActive k"
  by (induction ks) (auto split: if_splits)

lemma FindActiveSigningKey_Inl:
  "FindActiveSigningKey ks = Inl e \<Longrightarrow>
   e = Sentinel keys_ErrNotFound \<and> (\<forall>k \<in> set ks. \<not> sk_IsActive k)"
  by (induction ks) (auto split: if_splits)

lemma FindActiveSigningKey_total: "(\<exists>k. FindActiveSigningKey ks = Inr k) \<longleftrightarrow> (\<exists>k \<in> set ks. sk_IsActive k)"
  by (induction ks) auto

lemma delete_expired_loop_eq:
  "delete_expired_loop now ks kept n =
     (kept @ filter (\<lambda>k. \<not> expired now k) ks, n + int (length (filter (expired now) ks)))"
  by (induction ks arbitrary: kept n) auto

lemma DeleteExpiredSigningKeys_eq:
  "DeleteExpiredSigningKeys now ks =
     (Inr (int (length (filter (expired now) ks))), filter (\<lambda>k. \<not> expired now k) ks)"
  by (simp add: DeleteExpiredSigningKeys_def delete_expired_loop_eq)

lemma sk_KID_retire [simp]: "sk_KID (retire t k) = sk_KID k"
  by (simp add: retire_def)

lemma not_active_retire [simp]: "\<not> sk_IsActive (retire t k)"
  by (simp add: retire_def)

lemma one_active_mem:
  assumes "length (filter sk_IsActive ks) \<le> 1" "k \<in> set ks" "k' \<in> set ks"
    "sk_IsActive k" "sk_IsActive k'"
  shows "k = k'"
proof -
  from assms have mem: "k \<in> set (filter sk_IsActive ks)" "k' \<in> set (filter sk_IsActive ks)" by auto
  show ?thesis
  proof (cases "filter sk_IsActive ks")
    case Nil
    with mem(1) show ?thesis by (metis list.distinct(1) list.set_cases)
  next
    case (Cons y ys)
    with assms(1) have "filter sk_IsActive ks = [y]" by simp
    with mem show ?thesis by (metis empty_iff list.set(1) set_ConsD)
  qed
qed

lemma keys_inv_filter: "keys_inv ks \<Longrightarrow> keys_inv (filter P ks)"
proof -
  assume inv: "keys_inv ks"
  have "filter sk_IsActive (filter P ks) = filter P (filter sk_IsActive ks)"
    by (induction ks) auto
  then have "length (filter sk_IsActive (filter P ks)) \<le> length (filter sk_IsActive ks)"
    by (metis length_filter_le)
  with inv show ?thesis
    by (auto simp: keys_inv_def distinct_map intro: inj_on_subset)
qed

lemma keys_inv_snoc:
  "keys_inv ks \<Longrightarrow> \<forall>k \<in> set ks. \<not> sk_IsActive k \<Longrightarrow> fresh_key key (set ks) \<Longrightarrow> keys_inv (ks @ [key])"
  by (auto simp: keys_inv_def fresh_key_def image_iff filter_empty_conv)

lemma keys_inv_retire: "keys_inv ks \<Longrightarrow> keys_inv (map (retire t) ks)"
proof -
  assume inv: "keys_inv ks"
  have "map sk_KID (map (retire t) ks) = map sk_KID ks" by (simp add: comp_def)
  moreover have "filter sk_IsActive (map (retire t) ks) = []" by (simp add: filter_empty_conv)
  moreover have "\<forall>k \<in> set (map (retire t) ks). sk_RetiredAt k \<noteq> None"
    using inv by (auto simp: keys_inv_def retire_def)
  ultimately show ?thesis using inv unfolding keys_inv_def
    by (metis length_filter_le list.size(3) not_active_retire imageE image_set zero_le)
qed

interpretation km: signing_key_store memory_KeyStore set keys_inv
proof (unfold_locales, goal_cases)
  case (1 s k)
  then show ?case by (simp add: memory_KeyStore_def FindActiveSigningKey_Inr)
next
  case (2 s e)
  then show ?case by (auto simp: memory_KeyStore_def dest!: FindActiveSigningKey_Inl)
next
  case (3 s k k')
  then show ?case by (auto simp: keys_inv_def intro: one_active_mem)
next
  case (4 s key)
  then have "\<not> (\<exists>k. FindActiveSigningKey s = Inr k)" by (simp add: FindActiveSigningKey_total)
  then obtain e where "FindActiveSigningKey s = Inl e" by (cases "FindActiveSigningKey s") auto
  with 4 keys_inv_snoc show ?case
    by (auto simp: memory_KeyStore_def EnsureSigningKey_mem_def)
next
  case (5 s k key)
  then obtain k' where k': "FindActiveSigningKey s = Inr k'" using FindActiveSigningKey_total by blast
  with 5 have "k' = k"
    by (auto simp: keys_inv_def dest!: FindActiveSigningKey_Inr intro: one_active_mem)
  with k' show ?case by (simp add: memory_KeyStore_def EnsureSigningKey_mem_def)
next
  case (6 s key t)
  then have "fresh_key key (set (map (retire t) s))"
    by (auto simp: fresh_key_def image_iff)
  with 6 have "keys_inv (map (retire t) s @ [key])"
    by (intro keys_inv_snoc keys_inv_retire) auto
  then show ?case by (auto simp: memory_KeyStore_def RotateSigningKey_mem_def)
next
  case (7 s now)
  then show ?case by (auto simp: memory_KeyStore_def ListVerifyingSigningKeys_def)
next
  case (8 s now)
  then show ?case
    by (auto simp: memory_KeyStore_def DeleteExpiredSigningKeys_eq keys_inv_filter)
qed


section \<open>Histories of a key store\<close>

text \<open>
  One call on the memory store by any part of the server, with the clock before and after it: the
  clock readings a call takes lie between the two, and the UUID it draws is unused.
\<close>

inductive key_step ::
  "('k, 'p) key_codec \<Rightarrow> duration \<Rightarrow> gotime \<times> key_memory \<Rightarrow> gotime \<times> key_memory \<Rightarrow> bool"
  for kc grace where
  step_ensure:
    "EnsureSigningKey memory_KeyStore kc g now s = (r, s') \<Longrightarrow>
     kg_uuid_NewString g \<notin> sk_KID ` set s \<Longrightarrow> t \<le> now \<Longrightarrow> now \<le> t' \<Longrightarrow>
     key_step kc grace (t, s) (t', s')"
| step_rotate:
    "rotateSigningKeyAt memory_KeyStore kc g grace now1 now2 s = (r, s') \<Longrightarrow>
     kg_uuid_NewString g \<notin> sk_KID ` set s \<Longrightarrow> t \<le> now1 \<Longrightarrow> now1 \<le> now2 \<Longrightarrow> now2 \<le> t' \<Longrightarrow>
     key_step kc grace (t, s) (t', s')"
| step_cleanup:
    "retireExpiredKeysAt memory_KeyStore now s = (r, s') \<Longrightarrow> t \<le> now \<Longrightarrow> now \<le> t' \<Longrightarrow>
     key_step kc grace (t, s) (t', s')"

inductive_cases key_stepE: "key_step kc grace (t, s) (t', s')"

text \<open>What a history keeps: the store invariant, and key pairs that belong together.\<close>

definition keys_good :: "('k, 'p) key_codec \<Rightarrow> key_memory \<Rightarrow> bool" where
  "keys_good kc s = (keys_inv s \<and> (\<forall>k \<in> set s. generated kc k))"

lemma ensure_Inl_state:
  "EnsureSigningKey memory_KeyStore kc g now s = (Inl e, s') \<Longrightarrow> s' = s"
  by (auto simp: EnsureSigningKey_def memory_KeyStore_def EnsureSigningKey_mem_def
      split: sum.splits if_splits)

lemma rotate_Inl_state:
  "rotateSigningKeyAt memory_KeyStore kc g grace now1 now2 s = (Inl e, s') \<Longrightarrow> s' = s"
  by (auto simp: rotateSigningKeyAt_def memory_KeyStore_def RotateSigningKey_mem_def
      split: sum.splits)

lemma rotate_Inr_key:
  "rotateSigningKeyAt memory_KeyStore kc g grace now1 now2 s = (Inr key, s') \<Longrightarrow>
   generateSigningKey kc g now1 = Inr key"
  by (auto simp: rotateSigningKeyAt_def memory_KeyStore_def RotateSigningKey_mem_def
      split: sum.splits)

lemma generated_retire [simp]: "generated kc (retire t k) = generated kc k"
  by (simp add: generated_def retire_def)

lemma keys_good_ensure:
  assumes "codec_ok kc" "keys_good kc s" "kg_uuid_NewString g \<notin> sk_KID ` set s"
    and "EnsureSigningKey memory_KeyStore kc g now s = (r, s')"
  shows "keys_good kc s'"
proof (cases r)
  case (Inl e)
  with assms show ?thesis using ensure_Inl_state by blast
next
  case (Inr k)
  with assms km.ensure_active [of s kc g now k s'] show ?thesis by (auto simp: keys_good_def)
qed

lemma keys_good_rotate:
  assumes "codec_ok kc" "keys_good kc s" "kg_uuid_NewString g \<notin> sk_KID ` set s"
    and rot: "rotateSigningKeyAt memory_KeyStore kc g grace now1 now2 s = (r, s')"
  shows "keys_good kc s'"
proof (cases r)
  case (Inl e)
  with assms show ?thesis using rotate_Inl_state by blast
next
  case (Inr key)
  then have gen: "generateSigningKey kc g now1 = Inr key" using rot rotate_Inr_key by blast
  with assms km.rotate_keys [of s kc g now1 key grace now2]
  have "keys_inv s'" "set s' = insert key (retire (now2 + grace) ` set s)"
    by (auto simp: keys_good_def)
  with assms generateSigningKey_generated [OF assms(1) gen] show ?thesis
    by (auto simp: keys_good_def)
qed

lemma keys_good_cleanup:
  "keys_good kc s \<Longrightarrow> retireExpiredKeysAt memory_KeyStore now s = (r, s') \<Longrightarrow> keys_good kc s'"
  using km.cleanup_keys [of s now] by (auto simp: keys_good_def)

lemmas keys_good_ops = keys_good_ensure keys_good_rotate keys_good_cleanup

lemma key_step_good:
  "key_step kc grace (t, s) (t', s') \<Longrightarrow> codec_ok kc \<Longrightarrow> keys_good kc s \<Longrightarrow> keys_good kc s'"
  by (erule key_stepE) (auto intro: keys_good_ops)

lemma key_steps_good:
  assumes "(key_step kc grace)\<^sup>*\<^sup>* c c'" "codec_ok kc" "keys_good kc (snd c)"
  shows "keys_good kc (snd c')"
  using assms by (induction rule: rtranclp_induct) (metis key_step_good prod.collapse)+

lemma key_step_clock: "key_step kc grace (t, s) (t', s') \<Longrightarrow> t \<le> t'"
  by (erule key_stepE) auto

text \<open>A retired key is not touched again before its grace deadline has passed.\<close>

lemma retire_inactive [simp]: "\<not> sk_IsActive k \<Longrightarrow> retire t k = k"
  by (simp add: retire_def)

lemma rotate_keeps_retired:
  assumes "rotateSigningKeyAt memory_KeyStore kc g grace now1 now2 s = (r, s')"
    and "k \<in> set s" "\<not> sk_IsActive k"
  shows "k \<in> set s'"
proof -
  from assms(2,3) have "k \<in> set (map (retire (now2 + grace)) s)" by (force simp: image_iff)
  with assms show ?thesis
    by (auto simp: rotateSigningKeyAt_def memory_KeyStore_def RotateSigningKey_mem_def time_Add_def
        split: sum.splits)
qed

lemma ensure_keeps:
  "EnsureSigningKey memory_KeyStore kc g now s = (r, s') \<Longrightarrow> k \<in> set s \<Longrightarrow> k \<in> set s'"
  by (auto simp: EnsureSigningKey_def memory_KeyStore_def EnsureSigningKey_mem_def
      split: sum.splits if_splits)

lemma cleanup_eq:
  "retireExpiredKeysAt memory_KeyStore now s =
     (Inr (int (length (filter (expired now) s))), filter (\<lambda>k. \<not> expired now k) s)"
  by (simp add: retireExpiredKeysAt_def memory_KeyStore_def DeleteExpiredSigningKeys_eq)

lemma key_step_keeps_retired:
  assumes "key_step kc grace (t, s) (t', s')" "k \<in> set s" "\<not> sk_IsActive k"
    and "sk_RetiredAt k = Some d" "t' \<le> d"
  shows "k \<in> set s'"
  using assms(1)
proof (cases rule: key_step.cases)
  case (step_ensure g now r)
  with assms(2) ensure_keeps show ?thesis by blast
next
  case (step_rotate g now1 now2 r)
  with assms(2,3) rotate_keeps_retired show ?thesis by blast
next
  case (step_cleanup now r)
  with assms have "\<not> expired now k" by (simp add: expired_def time_defs)
  with step_cleanup assms(2) show ?thesis by (auto simp: cleanup_eq)
qed

lemma key_steps_clock: "(key_step kc grace)\<^sup>*\<^sup>* c c' \<Longrightarrow> fst c \<le> fst c'"
  by (induction rule: rtranclp_induct) (auto dest: key_step_clock)

lemma key_steps_keep_retired:
  assumes "(key_step kc grace)\<^sup>*\<^sup>* c c'" "k \<in> set (snd c)" "\<not> sk_IsActive k"
    and "sk_RetiredAt k = Some d" "fst c' \<le> d"
  shows "k \<in> set (snd c')"
  using assms
proof (induction rule: rtranclp_induct)
  case base
  then show ?case by simp
next
  case (step c1 c2)
  then have clk: "fst c1 \<le> fst c2" using key_step_clock by (metis prod.collapse)
  with step have "k \<in> set (snd c1)" by simp
  with step key_step_keeps_retired [of kc grace "fst c1" "snd c1" "fst c2" "snd c2" k d]
  show ?case by simp
qed

section \<open>Runs of the rotator\<close>

fun tick_uuids :: "'k tick option list \<Rightarrow> string list" where
  "tick_uuids [] = []"
| "tick_uuids (None # tks) = tick_uuids tks"
| "tick_uuids (Some tk # tks) = kg_uuid_NewString (tk_keygen tk) # tick_uuids tks"

lemma rotate_kids:
  assumes "rotateSigningKeyAt memory_KeyStore kc g grace now1 now2 s = (r, s')" "codec_ok kc"
  shows "sk_KID ` set s' \<subseteq> insert (kg_uuid_NewString g) (sk_KID ` set s)"
  using assms generateSigningKey_Inr(2)
  by (fastforce simp: rotateSigningKeyAt_def memory_KeyStore_def RotateSigningKey_mem_def
      split: sum.splits)

lemma rotate_active:
  assumes "rotateSigningKeyAt memory_KeyStore kc g grace now1 now2 s = (r, s')" "codec_ok kc"
    and "\<exists>k \<in> set s. sk_IsActive k"
  shows "\<exists>k \<in> set s'. sk_IsActive k"
  using assms generateSigningKey_Inr(3)
  by (fastforce simp: rotateSigningKeyAt_def memory_KeyStore_def RotateSigningKey_mem_def
      split: sum.splits)

lemma snd_cleanup: "snd (retireExpiredKeysAt memory_KeyStore now s) = filter (\<lambda>k. \<not> expired now k) s"
  by (simp add: cleanup_eq)

lemma rotateAndCleanup_good:
  assumes "rotateAndCleanup memory_KeyStore kc cfg em tk s = (s', evs)" "codec_ok kc"
    and "keys_good kc s" "kg_uuid_NewString (tk_keygen tk) \<notin> sk_KID ` set s"
  shows "keys_good kc s' \<and>
         sk_KID ` set s' \<subseteq> insert (kg_uuid_NewString (tk_keygen tk)) (sk_KID ` set s) \<and>
         ((\<exists>k \<in> set s. sk_IsActive k) \<longrightarrow> (\<exists>k \<in> set s'. sk_IsActive k))"
proof (cases "tk_ctx_Err tk")
  case True
  with assms show ?thesis by (auto simp: rotateAndCleanup_def)
next
  case False
  obtain r s1 where rot: "rotateSigningKeyAt memory_KeyStore kc (tk_keygen tk) (rc_Grace cfg)
      (tk_now_created tk) (tk_now_grace tk) s = (r, s1)" by fastforce
  let ?c = "filter (\<lambda>k. \<not> expired (tk_now_cleanup tk) k) s1"
  from False assms(1) rot have s': "s' = s1 \<or> s' = ?c"
    by (auto simp: rotateAndCleanup_def snd_cleanup split: sum.splits if_splits)
  have "keys_good kc s1" by (rule keys_good_rotate [OF assms(2-4) rot])
  moreover from this have "keys_good kc ?c" by (auto simp: keys_good_def keys_inv_filter)
  moreover have "k \<in> set ?c" if "k \<in> set s1" "sk_IsActive k" for k
    using that by (simp add: expired_def)
  moreover have "sk_KID ` set ?c \<subseteq> sk_KID ` set s1" by auto
  ultimately show ?thesis using s' rotate_kids [OF rot assms(2)] rotate_active [OF rot assms(2)]
    by (metis (no_types, lifting) order_trans)
qed

lemma disjoint_grow: "A \<inter> K = {} \<Longrightarrow> u \<notin> A \<Longrightarrow> L \<subseteq> insert u K \<Longrightarrow> A \<inter> L = {}"
  by blast

lemma run_loop_good:
  assumes "run_loop memory_KeyStore kc cfg em ticks s = (s', evs, ds)" "codec_ok kc"
    and "keys_good kc s" "distinct (tick_uuids ticks)"
    and "set (tick_uuids ticks) \<inter> sk_KID ` set s = {}"
  shows "keys_good kc s' \<and> ((\<exists>k \<in> set s. sk_IsActive k) \<longrightarrow> (\<exists>k \<in> set s'. sk_IsActive k))"
  using assms
proof (induction memory_KeyStore kc cfg em ticks s arbitrary: evs ds rule: run_loop.induct)
  case (3 kc cfg em tk ticks s)
  obtain s1 e1 where one: "rotateAndCleanup memory_KeyStore kc cfg em tk s = (s1, e1)" by fastforce
  obtain e2 d2 where rest: "run_loop memory_KeyStore kc cfg em ticks s1 = (s', e2, d2)"
    using 3(2) one by (auto split: prod.splits)
  note good = rotateAndCleanup_good [OF one 3(3,4)]
  from 3(5,6) have uuid: "kg_uuid_NewString (tk_keygen tk) \<notin> sk_KID ` set s"
    "kg_uuid_NewString (tk_keygen tk) \<notin> set (tick_uuids ticks)" "distinct (tick_uuids ticks)"
    "set (tick_uuids ticks) \<inter> sk_KID ` set s = {}" by auto
  note good = good [OF uuid(1)]
  have "set (tick_uuids ticks) \<inter> sk_KID ` set s1 = {}"
    by (rule disjoint_grow [OF uuid(4,2) good [THEN conjunct2, THEN conjunct1]])
  from 3(1) [OF one [symmetric] rest 3(3) good [THEN conjunct1] uuid(3) this] good
  show ?case by simp
qed auto

lemma run_loop_delays:
  "run_loop ops kc cfg em ticks s = (s', evs, ds) \<Longrightarrow> set ds \<subseteq> {rc_Interval cfg}"
  by (induction ops kc cfg em ticks s arbitrary: s' evs ds rule: run_loop.induct)
     (auto split: prod.splits)


lemma first_delay_bounds:
  assumes "delayUntilFirstRotation ops cfg now s = Inr d"
    and "\<forall>k. ks_FindActiveSigningKey ops s = Inr k \<longrightarrow> sk_CreatedAt k \<le> now"
    and "0 \<le> rc_Interval cfg" "in_int64 (rc_Interval cfg)"
  shows "0 \<le> d \<and> d \<le> rc_Interval cfg"
proof (cases "ks_FindActiveSigningKey ops s")
  case (Inl e)
  with assms show ?thesis by (auto simp: delayUntilFirstRotation_def split: if_splits)
next
  case (Inr k)
  let ?age = "time_Sub now (sk_CreatedAt k)"
  from Inr assms(2) have "0 \<le> ?age" by (simp add: time_Sub_def)
  moreover from this have "in_int64 (rc_Interval cfg - ?age)" if "?age < rc_Interval cfg"
    using that assms(4) by (simp add: in_int64_def)
  ultimately show ?thesis using Inr assms(1,3)
    by (auto simp: delayUntilFirstRotation_def Let_def split: if_splits)
qed

section \<open>Concrete instances\<close>

text \<open>
  A codec on strings: a key is its own public half, DER is the identity and a PEM block is its
  type's length in unary followed by type and body.
\<close>

definition ex_codec :: "(string, string) key_codec" where
  "ex_codec =
     \<lparr>kc_PublicKey = id, kc_MarshalPKIXPublicKey = Inr, kc_MarshalPKCS1PrivateKey = id,
      kc_ParsePKCS1PrivateKey = Inr, kc_ParsePKIXPublicKey = Inr,
      kc_pem_EncodeToMemory =
        (\<lambda>ty b. replicate (length ty) (CHR ''1'') @ CHR ''0'' # ty @ b),
      kc_pem_Decode =
        (\<lambda>s. let n = length (takeWhile (\<lambda>c. c = CHR ''1'') s)
             in Some (take n (drop (Suc n) s), drop (Suc (n + n)) s))\<rparr>"

lemma takeWhile_unary [simp]: "takeWhile (\<lambda>c. c = x) (replicate n x @ y # ys) = replicate n x" if "y \<noteq> x"
  using that by (induction n) auto

lemma ex_codec_ok: "codec_ok ex_codec"
  by (simp add: codec_ok_def ex_codec_def Let_def)

definition ex_key :: "string \<Rightarrow> SigningKey" where
  "ex_key kid =
     \<lparr>sk_KID = kid, sk_Algorithm = ''RS256'',
      sk_PrivateKeyPEM = kc_pem_EncodeToMemory ex_codec ''RSA PRIVATE KEY'' kid,
      sk_PublicKeyPEM = kc_pem_EncodeToMemory ex_codec ''PUBLIC KEY'' kid,
      sk_IsActive = True, sk_CreatedAt = 0, sk_RetiredAt = None\<rparr>"

definition ex_gen :: "string \<Rightarrow> string keygen" where
  "ex_gen kid = \<lparr>kg_rsa_GenerateKey = Inr kid, kg_uuid_NewString = kid\<rparr>"

lemma ex_key_good: "keys_good ex_codec [ex_key kid]"
  using ex_codec_ok
  by (auto simp: keys_good_def keys_inv_def generated_def codec_ok_def parsePrivateKeyPEM_def
      parsePublicKeyPEM_def ex_key_def) (auto simp: ex_codec_def)

lemma ex_generate: "generateSigningKey ex_codec (ex_gen kid) 0 = Inr (ex_key kid)"
  by (simp add: generateSigningKey_def ex_key_def ex_gen_def ex_codec_def SigningAlgorithm_def)

lemma ex_rotate:
  "rotateSigningKeyAt memory_KeyStore ex_codec (ex_gen b) grace 0 now s =
     (Inr (ex_key b), map (retire (now + grace)) s @ [ex_key b])"
  by (simp add: rotateSigningKeyAt_def ex_generate memory_KeyStore_def RotateSigningKey_mem_def
      time_Add_def)

section \<open>Properties\<close>

text \<open>
  C9 (verification window). After a rotation at time \<open>now2\<close>, the key that was active before it
  stays published in the JWKS at every time before \<open>now2 + grace\<close>, whatever ensure, rotate and
  cleanup calls the server makes in between.
\<close>

theorem rotated_key_stays_published:
  assumes "codec_ok kc" "keys_good kc s" "k \<in> set s" "sk_IsActive k"
    and "kg_uuid_NewString g \<notin> sk_KID ` set s"
    and rot: "rotateSigningKeyAt memory_KeyStore kc g grace now1 now2 s = (Inr new, s1)"
    and steps: "(key_step kc grace)\<^sup>*\<^sup>* (now2, s1) (t, s2)"
    and "t \<le> now" "now < now2 + grace"
  shows "\<exists>js j. JWKS memory_KeyStore kc now s2 = Inr js \<and> j \<in> set js \<and> jwk_KeyID j = sk_KID k \<and>
                parsePublicKeyPEM kc (sk_PublicKeyPEM k) = Inr (jwk_Key j)"
proof -
  let ?k = "retire (now2 + grace) k"
  have good1: "keys_good kc s1" by (rule keys_good_rotate [OF assms(1,2,5) rot])
  have gen: "generateSigningKey kc g now1 = Inr new" using rot by (rule rotate_Inr_key)
  have "?k \<in> set s1"
    using km.rotate_keys [OF _ assms(1,5) gen, of grace now2] assms(2,3) rot
    by (auto simp: keys_good_def)
  moreover have ret: "sk_RetiredAt ?k = Some (now2 + grace)" using assms(4) by (simp add: retire_def)
  ultimately have mem: "?k \<in> set s2"
    using key_steps_keep_retired [OF steps, of ?k "now2 + grace"] assms(8,9) by simp
  have good2: "keys_good kc s2" using key_steps_good [OF steps assms(1)] good1 by simp
  have "verifying now ?k" using ret assms(9) by (simp add: verifying_def time_defs)
  moreover from assms(2,3) obtain p where p: "parsePublicKeyPEM kc (sk_PublicKeyPEM k) = Inr p"
    by (auto simp: keys_good_def generated_def)
  moreover have "sk_PublicKeyPEM ?k = sk_PublicKeyPEM k" by (simp add: retire_def)
  ultimately show ?thesis
    using km.jwks_published [OF _ mem, of now kc p] good2 by (force simp: keys_good_def)
qed

theorem rotated_key_stays_published_witness:
  "\<exists>js j. JWKS memory_KeyStore ex_codec 7 [retire 8 (ex_key ''a''), ex_key ''b''] = Inr js \<and> j \<in> set js \<and>
          jwk_KeyID j = ''a'' \<and> parsePublicKeyPEM ex_codec (sk_PublicKeyPEM (ex_key ''a'')) = Inr (jwk_Key j)"
proof -
  have steps: "(key_step ex_codec 5)\<^sup>*\<^sup>* (3, [retire 8 (ex_key ''a''), ex_key ''b''])
          (6, [retire 8 (ex_key ''a''), ex_key ''b''])"
    by (rule r_into_rtranclp, rule step_cleanup [of 6])
       (simp_all add: cleanup_eq expired_def retire_def ex_key_def time_defs)
  have rot: "rotateSigningKeyAt memory_KeyStore ex_codec (ex_gen ''b'') 5 0 3 [ex_key ''a''] =
      (Inr (ex_key ''b''), [retire 8 (ex_key ''a''), ex_key ''b''])" by (simp add: ex_rotate)
  have active: "ex_key ''a'' \<in> set [ex_key ''a'']" "sk_IsActive (ex_key ''a'')"
    "kg_uuid_NewString (ex_gen ''b'') \<notin> sk_KID ` set [ex_key ''a'']"
    by (simp_all add: ex_gen_def ex_key_def)
  have "sk_KID (ex_key ''a'') = ''a''" by (simp add: ex_key_def)
  with rotated_key_stays_published [OF ex_codec_ok ex_key_good active rot steps, of 7]
  show ?thesis by simp
qed

text \<open>
  C19 (the rotator keeps the server able to sign). Started on a store with an active key, the
  rotation loop ends with a store that has exactly one active key, whatever rotations fail or are
  cancelled on the way; the private key handed out for signing is the one whose public half the
  JWKS publishes under the same key ID.
\<close>

theorem rotator_keeps_signer:
  assumes "codec_ok kc" "keys_good kc s" "\<exists>k \<in> set s. sk_IsActive k"
    and "distinct (tick_uuids ticks)" "set (tick_uuids ticks) \<inter> sk_KID ` set s = {}"
    and run: "rotator_Run memory_KeyStore kc cfg em start ticks s = (s', evs, ds)"
  shows "length (filter sk_IsActive s') = 1 \<and>
         (\<exists>k kid js j. GetActivePrivateKey memory_KeyStore kc s' = Inr (k, kid) \<and>
            JWKS memory_KeyStore kc now s' = Inr js \<and> j \<in> set js \<and> jwk_KeyID j = kid \<and>
            jwk_Key j = kc_PublicKey kc k \<and> jwk_Use j = ''sig'')"
proof -
  from run obtain ds' where "run_loop memory_KeyStore kc cfg em ticks s = (s', evs, ds')"
    by (auto simp: rotator_Run_def Let_def split: prod.splits)
  from run_loop_good [OF this assms(1,2,4,5)] assms(3)
  have good: "keys_good kc s'" and act: "\<exists>k \<in> set s'. sk_IsActive k" by blast+
  from act obtain key where key: "key \<in> set s'" "sk_IsActive key" by blast
  then have "filter sk_IsActive s' \<noteq> []" by (auto simp: filter_empty_conv)
  with good have one: "length (filter sk_IsActive s') = 1"
    by (cases "filter sk_IsActive s'") (auto simp: keys_good_def keys_inv_def)
  from key good obtain k where k: "GetActivePrivateKey memory_KeyStore kc s' = Inr (k, sk_KID key)"
    using km.active_key_signs by (metis keys_good_def)
  with km.signer_published [of s' kc k "sk_KID key" now] good one show ?thesis
    by (auto simp: keys_good_def)
qed

theorem rotator_keeps_signer_witness:
  "length (filter sk_IsActive
     (fst (rotator_Run memory_KeyStore ex_codec \<lparr>rc_Interval = time_Hour, rc_Grace = time_Hour\<rparr> None 0
        [Some \<lparr>tk_ctx_Err = False, tk_keygen = ex_gen ''b'', tk_now_created = 0, tk_now_grace = 3,
               tk_now_audit = 4, tk_now_cleanup = 5\<rparr>, None] [ex_key ''a'']))) = 1"
  (is "length (filter _ (fst (rotator_Run _ _ ?cfg _ _ ?ticks _))) = 1")
proof -
  have f: "kg_uuid_NewString (ex_gen ''b'') = ''b''" "sk_KID (ex_key ''a'') = ''a''"
    "sk_IsActive (ex_key ''a'')"
    by (simp_all add: ex_gen_def ex_key_def)
  have h: "\<exists>k \<in> set [ex_key ''a'']. sk_IsActive k" "distinct (tick_uuids ?ticks)"
    "set (tick_uuids ?ticks) \<inter> sk_KID ` set [ex_key ''a''] = {}"
    by (simp_all add: f)
  obtain s' evs ds where run:
    "rotator_Run memory_KeyStore ex_codec ?cfg None 0 ?ticks [ex_key ''a''] = (s', evs, ds)"
    by (metis surj_pair)
  from rotator_keeps_signer [OF ex_codec_ok ex_key_good h run] run show ?thesis by simp
qed

text \<open>
  C39 (the timer). After the configuration defaults are applied every rotation interval is at least
  an hour and every grace period too; the delays the loop arms its timer with are between zero and
  the interval, all of them after the first equal to it, provided the active key was not created in
  the future.
\<close>

theorem rotator_timer_bounds:
  assumes "cfg = rotation_applyDefaults c" "in_int64 (rc_Interval c)"
    and "\<forall>k. ks_FindActiveSigningKey ops s = Inr k \<longrightarrow> sk_CreatedAt k \<le> now"
    and run: "rotator_Run ops kc cfg em now ticks s = (s', evs, ds)"
  shows "minRotationInterval \<le> rc_Interval cfg \<and> minRotationGrace \<le> rc_Grace cfg \<and>
         (\<forall>d \<in> set ds. 0 \<le> d \<and> d \<le> rc_Interval cfg) \<and> set (tl ds) \<subseteq> {rc_Interval cfg}"
proof -
  have iv: "minRotationInterval \<le> rc_Interval cfg" "minRotationGrace \<le> rc_Grace cfg"
    using assms(1) by (auto simp: rotation_applyDefaults_def Let_def)
  then have pos: "0 \<le> rc_Interval cfg" by (simp add: minRotationInterval_def time_Hour_def
        time_Minute_def time_Second_def)
  have "in_int64 (rc_Interval cfg)" using assms(1,2)
    by (auto simp: rotation_applyDefaults_def Let_def in_int64_def DefaultRotationInterval_def
        minRotationInterval_def time_Hour_def time_Minute_def time_Second_def)
  with first_delay_bounds [OF _ assms(3) pos] have first:
    "\<And>d. delayUntilFirstRotation ops cfg now s = Inr d \<Longrightarrow> 0 \<le> d \<and> d \<le> rc_Interval cfg" by blast
  from run obtain ds' where "run_loop ops kc cfg em ticks s = (s', evs, ds')"
    and ds: "ds = (case delayUntilFirstRotation ops cfg now s of Inl _ \<Rightarrow> rc_Interval cfg | Inr d \<Rightarrow> d) # ds'"
    by (auto simp: rotator_Run_def Let_def split: prod.splits)
  from run_loop_delays [OF this(1)] ds iv pos first show ?thesis by (auto split: sum.splits)
qed

theorem rotator_timer_bounds_witness:
  "snd (snd (rotator_Run memory_KeyStore ex_codec (rotation_applyDefaults \<lparr>rc_Interval = 1, rc_Grace = 0\<rparr>)
      None (2 * time_Hour) [Some \<lparr>tk_ctx_Err = True, tk_keygen = ex_gen ''b'', tk_now_created = 0,
        tk_now_grace = 3, tk_now_audit = 4, tk_now_cleanup = 5\<rparr>, None] [ex_key ''a'']))
   = [0, time_Hour] \<and>
   rc_Grace (rotation_applyDefaults \<lparr>rc_Interval = 1, rc_Grace = 0\<rparr>) \<ge> minRotationGrace"
proof -
  have find: "ks_FindActiveSigningKey memory_KeyStore [ex_key ''a''] = Inr (ex_key ''a'')"
    by (simp add: memory_KeyStore_def ex_key_def)
  have iv: "rc_Interval (rotation_applyDefaults \<lparr>rc_Interval = 1, rc_Grace = 0\<rparr>) = time_Hour"
    by (simp add: rotation_applyDefaults_def minRotationInterval_def time_Hour_def time_Minute_def
        time_Second_def)
  show ?thesis
    using rotator_timer_bounds [of _ "\<lparr>rc_Interval = 1, rc_Grace = 0\<rparr>" memory_KeyStore "[ex_key ''a'']"
        "2 * time_Hour" ex_codec None
        "[Some \<lparr>tk_ctx_Err = True, tk_keygen = ex_gen ''b'', tk_now_created = 0,
        tk_now_grace = 3, tk_now_audit = 4, tk_now_cleanup = 5\<rparr>, None]", OF refl]
    by (simp add: find rotator_Run_def rotateAndCleanup_def delayUntilFirstRotation_def iv Let_def)
       (simp add: ex_key_def time_Sub_def in_int64_def time_Hour_def time_Minute_def time_Second_def)
qed

text \<open>
  Ensuring a signing key always leaves one active key in the store: it returns the
  active key and changes nothing when there is one, and otherwise stores the freshly generated key.
\<close>

lemma ensure_signing_key:
  assumes "codec_ok kc" "keys_good kc s" "kg_uuid_NewString g \<notin> sk_KID ` set s"
  shows "EnsureSigningKey memory_KeyStore kc g now s =
           (case filter sk_IsActive s of
              k # _ \<Rightarrow> (Inr k, s)
            | [] \<Rightarrow> (case generateSigningKey kc g now of
                      Inl e \<Rightarrow> (Inl e, s) | Inr key \<Rightarrow> (Inr key, s @ [key])))
         \<and> keys_good kc (snd (EnsureSigningKey memory_KeyStore kc g now s))"
proof
  have find: "FindActiveSigningKey s = (case filter sk_IsActive s of
      k # _ \<Rightarrow> Inr k | [] \<Rightarrow> Inl (Sentinel keys_ErrNotFound))"
    by (induction s) auto
  show "EnsureSigningKey memory_KeyStore kc g now s =
           (case filter sk_IsActive s of
              k # _ \<Rightarrow> (Inr k, s)
            | [] \<Rightarrow> (case generateSigningKey kc g now of
                      Inl e \<Rightarrow> (Inl e, s) | Inr key \<Rightarrow> (Inr key, s @ [key])))"
    by (auto simp: EnsureSigningKey_def memory_KeyStore_def EnsureSigningKey_mem_def find
        split: list.splits sum.splits)
  show "keys_good kc (snd (EnsureSigningKey memory_KeyStore kc g now s))"
    by (rule keys_good_ensure [OF assms, of now "fst (EnsureSigningKey memory_KeyStore kc g now s)"]) simp
qed

lemma ensure_signing_key_witness:
  "EnsureSigningKey memory_KeyStore ex_codec (ex_gen ''b'') 0 [] = (Inr (ex_key ''b''), [ex_key ''b''])"
  using ensure_signing_key [OF ex_codec_ok, of "[]" "ex_gen ''b''" 0] ex_generate
  by (simp add: keys_good_def keys_inv_def)

end
