(* ===== verification/Discovery.thy ===== *)
theory Discovery
  imports Registration SigningKeys
begin

text \<open>
  Discovery documents: protected resource and authorization server metadata (\<^verbatim>\<open>oauth/metadata.go\<close>), the
  well-known path of a resource (\<^verbatim>\<open>oauth/metadata_url.go\<close>, \<^verbatim>\<open>oidc/metadata_url.go\<close>), the OIDC discovery
  configuration with its routes (\<^verbatim>\<open>oidc/discovery.go\<close>) and the JWKS endpoint (\<^verbatim>\<open>oidc/jwks.go\<close>). A route
  table is a map from patterns to handlers; registering a pattern twice panics. The JSON form of a key
  set is a parameter, it is produced by the JOSE library.
\<close>

section \<open>The well-known path of a resource\<close>

definition protectedResourceMetadataBasePath :: string where
  "protectedResourceMetadataBasePath = ''/.well-known/oauth-protected-resource''"

definition ProtectedResourceMetadataPathFor :: "string \<Rightarrow> string result" where
  "ProtectedResourceMetadataPathFor resourceURL =
     (case url_Parse (go_TrimSpace resourceURL) of
        Inl err \<Rightarrow> Inl (Wrap ''parse protected resource URL'' err)
      | Inr parsed \<Rightarrow>
          if u_Scheme parsed = [] \<or> u_Host parsed = [] then Inl (Plain ''protected resource URL must be absolute'')
          else if u_RawQuery parsed \<noteq> [] \<or> u_Fragment parsed \<noteq> []
          then Inl (Plain ''protected resource URL must not include query or fragment'')
          else
            (let resourcePath = go_TrimRight (url_EscapedPath parsed) (CHR ''/'')
             in if resourcePath = [] then Inr protectedResourceMetadataBasePath
                else Inr (protectedResourceMetadataBasePath @ resourcePath)))"

definition ProtectedResourceMetadataURLFor :: "string \<Rightarrow> string result" where
  "ProtectedResourceMetadataURLFor resourceURL =
     (case url_Parse (go_TrimSpace resourceURL) of
        Inl err \<Rightarrow> Inl (Wrap ''parse protected resource URL'' err)
      | Inr parsed \<Rightarrow>
          (case ProtectedResourceMetadataPathFor resourceURL of
             Inl err \<Rightarrow> Inl err
           | Inr metadataPath \<Rightarrow> Inr (u_Scheme parsed @ ''://'' @ u_Host parsed @ metadataPath)))"

section \<open>Metadata handlers of the OAuth package\<close>

record ProtectedResourceMetadataConfig =
  pm_Resource :: string
  pm_ResourceName :: string
  pm_AuthorizationServers :: "string list"
  pm_ScopesSupported :: "string list"

record AuthorizationServerMetadataConfig =
  am_Issuer :: string
  am_AuthorizationEndpoint :: string
  am_TokenEndpoint :: string
  am_RegistrationEndpoint :: string
  am_Resource :: string
  am_ResourceMetadataURL :: string
  am_ScopesSupported :: "string list"
  am_ClientIDMetadataDocumentSupported :: bool

definition jstrings :: "string list \<Rightarrow> json" where "jstrings xs = JArr (map JStr xs)"

definition protectedResourceMetadata :: "string \<Rightarrow> string \<Rightarrow> string list \<Rightarrow> string list \<Rightarrow> json" where
  "protectedResourceMetadata resource name servers scopes =
     JObj ([(''resource'', JStr resource)] @ omit_empty ''resource_name'' name (JStr name) @
           [(''authorization_servers'', jstrings servers), (''bearer_methods_supported'', jstrings [''header''])] @
           omit_empty ''scopes_supported'' scopes (jstrings scopes))"

definition authorizationServerMetadata :: "AuthorizationServerMetadataConfig \<Rightarrow> json" where
  "authorizationServerMetadata cfg =
     JObj ([(''issuer'', JStr (am_Issuer cfg)), (''authorization_endpoint'', JStr (am_AuthorizationEndpoint cfg)),
            (''token_endpoint'', JStr (am_TokenEndpoint cfg))] @
           omit_empty ''registration_endpoint'' (am_RegistrationEndpoint cfg) (JStr (am_RegistrationEndpoint cfg)) @
           omit_empty ''resource'' (am_Resource cfg) (JStr (am_Resource cfg)) @
           omit_empty ''resource_metadata'' (am_ResourceMetadataURL cfg) (JStr (am_ResourceMetadataURL cfg)) @
           (if am_ClientIDMetadataDocumentSupported cfg then [(''client_id_metadata_document_supported'', JBool True)] else []) @
           [(''grant_types_supported'', jstrings [''authorization_code'', ''refresh_token'']),
            (''response_types_supported'', jstrings [''code'']), (''response_modes_supported'', jstrings [''query'']),
            (''code_challenge_methods_supported'', jstrings [''S256'']),
            (''token_endpoint_auth_methods_supported'',
              jstrings [authMethodNone, authMethodClientSecretBasic, authMethodClientSecretPost])] @
           omit_empty ''scopes_supported'' (am_ScopesSupported cfg) (jstrings (am_ScopesSupported cfg)))"

definition writeMetadataJSON :: "json \<Rightarrow> writer \<Rightarrow> writer" where
  "writeMetadataJSON payload w =
     w_Write (JsonDoc payload)
       (w_header (header_Set ''Pragma'' ''no-cache'' \<circ> header_Set ''Cache-Control'' ''no-store'' \<circ>
                  header_Set ''Content-Type'' ''application/json'') w)"

definition writeMetadataError :: "int \<Rightarrow> string \<Rightarrow> writer \<Rightarrow> writer" where
  "writeMetadataError status message w =
     w_Write (Bytes message)
       (w_WriteHeader status (w_header (header_Set ''Content-Type'' ''text/plain; charset=utf-8'') w))"

definition ProtectedResourceMetadataHandler :: "ProtectedResourceMetadataConfig \<Rightarrow> handler" where
  "ProtectedResourceMetadataHandler cfg r w =
     (if r_Method r \<noteq> ''GET'' then writeMetadataError 405 ''method not allowed'' w
      else writeMetadataJSON
             (protectedResourceMetadata (pm_Resource cfg) (pm_ResourceName cfg) (pm_AuthorizationServers cfg) (pm_ScopesSupported cfg)) w)"

definition AuthorizationServerMetadataHandler :: "AuthorizationServerMetadataConfig \<Rightarrow> handler" where
  "AuthorizationServerMetadataHandler cfg r w =
     (if r_Method r \<noteq> ''GET'' then writeMetadataError 405 ''method not allowed'' w
      else writeMetadataJSON (authorizationServerMetadata cfg) w)"

section \<open>The discovery configuration\<close>

definition signingAlgorithm :: string where "signingAlgorithm = ''RS256''"

record DiscoveryConfig =
  dc_Issuer :: string
  dc_ResourceName :: string
  dc_ResourceURL :: string
  dc_ResourceMetadataURL :: string
  dc_AuthorizationEndpoint :: string
  dc_TokenEndpoint :: string
  dc_JWKSEndpoint :: string
  dc_RevocationEndpoint :: string
  dc_RegistrationEndpoint :: string
  dc_ScopesSupported :: "string list"
  dc_ClientIDMetadataDocumentSupported :: bool

record RouteConfig =
  rc_ResourceURL :: string
  rc_ResourceName :: string
  rc_JWKS :: "handler option"

definition NewDiscoveryConfig :: "string \<Rightarrow> string list \<Rightarrow> DiscoveryConfig" where
  "NewDiscoveryConfig issuerURL scopes =
     (let issuer = go_TrimRight issuerURL (CHR ''/'')
      in \<lparr>dc_Issuer = issuer, dc_ResourceName = [], dc_ResourceURL = [], dc_ResourceMetadataURL = [],
          dc_AuthorizationEndpoint = issuer @ ''/oauth/authorize'', dc_TokenEndpoint = issuer @ ''/oauth/token'',
          dc_JWKSEndpoint = issuer @ ''/.well-known/jwks.json'', dc_RevocationEndpoint = issuer @ ''/oauth/revoke'',
          dc_RegistrationEndpoint = issuer @ ''/oauth/register'', dc_ScopesSupported = scopes,
          dc_ClientIDMetadataDocumentSupported = True\<rparr>)"

definition OpenIDConfiguration :: "DiscoveryConfig \<Rightarrow> json gomap" where
  "OpenIDConfiguration d =
     (let doc = [(''issuer'', JStr (dc_Issuer d)), (''authorization_endpoint'', JStr (dc_AuthorizationEndpoint d)),
                 (''token_endpoint'', JStr (dc_TokenEndpoint d)), (''jwks_uri'', JStr (dc_JWKSEndpoint d)),
                 (''revocation_endpoint'', JStr (dc_RevocationEndpoint d)),
                 (''registration_endpoint'', JStr (dc_RegistrationEndpoint d)),
                 (''response_types_supported'', jstrings [''code'']), (''response_modes_supported'', jstrings [''query'']),
                 (''grant_types_supported'', jstrings [''authorization_code'', ''refresh_token'']),
                 (''subject_types_supported'', jstrings [''public'']),
                 (''id_token_signing_alg_values_supported'', jstrings [signingAlgorithm]),
                 (''scopes_supported'', jstrings (dc_ScopesSupported d)),
                 (''token_endpoint_auth_methods_supported'', jstrings [''none'', ''client_secret_basic'', ''client_secret_post'']),
                 (''code_challenge_methods_supported'', jstrings [''S256''])];
          doc1 = (if dc_ResourceURL d \<noteq> [] then gm_put ''resource'' (JStr (dc_ResourceURL d)) doc else doc);
          doc2 = (if dc_ResourceMetadataURL d \<noteq> [] then gm_put ''resource_metadata'' (JStr (dc_ResourceMetadataURL d)) doc1 else doc1)
      in if dc_ClientIDMetadataDocumentSupported d then gm_put ''client_id_metadata_document_supported'' (JBool True) doc2 else doc2)"

definition AuthorizationServerMetadata :: "DiscoveryConfig \<Rightarrow> json gomap" where
  "AuthorizationServerMetadata d = OpenIDConfiguration d"

definition discovery_ProtectedResourceMetadata :: "DiscoveryConfig \<Rightarrow> string \<Rightarrow> json" where
  "discovery_ProtectedResourceMetadata d resourceURL =
     protectedResourceMetadata (go_TrimRight resourceURL (CHR ''/'')) (dc_ResourceName d) [dc_Issuer d] (dc_ScopesSupported d)"

text \<open>The JSON form of a Go map has its keys sorted.\<close>

definition json_of_map :: "json gomap \<Rightarrow> json" where
  "json_of_map m = JObj (map (\<lambda>k. (k, case gm_get m k of Some v \<Rightarrow> v | None \<Rightarrow> JNull)) (sort_strings (map fst m)))"

definition jsonHandler :: "json \<Rightarrow> handler" where
  "jsonHandler doc r w =
     (if r_Method r \<noteq> ''GET''
      then http_Error ''method not allowed'' 405 (w_header (header_Set ''Allow'' ''GET'') w)
      else w_Write (JsonDoc doc) (w_header (header_Set ''Content-Type'' ''application/json'') w))"

definition OpenIDConfigurationHandler :: "DiscoveryConfig \<Rightarrow> handler" where
  "OpenIDConfigurationHandler d = jsonHandler (json_of_map (OpenIDConfiguration d))"

definition AuthorizationServerHandler :: "DiscoveryConfig \<Rightarrow> handler" where
  "AuthorizationServerHandler d = jsonHandler (json_of_map (AuthorizationServerMetadata d))"

definition ProtectedResourceHandler :: "DiscoveryConfig \<Rightarrow> string \<Rightarrow> handler" where
  "ProtectedResourceHandler d resourceURL = jsonHandler (discovery_ProtectedResourceMetadata d resourceURL)"

type_synonym mux = "handler gomap"

definition mux_Handle :: "string \<Rightarrow> 'h \<Rightarrow> 'h gomap option \<Rightarrow> 'h gomap option" where
  "mux_Handle pattern h m =
     (case m of None \<Rightarrow> None | Some routes \<Rightarrow> if gm_get routes pattern \<noteq> None then None else Some (gm_put pattern h routes))"

definition route_resource :: "DiscoveryConfig \<Rightarrow> RouteConfig \<Rightarrow> string" where
  "route_resource d cfg =
     go_TrimRight (if rc_ResourceURL cfg = [] then dc_Issuer d @ ''/mcp'' else rc_ResourceURL cfg) (CHR ''/'')"

definition route_config :: "DiscoveryConfig \<Rightarrow> RouteConfig \<Rightarrow> DiscoveryConfig" where
  "route_config d cfg =
     (let resourceURL = route_resource d cfg;
          d1 = d\<lparr>dc_ResourceURL := resourceURL\<rparr>;
          d2 = (case ProtectedResourceMetadataURLFor resourceURL of
                  Inr metadataURL \<Rightarrow> d1\<lparr>dc_ResourceMetadataURL := metadataURL\<rparr> | Inl _ \<Rightarrow> d1)
      in if rc_ResourceName cfg \<noteq> [] then d2\<lparr>dc_ResourceName := rc_ResourceName cfg\<rparr> else d2)"

definition RegisterRoutes :: "DiscoveryConfig \<Rightarrow> RouteConfig \<Rightarrow> mux \<Rightarrow> mux option" where
  "RegisterRoutes d cfg m =
     (let resourceURL = route_resource d cfg; d' = route_config d cfg;
          protectedResourceHandler = ProtectedResourceHandler d' resourceURL;
          m1 = mux_Handle ''/.well-known/openid-configuration'' (OpenIDConfigurationHandler d') (Some m);
          m2 = mux_Handle ''/.well-known/oauth-authorization-server'' (AuthorizationServerHandler d') m1;
          m3 = mux_Handle ''/.well-known/oauth-protected-resource'' protectedResourceHandler m2;
          m4 = (case ProtectedResourceMetadataPathFor resourceURL of
                  Inr metadataPath \<Rightarrow>
                    if metadataPath \<noteq> ''/.well-known/oauth-protected-resource''
                    then mux_Handle metadataPath protectedResourceHandler m3 else m3
                | Inl _ \<Rightarrow> m3)
      in (case rc_JWKS cfg of Some h \<Rightarrow> mux_Handle ''/.well-known/jwks.json'' h m4 | None \<Rightarrow> m4))"

section \<open>The key set\<close>

definition JWKSHandler :: "('p JSONWebKey list \<Rightarrow> json) \<Rightarrow> 'p JSONWebKey list result \<Rightarrow> handler" where
  "JWKSHandler encode jwks r w =
     (if r_Method r \<noteq> ''GET''
      then http_Error ''method not allowed'' 405 (w_header (header_Set ''Allow'' ''GET'') w)
      else (case jwks of
              Inl _ \<Rightarrow> http_Error ''internal error'' 500 w
            | Inr ks \<Rightarrow> w_Write (JsonDoc (encode ks)) (w_header (header_Set ''Content-Type'' ''application/json'') w)))"

section \<open>Routes\<close>

lemma mux_Handle_Some [simp]: "gm_get m k = None \<Longrightarrow> mux_Handle k h (Some m) = Some (gm_put k h m)"
  by (simp add: mux_Handle_def)

lemma metadata_path_cases:
  assumes "ProtectedResourceMetadataPathFor u = Inr path"
  obtains "path = ''/.well-known/oauth-protected-resource''" | p where "p \<noteq> []" "path = ''/.well-known/oauth-protected-resource'' @ p"
  using assms by (auto simp: ProtectedResourceMetadataPathFor_def protectedResourceMetadataBasePath_def Let_def split: sum.splits if_splits)

lemma served_by_jsonHandler:
  assumes "r_Method r = ''GET''" "unsent w"
  shows "w_status (jsonHandler doc r w) = 200" "w_body (jsonHandler doc r w) = [JsonDoc doc]"
    "header_Get (w_sent (jsonHandler doc r w)) ''Content-Type'' = ''application/json''"
  using assms by (auto simp: jsonHandler_def w_Write_def w_WriteHeader_def unsent_def informational_def header_Get_Set)

lemma gm_get_OpenIDConfiguration:
  "gm_get (OpenIDConfiguration d) ''resource_metadata'' =
     (if dc_ResourceMetadataURL d \<noteq> [] then Some (JStr (dc_ResourceMetadataURL d)) else None)"
  "gm_get (OpenIDConfiguration d) ''issuer'' = Some (JStr (dc_Issuer d))"
  "gm_get (OpenIDConfiguration d) ''authorization_endpoint'' = Some (JStr (dc_AuthorizationEndpoint d))"
  "gm_get (OpenIDConfiguration d) ''token_endpoint'' = Some (JStr (dc_TokenEndpoint d))"
  "gm_get (OpenIDConfiguration d) ''revocation_endpoint'' = Some (JStr (dc_RevocationEndpoint d))"
  "gm_get (OpenIDConfiguration d) ''registration_endpoint'' = Some (JStr (dc_RegistrationEndpoint d))"
  by (simp_all add: OpenIDConfiguration_def Let_def gm_get_Cons)

text \<open>The table that the discovery routes fill: they never panic on an empty one and stay below \<^verbatim>\<open>/.well-known/\<close>.\<close>

lemma RegisterRoutes_table:
  assumes "ProtectedResourceMetadataPathFor (route_resource d cfg) = Inr path"
  obtains m where "RegisterRoutes d cfg [] = Some m"
    "gm_get m path = Some (ProtectedResourceHandler (route_config d cfg) (route_resource d cfg))"
    "gm_get m ''/.well-known/oauth-authorization-server'' = Some (AuthorizationServerHandler (route_config d cfg))"
    "\<And>h. rc_JWKS cfg = Some h \<Longrightarrow> gm_get m ''/.well-known/jwks.json'' = Some h"
    "\<And>k. \<not> go_HasPrefix k ''/.well-known/'' \<Longrightarrow> gm_get m k = None"
proof -
  let ?h = "ProtectedResourceHandler (route_config d cfg) (route_resource d cfg)"
  let ?m = "gm_put ''/.well-known/oauth-protected-resource'' ?h
      (gm_put ''/.well-known/oauth-authorization-server'' (AuthorizationServerHandler (route_config d cfg))
        (gm_put ''/.well-known/openid-configuration'' (OpenIDConfigurationHandler (route_config d cfg)) []))"
  let ?m' = "if path \<noteq> ''/.well-known/oauth-protected-resource'' then gm_put path ?h ?m else ?m"
  let ?m'' = "case rc_JWKS cfg of Some j \<Rightarrow> gm_put ''/.well-known/jwks.json'' j ?m' | None \<Rightarrow> ?m'"
  have fresh: "gm_get ?m path = None" if "path \<noteq> ''/.well-known/oauth-protected-resource''"
    using that by (cases rule: metadata_path_cases [OF assms]) simp_all
  have jwks: "path \<noteq> ''/.well-known/jwks.json''" "path \<noteq> ''/.well-known/oauth-authorization-server''"
    by (cases rule: metadata_path_cases [OF assms]; simp)+
  have pre: "go_HasPrefix path ''/.well-known/''"
    by (cases rule: metadata_path_cases [OF assms]; simp add: go_HasPrefix_def)
  show thesis
  proof (rule that)
    show "RegisterRoutes d cfg [] = Some ?m''"
      using fresh jwks by (simp add: RegisterRoutes_def Let_def assms split: option.splits)
    show "gm_get ?m'' k = None" if "\<not> go_HasPrefix k ''/.well-known/''" for k
    proof -
      have "k \<noteq> path" using that pre by blast
      moreover have "k \<noteq> ''/.well-known/oauth-protected-resource''" "k \<noteq> ''/.well-known/oauth-authorization-server''"
        "k \<noteq> ''/.well-known/openid-configuration''" "k \<noteq> ''/.well-known/jwks.json''"
        using that by (auto simp: go_HasPrefix_def)
      ultimately show ?thesis by (cases "rc_JWKS cfg") simp_all
    qed
  qed (use jwks in \<open>auto split: option.splits\<close>)
qed


definition sample_discovery :: DiscoveryConfig where
  "sample_discovery = NewDiscoveryConfig ''https://as/'' [''read'']"

definition sample_routes :: RouteConfig where
  "sample_routes = \<lparr>rc_ResourceURL = [], rc_ResourceName = ''demo'', rc_JWKS = None\<rparr>"


section \<open>Paths below an issuer\<close>

lemma getScheme_aux_append:
  "getScheme_aux first acc s = Inr (Some (a, rest)) \<Longrightarrow> getScheme_aux first acc (s @ p) = Inr (Some (a, rest @ p))"
  by (induction first acc s rule: getScheme_aux.induct) (auto split: if_splits)

lemma url_unescape_append:
  "url_unescape mode a = Inr x \<Longrightarrow> url_unescape mode b = Inr y \<Longrightarrow> url_unescape mode (a @ b) = Inr (x @ y)"
proof (induction a arbitrary: x rule: length_induct)
  case (1 a)
  show ?case
  proof (cases a)
    case (Cons c s)
    show ?thesis
    proof (cases "c = CHR ''%''")
      case True
      with 1(2) Cons obtain u v t where s: "s = u # v # t" by (auto split: list.splits)
      with True 1(2) Cons obtain xs where xs: "url_unescape mode t = Inr xs" by (auto simp: Let_def split: if_splits sum.splits)
      have "length t < length a" using s Cons by simp
      with 1(1) xs 1(3) have "url_unescape mode (t @ b) = Inr (xs @ y)" by blast
      with True 1(2) Cons s xs show ?thesis by (auto simp: Let_def split: if_splits)
    next
      case False
      with 1(2) Cons obtain xs where xs: "url_unescape mode s = Inr xs" by (auto split: if_splits sum.splits)
      have "length s < length a" using Cons by simp
      with 1(1) xs 1(3) have "url_unescape mode (s @ b) = Inr (xs @ y)" by blast
      with False 1(2) Cons xs show ?thesis by (auto split: if_splits)
    qed
  qed (use 1 in simp)
qed

lemma url_unescape_plain: "CHR ''%'' \<notin> set p \<Longrightarrow> url_unescape encodePath p = Inr p"
  by (induction p) auto

lemma split_authority_append:
  "split_authority s = (a, path) \<Longrightarrow> split_authority (s @ CHR ''/'' # q) = (a, path @ CHR ''/'' # q)"
proof (cases "go_Cut s (CHR ''/'')")
  case None
  assume "split_authority s = (a, path)"
  with None have "a = s" "path = []" by (simp_all add: split_authority_def)
  moreover have "CHR ''/'' \<notin> set s" using None by (simp add: go_Cut_None)
  ultimately show ?thesis using go_Cut_append [of "CHR ''/''" s q] by (simp add: split_authority_def)
next
  case (Some ar)
  assume sa: "split_authority s = (a, path)"
  obtain r where ar: "ar = (a, r)" "path = CHR ''/'' # r" using sa Some by (cases ar) (auto simp: split_authority_def)
  from go_Cut_Some [of s "CHR ''/''" a r] Some ar have "s = a @ CHR ''/'' # r" "CHR ''/'' \<notin> set a" by simp_all
  then have "go_Cut (s @ CHR ''/'' # q) (CHR ''/'') = Some (a, r @ CHR ''/'' # q)"
    using go_Cut_append [of "CHR ''/''" a "r @ CHR ''/'' # q"] by simp
  then show ?thesis by (simp add: split_authority_def ar)
qed

lemma setPath_append:
  assumes "setPath path u = Inr u1" "CHR ''%'' \<notin> set p"
  obtains u2 where "setPath (path @ p) u = Inr u2" "u_Scheme u2 = u_Scheme u" "u_Host u2 = u_Host u" "u_Fragment u2 = u_Fragment u"
  using assms url_unescape_append [OF _ url_unescape_plain [OF assms(2)], of path]
  by (auto simp: setPath_def bind_res_def split: sum.splits)

text \<open>A plain path appended to an absolute URL without query and fragment keeps its scheme and host.\<close>

definition plain_path :: "string \<Rightarrow> bool" where
  "plain_path p = (p \<noteq> [] \<and> hd p = CHR ''/'' \<and> list_all (\<lambda>c. \<not> ctl_byte c \<and> c \<notin> set ''#?%'') p)"

lemma plain_pathD:
  assumes "plain_path p"
  shows "p \<noteq> []" "CHR ''#'' \<notin> set p" "CHR ''?'' \<notin> set p" "CHR ''%'' \<notin> set p" "\<not> list_ex ctl_byte p"
    "\<exists>q. p = CHR ''/'' # q"
proof -
  from assms have p: "p \<noteq> []" "hd p = CHR ''/''" and all: "\<forall>c \<in> set p. \<not> ctl_byte c \<and> c \<notin> set ''#?%''"
    unfolding plain_path_def list_all_iff by blast+
  show "p \<noteq> []" by (rule p)
  show "CHR ''#'' \<notin> set p" "CHR ''?'' \<notin> set p" "CHR ''%'' \<notin> set p" using all by force+
  show "\<not> list_ex ctl_byte p" using all unfolding list_ex_iff by blast
  show "\<exists>q. p = CHR ''/'' # q" using p by (cases p) simp_all
qed

lemma parse_rest_append:
  assumes "parse_rest v rest = Inr u" "u_Host u \<noteq> []" "u_Scheme v \<noteq> []" "u_Host v = []" "plain_path p"
  obtains u2 where "parse_rest v (rest @ p) = Inr u2" "u_Scheme u2 = u_Scheme v" "u_Host u2 = u_Host u" "u_Fragment u2 = u_Fragment v"
proof -
  obtain q where p: "p = CHR ''/'' # q" using plain_pathD(6) [OF assms(5)] by blast
  have pc: "CHR ''%'' \<notin> set p" by (rule plain_pathD [OF assms(5)])
  have "go_HasPrefix rest ''//''"
    using assms(1-4) by (auto simp: parse_rest_def setPath_def bind_res_def split: if_splits sum.splits)
  then obtain r where r: "rest = CHR ''/'' # CHR ''/'' # r" by (auto simp: go_HasPrefix_iff)
  obtain a path where sa: "split_authority r = (a, path)" by (cases "split_authority r")
  from assms(1,3) obtain user host where pa: "parseAuthority a = Inr (user, host)" "setPath path (v\<lparr>u_User := user, u_Host := host\<rparr>) = Inr u"
    by (auto simp: parse_rest_def r sa go_HasPrefix_iff bind_res_def split: sum.splits)
  then have host: "u_Host u = host" by (auto simp: setPath_def bind_res_def split: sum.splits)
  obtain u2 where u2: "setPath (path @ p) (v\<lparr>u_User := user, u_Host := host\<rparr>) = Inr u2" "u_Scheme u2 = u_Scheme v"
      "u_Host u2 = host" "u_Fragment u2 = u_Fragment v"
    using setPath_append [OF pa(2) pc] by auto
  have "parse_rest v (rest @ p) = Inr u2"
    using assms(3) split_authority_append [OF sa, of q] pa(1) u2(1) by (simp add: parse_rest_def r p go_HasPrefix_iff bind_res_def)
  with u2 host that show thesis by metis
qed

lemma parse_rest_scheme:
  assumes "parse_rest v rest = Inr u"
  shows "u_Scheme u = u_Scheme v"
proof -
  have sp: "setPath path v' = Inr u \<Longrightarrow> u_Scheme u = u_Scheme v'" for path v'
    by (auto simp: setPath_def bind_res_def split: sum.splits)
  show ?thesis
    using assms unfolding parse_rest_def bind_res_def
    by (cases "split_authority (drop 2 rest)") (auto dest!: sp split: if_splits sum.splits)
qed

lemma url_Parse_append:
  assumes "url_Parse i = Inr u" "CHR ''#'' \<notin> set i" "CHR ''?'' \<notin> set i" "u_Scheme u \<noteq> []" "u_Host u \<noteq> []" "plain_path p"
  obtains u2 where "url_Parse (i @ p) = Inr u2" "u_Scheme u2 = u_Scheme u" "u_Host u2 = u_Host u" "u_Fragment u2 = []"
proof -
  note pp = plain_pathD(2,3,5,1) [OF assms(6)]
  have nf: "parse_nofrag i = Inr u" using assms(1,2) by (auto simp: url_Parse_def go_Cut_None [THEN iffD2] split: sum.splits)
  have star: "i \<noteq> ''*''" using nf assms(4) by (auto simp: parse_nofrag_def empty_url_def split: if_splits)
  from nf star obtain sch rest where g: "getScheme i = Inr (sch, rest)" and ctl: "\<not> list_ex ctl_byte i"
    by (auto simp: parse_nofrag_def bind_res_def split: if_splits sum.splits)
  obtain force rest' query where sq: "split_query rest = (force, rest', query)" by (cases "split_query rest")
  define v where "v = empty_url\<lparr>u_Scheme := go_ToLower sch, u_ForceQuery := force, u_RawQuery := query\<rparr>"
  have pr: "parse_rest v rest' = Inr u" using nf star ctl by (simp add: parse_nofrag_def bind_res_def g sq v_def)
  have sch: "u_Scheme u = go_ToLower sch" using parse_rest_scheme [OF pr] by (simp add: v_def)
  have aux: "getScheme_aux True [] i = Inr (Some (sch, rest))"
    using g assms(4) sch by (auto simp: getScheme_def go_ToLower_def split: sum.splits option.splits)
  have rest: "set rest \<subseteq> set i"
  proof -
    have "getScheme_aux f acc s = Inr (Some (a, t)) \<Longrightarrow> set t \<subseteq> set s" for f acc s a t
      by (induction f acc s rule: getScheme_aux.induct) (auto split: if_splits)
    then show ?thesis using aux by blast
  qed
  then have "CHR ''?'' \<notin> set rest" using assms(3) by blast
  then have "go_Cut rest (CHR ''?'') = None" "go_Cut (rest @ p) (CHR ''?'') = None" using pp(2) by (simp_all add: go_Cut_None)
  then have q: "split_query rest = (False, rest, [])" "split_query (rest @ p) = (False, rest @ p, [])"
    by (simp_all add: split_query_def)
  have "u_Scheme v \<noteq> []" "u_Host v = []" "u_Fragment v = []" using assms(4) sch by (simp_all add: v_def empty_url_def)
  with pr q(1) sq assms(5,6) obtain u2 where u2: "parse_rest v (rest @ p) = Inr u2" "u_Scheme u2 = u_Scheme v"
      "u_Host u2 = u_Host u" "u_Fragment u2 = []"
    by (auto elim!: parse_rest_append [where rest = rest])
  have "i @ p \<noteq> ''*''" using plain_pathD(6) [OF assms(6)] by (cases i) auto
  then have "parse_nofrag (i @ p) = Inr u2"
    using ctl pp(3) u2(1) q sq getScheme_aux_append [OF aux, of p]
    by (simp add: parse_nofrag_def bind_res_def getScheme_def v_def)
  then have "url_Parse (i @ p) = Inr u2" using assms(2) pp(1) by (simp add: url_Parse_def go_Cut_None [THEN iffD2])
  with u2 sch that show thesis by (simp add: v_def)
qed

end
