(* ===== verification/McpServer.thy ===== *)
theory McpServer
  imports BearerAuth GoUrl
begin

text \<open>
  The server in front of the MCP SDK handler: the JSON-RPC envelope (\<^verbatim>\<open>mcpmw/envelope.go\<close>), the Origin
  allowlist (\<^verbatim>\<open>mcpmw/origin.go\<close>), their composition with the bearer middleware (\<^verbatim>\<open>mcpkit/server.go\<close>) and
  the cache hints (\<^verbatim>\<open>mcpkit/cache.go\<close>). The SDK handler is any function from a request and its body to
  the calls it makes on its response writer.
\<close>

section \<open>Response writers as an interface\<close>

text \<open>The calls a handler makes on the \<^verbatim>\<open>http.ResponseWriter\<close> it was given.\<close>

datatype rw_call =
    CallSet string string
  | CallAdd string string
  | CallDel string
  | CallWriteHeader int
  | CallWrite string
  | CallFlush

text \<open>On the server's own writer; its \<^verbatim>\<open>Flush\<close> sends the header when it was not sent yet.\<close>

fun direct_call :: "rw_call \<Rightarrow> writer \<Rightarrow> writer" where
  "direct_call (CallSet k v) w = w_header (header_Set k v) w"
| "direct_call (CallAdd k v) w = w_header (header_Add k v) w"
| "direct_call (CallDel k) w = w_header (header_Del k) w"
| "direct_call (CallWriteHeader st) w = w_WriteHeader st w"
| "direct_call (CallWrite p) w = w_Write (Bytes p) w"
| "direct_call CallFlush w = w_WriteHeader 200 w"

section \<open>The buffered response writer\<close>

record bufferedResponseWriter =
  b_underlying :: writer
  b_header :: header
  b_statusCode :: int
  b_body :: string
  b_passthrough :: bool

definition new_buffered :: "writer \<Rightarrow> bufferedResponseWriter" where
  "new_buffered w = \<lparr>b_underlying = w, b_header = [], b_statusCode = 0, b_body = [], b_passthrough = False\<rparr>"

definition maps_Copy :: "header \<Rightarrow> header \<Rightarrow> header" where
  "maps_Copy src dst = fold (\<lambda>(k, v). gm_put k v) src dst"

definition b_flush :: "bufferedResponseWriter \<Rightarrow> bufferedResponseWriter" where
  "b_flush b =
     (if b_passthrough b then b
      else
        (let w1 = w_header (maps_Copy (b_header b)) (b_underlying b);
             w2 = (if b_statusCode b \<noteq> 0 then w_WriteHeader (b_statusCode b) w1 else w1);
             w3 = (if b_body b \<noteq> [] then w_Write (Bytes (b_body b)) w2 else w2)
         in b\<lparr>b_passthrough := True, b_underlying := w3, b_body := []\<rparr>))"

definition b_Header :: "(header \<Rightarrow> header) \<Rightarrow> bufferedResponseWriter \<Rightarrow> bufferedResponseWriter" where
  "b_Header f b =
     (if b_passthrough b then b\<lparr>b_underlying := w_header f (b_underlying b)\<rparr> else b\<lparr>b_header := f (b_header b)\<rparr>)"

definition b_WriteHeader :: "int \<Rightarrow> bufferedResponseWriter \<Rightarrow> bufferedResponseWriter" where
  "b_WriteHeader statusCode b =
     (if b_passthrough b then b\<lparr>b_underlying := w_WriteHeader statusCode (b_underlying b)\<rparr>
      else if b_statusCode b \<noteq> 0 then b
      else
        (let b1 = b\<lparr>b_statusCode := statusCode\<rparr>; ct = header_Get (b_header b1) ''Content-Type''
         in if statusCode < 400 \<or> go_HasPrefix ct ''text/event-stream'' then b_flush b1 else b1))"

definition b_Write :: "string \<Rightarrow> bufferedResponseWriter \<Rightarrow> bufferedResponseWriter" where
  "b_Write p b =
     (if b_passthrough b then b\<lparr>b_underlying := w_Write (Bytes p) (b_underlying b)\<rparr>
      else
        (let b1 = (if b_statusCode b = 0 then b_WriteHeader 200 b else b)
         in if b_passthrough b1 then b1\<lparr>b_underlying := w_Write (Bytes p) (b_underlying b1)\<rparr>
            else b1\<lparr>b_body := b_body b1 @ p\<rparr>))"

definition b_Flush :: "bufferedResponseWriter \<Rightarrow> bufferedResponseWriter" where
  "b_Flush b = (if b_passthrough b then b\<lparr>b_underlying := w_WriteHeader 200 (b_underlying b)\<rparr> else b)"

fun buffered_call :: "rw_call \<Rightarrow> bufferedResponseWriter \<Rightarrow> bufferedResponseWriter" where
  "buffered_call (CallSet k v) b = b_Header (header_Set k v) b"
| "buffered_call (CallAdd k v) b = b_Header (header_Add k v) b"
| "buffered_call (CallDel k) b = b_Header (header_Del k) b"
| "buffered_call (CallWriteHeader st) b = b_WriteHeader st b"
| "buffered_call (CallWrite p) b = b_Write p b"
| "buffered_call CallFlush b = b_Flush b"

section \<open>The JSON-RPC envelope\<close>

text \<open>
  A request body yields its bytes and then, possibly, a read error. \<open>js_Marshal\<close> is \<^verbatim>\<open>json.Marshal\<close>;
  \<open>js_ID\<close> decodes the body's \<^verbatim>\<open>id\<close> member as raw JSON text, empty when it is missing.
\<close>

record req_stream =
  rs_bytes :: string
  rs_err :: "goerr option"

record json_lib =
  js_Marshal :: "json \<Rightarrow> string result"
  js_ID :: "string \<Rightarrow> string result"

type_synonym sdk_handler = "http_request \<Rightarrow> req_stream \<Rightarrow> rw_call list"

definition codeParseError :: int where "codeParseError = -32700"
definition codeInvalidRequest :: int where "codeInvalidRequest = -32600"
definition codeMethodNotFound :: int where "codeMethodNotFound = -32601"

definition shouldRewrite :: "bufferedResponseWriter \<Rightarrow> bool" where
  "shouldRewrite brw =
     (if b_passthrough brw then False
      else if b_statusCode brw \<noteq> 400 then False
      else go_HasPrefix (header_Get (b_header brw) ''Content-Type'') ''text/plain'')"

definition mapSDKError :: "string \<Rightarrow> (int \<times> string) option" where
  "mapSDKError text =
     (if go_HasPrefix text ''malformed payload:'' then Some (codeParseError, ''Parse error'')
      else if go_Contains text ''JSON RPC not handled'' then Some (codeMethodNotFound, ''Method not found'')
      else if go_Contains text ''missing required'' \<or> go_Contains text ''missing id'' \<or> go_Contains text ''unexpected id''
      then Some (codeInvalidRequest, ''Invalid request'')
      else None)"

definition extractID :: "json_lib \<Rightarrow> string \<Rightarrow> string" where
  "extractID js body =
     (case js_ID js body of Inl _ \<Rightarrow> ''null'' | Inr raw \<Rightarrow> if raw = [] then ''null'' else raw)"

definition error_payload :: "json_lib \<Rightarrow> string \<Rightarrow> int \<Rightarrow> string \<Rightarrow> string \<Rightarrow> json" where
  "error_payload js body code msg rawMessage =
     JObj [(''error'', JObj [(''code'', JInt code), (''data'', JStr rawMessage), (''message'', JStr msg)]),
           (''id'', JRaw (extractID js body)), (''jsonrpc'', JStr ''2.0'')]"

definition envelope :: "json_lib \<Rightarrow> sdk_handler \<Rightarrow> req_stream \<Rightarrow> handler" where
  "envelope js next_handler stream r w =
     (if r_Method r \<noteq> ''POST'' then fold direct_call (next_handler r stream) w
      else
        (case rs_err stream of
           Some err \<Rightarrow> fold direct_call (next_handler r \<lparr>rs_bytes = [], rs_err = Some err\<rparr>) w
         | None \<Rightarrow>
             (let body = rs_bytes stream;
                  brw = fold buffered_call (next_handler r \<lparr>rs_bytes = body, rs_err = None\<rparr>) (new_buffered w)
              in if \<not> shouldRewrite brw then b_underlying (b_flush brw)
                 else
                   (let rawMessage = go_TrimSpace (b_body brw)
                    in (case mapSDKError rawMessage of
                          None \<Rightarrow> b_underlying (b_flush brw)
                        | Some (code, msg) \<Rightarrow>
                            (case js_Marshal js (error_payload js body code msg rawMessage) of
                               Inl _ \<Rightarrow> b_underlying (b_flush brw)
                             | Inr payload \<Rightarrow>
                                 w_Write (Bytes payload)
                                   (w_WriteHeader 200
                                     (w_header (header_Set ''Content-Type'' ''application/json'' \<circ>
                                                header_Del ''X-Content-Type-Options'' \<circ>
                                                header_Del ''Content-Length'' \<circ>
                                                header_Del ''Content-Type'') (b_underlying brw)))))))))"

section \<open>IP literals\<close>

text \<open>\<^verbatim>\<open>net.ParseIP\<close>: dotted decimal or an IPv6 address without a zone, as 16 bytes.\<close>

definition octet_val :: "string \<Rightarrow> 8 word" where
  "octet_val s = word_of_nat (foldl (\<lambda>n c. 10 * n + (code_of c - 48)) 0 s)"

definition v4_bytes :: "string \<Rightarrow> 8 word list" where
  "v4_bytes s = map octet_val (go_Split s (CHR ''.''))"

definition group_bytes :: "string \<Rightarrow> 8 word list" where
  "group_bytes g =
     (if hex_group g
      then (let n = foldl (\<lambda>n c. 16 * n + unhex c) 0 g in [word_of_nat (n div 256), word_of_nat (n mod 256)])
      else v4_bytes g)"

definition colon_bytes :: "string \<Rightarrow> 8 word list" where
  "colon_bytes s = (if s = [] then [] else concat (map group_bytes (go_Split s (CHR '':''))))"

definition ParseIP :: "string \<Rightarrow> ip option" where
  "ParseIP s =
     (if is_ipv4 s then Some (v4InV6Prefix @ v4_bytes s)
      else if is_ipv6 s \<and> CHR ''%'' \<notin> set s then
        (case cut_ellipsis s of
           None \<Rightarrow> Some (colon_bytes s)
         | Some (l, r) \<Rightarrow>
             (let bl = colon_bytes l; br = colon_bytes r
              in Some (bl @ replicate (16 - length bl - length br) 0 @ br)))
      else None)"

section \<open>The Origin allowlist\<close>

record OriginConfig =
  oc_Allowed :: "string list"
  oc_AllowLoopback :: bool
  oc_OnDeny :: "(http_request \<Rightarrow> string \<Rightarrow> writer \<Rightarrow> writer) option"

definition isLoopbackOrigin :: "string \<Rightarrow> bool" where
  "isLoopbackOrigin origin =
     (case url_Parse origin of
        Inl _ \<Rightarrow> False
      | Inr u \<Rightarrow>
          (let host = url_Hostname u
           in if host = [] then False
              else if host = ''localhost'' then True
              else
                (let host' = (if go_HasPrefix host ''['' \<and> go_HasSuffix host '']'' then butlast (tl host) else host)
                 in (case ParseIP host' of Some a \<Rightarrow> IsLoopback a | None \<Rightarrow> False))))"

text \<open>The state behind the writer, here the usage recorders of the bearer middleware, is passed along.\<close>

definition Origin ::
  "OriginConfig \<Rightarrow> (http_request \<Rightarrow> 'u \<times> writer \<Rightarrow> 'u \<times> writer) \<Rightarrow> http_request \<Rightarrow> 'u \<times> writer \<Rightarrow> 'u \<times> writer" where
  "Origin cfg next_handler r s =
     (let origin = header_Get (r_Header r) ''Origin''
      in if origin = [] then next_handler r s
         else if origin \<in> set (oc_Allowed cfg) then next_handler r s
         else if oc_AllowLoopback cfg \<and> isLoopbackOrigin origin then next_handler r s
         else (case oc_OnDeny cfg of
                 Some deny \<Rightarrow> (fst s, deny r origin (snd s))
               | None \<Rightarrow> (fst s, http_Error ''origin not allowed'' 403 (snd s))))"

section \<open>The server\<close>

record server_config =
  mc_Handler :: "sdk_handler option"
  mc_Bearer :: BearerConfig
  mc_Validator :: "pat_validate option"
  mc_AllowedOrigins :: "string list"
  mc_AllowLoopback :: bool

definition server_bearer :: "server_config \<Rightarrow> BearerConfig" where
  "server_bearer cfg =
     (if bc_TokenValidator (mc_Bearer cfg) = None then (mc_Bearer cfg)\<lparr>bc_TokenValidator := mc_Validator cfg\<rparr> else mc_Bearer cfg)"

type_synonym server = "gotime \<Rightarrow> req_stream \<Rightarrow> http_request \<Rightarrow> usage \<times> writer \<Rightarrow> usage \<times> writer"

text \<open>\<^term>\<open>None\<close> is the panic of a negative number of usage recorders.\<close>

definition server_New :: "(string list \<Rightarrow> string \<Rightarrow> bool) \<Rightarrow> json_lib \<Rightarrow> server_config \<Rightarrow> server result option" where
  "server_New args_Has js cfg =
     (case mc_Handler cfg of
        None \<Rightarrow> Some (Inl (Plain ''mcpkit: handler is required''))
      | Some sdk \<Rightarrow>
          (case usage_capacity (server_bearer cfg) of
             None \<Rightarrow> None
           | Some capacity \<Rightarrow>
               Some (Inr (\<lambda>now stream.
                 Origin \<lparr>oc_Allowed = mc_AllowedOrigins cfg, oc_AllowLoopback = mc_AllowLoopback cfg, oc_OnDeny = None\<rparr>
                   (Bearer args_Has (server_bearer cfg) capacity now (envelope js sdk stream))))))"

section \<open>Cache hints\<close>

definition ProtocolVersion :: string where "ProtocolVersion = ''2026-07-28''"
definition DefaultCacheTTL :: duration where "DefaultCacheTTL = time_Minute"
definition cacheScopePrivate :: string where "cacheScopePrivate = ''private''"

record Cacheable =
  ca_TTLMs :: int
  ca_CacheScope :: string

definition PrivateCache :: "duration \<Rightarrow> Cacheable \<Rightarrow> Cacheable" where
  "PrivateCache ttl c =
     c\<lparr>ca_TTLMs := (if ttl < 0 then - ((- ttl) div 1000000) else ttl div 1000000), ca_CacheScope := cacheScopePrivate\<rparr>"

section \<open>Buffering keeps the response\<close>

text \<open>
  A handler that behaves like one on the server's own writer: headers are set before anything is
  sent, statuses are final ones, and nothing is flushed before there is a status.
\<close>

fun calls_ok :: "bool \<Rightarrow> rw_call list \<Rightarrow> bool" where
  "calls_ok started [] = True"
| "calls_ok started (CallSet k v # cs) = (\<not> started \<and> calls_ok started cs)"
| "calls_ok started (CallAdd k v # cs) = (\<not> started \<and> calls_ok started cs)"
| "calls_ok started (CallDel k # cs) = (\<not> started \<and> calls_ok started cs)"
| "calls_ok started (CallWriteHeader st # cs) = (200 \<le> st \<and> st \<le> 999 \<and> calls_ok True cs)"
| "calls_ok started (CallWrite p # cs) = calls_ok True cs"
| "calls_ok started (CallFlush # cs) = (started \<and> calls_ok started cs)"

text \<open>The bytes written to a writer, whatever the chunks they came in.\<close>

definition body_bytes :: "writer \<Rightarrow> string" where
  "body_bytes w = concat (map (\<lambda>c. case c of Bytes p \<Rightarrow> p | JsonDoc _ \<Rightarrow> []) (w_body w))"

text \<open>What a client can tell of a response.\<close>

definition same_answer :: "writer \<Rightarrow> writer \<Rightarrow> bool" where
  "same_answer w1 w2 = (w_status w1 = w_status w2 \<and> w_sent w1 = w_sent w2 \<and> w_hdr w1 = w_hdr w2 \<and> body_bytes w1 = body_bytes w2)"

datatype phase = Fresh | Held | Passed

text \<open>How the buffering writer and the server's own writer relate while the same calls are made on both.\<close>

fun buffered_rel :: "phase \<Rightarrow> writer \<Rightarrow> bufferedResponseWriter \<Rightarrow> writer \<Rightarrow> bool" where
  "buffered_rel Fresh w0 b d =
     (\<not> b_passthrough b \<and> b_underlying b = w0 \<and> b_header b = w_hdr d \<and> gm_wf (w_hdr d) \<and> b_statusCode b = 0 \<and>
      b_body b = [] \<and> w_status d = 0 \<and> w_body d = [] \<and> w_sent d = w_sent w0)"
| "buffered_rel Held w0 b d =
     (\<not> b_passthrough b \<and> b_underlying b = w0 \<and> b_header b = w_hdr d \<and> gm_wf (w_hdr d) \<and> w_sent d = w_hdr d \<and>
      b_statusCode b = w_status d \<and> 400 \<le> w_status d \<and> b_body b = body_bytes d)"
| "buffered_rel Passed w0 b d =
     (b_passthrough b \<and> w_status d \<noteq> 0 \<and> same_answer (b_underlying b) d \<and>
      (w_status d < 400 \<or> go_HasPrefix (header_Get (w_sent d) ''Content-Type'') ''text/event-stream''))"

lemma maps_Copy_append: "gm_wf h \<Longrightarrow> fst ` set h \<inter> fst ` set m = {} \<Longrightarrow> maps_Copy h m = m @ h"
proof (induction h arbitrary: m)
  case (Cons kv h)
  obtain k v where kv: "kv = (k, v)" by (cases kv)
  have "AList.update k v m = m @ [(k, v)]" if "k \<notin> fst ` set m" for m using that by (induction m) auto
  with Cons.prems have "gm_put k v m = m @ [(k, v)]" by (auto simp: kv gm_put_def)
  with Cons.IH [of "m @ [(k, v)]"] Cons.prems show ?case by (auto simp: maps_Copy_def kv gm_wf_def)
qed (simp add: maps_Copy_def)

lemma maps_Copy_empty: "gm_wf h \<Longrightarrow> maps_Copy h [] = h"
  using maps_Copy_append [of h "[]"] by simp

lemma body_bytes_Write: "body_bytes (w_Write (Bytes p) w) = body_bytes w @ p"
  by (simp add: body_bytes_def)

lemma flush_fresh:
  assumes "buffered_rel Fresh w0 b d" "unsent w0" "w_hdr w0 = []"
  shows "same_answer (b_underlying (b_flush b)) d"
  using assms by (simp add: b_flush_def Let_def same_answer_def maps_Copy_empty body_bytes_def unsent_def)

lemma flush_held:
  assumes "buffered_rel Held w0 b d" "unsent w0" "w_hdr w0 = []"
  shows "same_answer (b_underlying (b_flush b)) d"
proof -
  have "body_bytes w0 = []" "\<not> informational (w_status d)" using assms by (simp_all add: unsent_def body_bytes_def informational_def)
  with assms show ?thesis
    by (simp add: b_flush_def Let_def same_answer_def maps_Copy_empty body_bytes_Write w_WriteHeader_def unsent_def body_bytes_def)
qed

lemma write_header_fresh:
  assumes "buffered_rel Fresh w0 b d" "unsent w0" "w_hdr w0 = []" "200 \<le> st"
  shows "\<exists>ph. ph \<noteq> Fresh \<and> buffered_rel ph w0 (b_WriteHeader st b) (w_WriteHeader st d)"
proof -
  have st: "\<not> informational st" "st \<noteq> 0" using assms(4) by (simp_all add: informational_def)
  let ?d = "w_WriteHeader st d" and ?b = "b\<lparr>b_statusCode := st\<rparr>"
  have d: "?d = d\<lparr>w_status := st, w_sent := w_hdr d\<rparr>" using assms(1) st by (simp add: w_WriteHeader_def)
  show ?thesis
  proof (cases "st < 400 \<or> go_HasPrefix (header_Get (b_header b) ''Content-Type'') ''text/event-stream''")
    case True
    then have "b_WriteHeader st b = b_flush ?b" using assms(1) by (simp add: b_WriteHeader_def)
    moreover have "same_answer (b_underlying (b_flush ?b)) ?d" "b_passthrough (b_flush ?b)"
      using assms st
      by (simp_all add: d b_flush_def Let_def same_answer_def maps_Copy_empty body_bytes_def unsent_def w_WriteHeader_def)
    ultimately have "buffered_rel Passed w0 (b_WriteHeader st b) ?d" using st True assms(1) by (simp add: d)
    then show ?thesis by blast
  next
    case False
    then have "b_WriteHeader st b = ?b" using assms(1) by (simp add: b_WriteHeader_def)
    then have "buffered_rel Held w0 (b_WriteHeader st b) ?d" using assms(1) False by (simp add: d body_bytes_def)
    then show ?thesis by blast
  qed
qed

lemma w_Write_starts: "w_status d = 0 \<Longrightarrow> w_Write c d = w_Write c (w_WriteHeader 200 d)"
  by (simp add: w_Write_def w_WriteHeader_def informational_def)

lemma b_Write_starts: "\<not> b_passthrough b \<Longrightarrow> b_statusCode b = 0 \<Longrightarrow> b_Write p b = b_Write p (b_WriteHeader 200 b)"
  by (simp add: b_Write_def b_WriteHeader_def b_flush_def Let_def)

lemma write_started:
  assumes "buffered_rel ph w0 b d" "ph \<noteq> Fresh"
  shows "buffered_rel ph w0 (b_Write p b) (w_Write (Bytes p) d)"
  using assms by (cases ph) (auto simp: b_Write_def same_answer_def body_bytes_Write)

lemma write_header_started:
  assumes "buffered_rel ph w0 b d" "ph \<noteq> Fresh"
  shows "buffered_rel ph w0 (b_WriteHeader st b) (w_WriteHeader st d)"
  using assms by (cases ph) (auto simp: b_WriteHeader_def w_WriteHeader_def same_answer_def)

lemma flush_started:
  assumes "buffered_rel ph w0 b d" "ph \<noteq> Fresh"
  shows "buffered_rel ph w0 (b_Flush b) (w_WriteHeader 200 d)"
  using assms by (cases ph) (auto simp: b_Flush_def w_WriteHeader_def same_answer_def)

lemma buffered_calls:
  assumes "unsent w0" "w_hdr w0 = []"
  shows "calls_ok (ph \<noteq> Fresh) cs \<Longrightarrow> buffered_rel ph w0 b d \<Longrightarrow>
    \<exists>ph'. buffered_rel ph' w0 (fold buffered_call cs b) (fold direct_call cs d)"
proof (induction cs arbitrary: ph b d)
  case (Cons c cs)
  have "\<exists>ph1. calls_ok (ph1 \<noteq> Fresh) cs \<and> buffered_rel ph1 w0 (buffered_call c b) (direct_call c d)"
  proof (cases "ph = Fresh")
    case True
    note fr = Cons.prems(2) [unfolded True]
    show ?thesis
    proof (cases c)
      case (CallWriteHeader st)
      with Cons.prems(1) have st: "200 \<le> st" "calls_ok True cs" by simp_all
      obtain ph1 where "ph1 \<noteq> Fresh" "buffered_rel ph1 w0 (b_WriteHeader st b) (w_WriteHeader st d)"
        using write_header_fresh [OF fr assms st(1)] by blast
      with st(2) CallWriteHeader show ?thesis by (intro exI [of _ ph1]) simp
    next
      case (CallWrite p)
      obtain ph1 where "ph1 \<noteq> Fresh" "buffered_rel ph1 w0 (b_WriteHeader 200 b) (w_WriteHeader 200 d)"
        using write_header_fresh [OF fr assms, of 200] by auto
      then have "buffered_rel ph1 w0 (b_Write p b) (w_Write (Bytes p) d)" "ph1 \<noteq> Fresh"
        using write_started fr w_Write_starts b_Write_starts by auto
      then show ?thesis using Cons.prems(1) CallWrite by (intro exI [of _ ph1]) simp
    qed (use Cons.prems(1) True fr in \<open>auto simp: b_Header_def intro!: exI [of _ Fresh]\<close>)
  next
    case False
    then show ?thesis
      using Cons.prems write_started write_header_started flush_started
      by (cases c) (auto intro!: exI [of _ ph])
  qed
  with Cons.IH show ?case by auto
qed auto

text \<open>Every state the buffering writer can be left in flushes to the answer of the unwrapped handler.\<close>

lemma flush_answer:
  assumes "buffered_rel ph w0 b d" "unsent w0" "w_hdr w0 = []"
  shows "same_answer (b_underlying (b_flush b)) d"
  using assms flush_fresh flush_held by (cases ph) (auto simp: b_flush_def)

lemma buffered_handler:
  assumes "unsent w" "w_hdr w = []" "calls_ok False cs"
  obtains ph where "buffered_rel ph w (fold buffered_call cs (new_buffered w)) (fold direct_call cs w)"
  using buffered_calls [OF assms(1,2), of Fresh cs "new_buffered w" w] assms
  by (auto simp: new_buffered_def unsent_def)

section \<open>Properties\<close>

text \<open>Whether the unwrapped answer is an SDK error that the envelope replaces.\<close>

definition sdk_error :: "writer \<Rightarrow> (int \<times> string) option" where
  "sdk_error d =
     (if w_status d = 400 \<and> go_HasPrefix (header_Get (w_sent d) ''Content-Type'') ''text/plain''
      then mapSDKError (go_TrimSpace (body_bytes d)) else None)"

lemma content_types_differ: "go_HasPrefix ct ''text/event-stream'' \<Longrightarrow> \<not> go_HasPrefix ct ''text/plain''"
  by (auto simp: go_HasPrefix_iff)

lemma rewrite_iff:
  assumes "buffered_rel ph w b d"
  shows "(if shouldRewrite b then mapSDKError (go_TrimSpace (b_body b)) else None) = sdk_error d"
  using assms by (cases ph) (auto simp: shouldRewrite_def sdk_error_def content_types_differ)



section \<open>Middleware as a guard\<close>

text \<open>
  A middleware guards the handler behind it when its answer depends only on what that handler does
  with admitted requests: \<open>adm r r'\<close> says that \<open>r'\<close> may be passed on for the incoming request \<open>r\<close>.
\<close>

locale middleware_guard =
  fixes mw :: "('r \<Rightarrow> 's \<Rightarrow> 's) \<Rightarrow> 'r \<Rightarrow> 't \<Rightarrow> 't" and adm :: "'r \<Rightarrow> 'r \<Rightarrow> bool"
  assumes guard: "(\<And>r' s. adm r r' \<Longrightarrow> n1 r' s = n2 r' s) \<Longrightarrow> mw n1 r t = mw n2 r t"
begin

lemma guard_closed: "(\<And>r'. \<not> adm r r') \<Longrightarrow> mw n1 r t = mw n2 r t"
  using guard [of r n1 n2 t] by blast

end

locale guard_chain = outer: middleware_guard outer_mw outer_adm + inner: middleware_guard inner_mw inner_adm
  for outer_mw :: "('r \<Rightarrow> 's \<Rightarrow> 's) \<Rightarrow> 'r \<Rightarrow> 't \<Rightarrow> 't" and outer_adm :: "'r \<Rightarrow> 'r \<Rightarrow> bool"
  and inner_mw :: "('r \<Rightarrow> 'q \<Rightarrow> 'q) \<Rightarrow> 'r \<Rightarrow> 's \<Rightarrow> 's" and inner_adm :: "'r \<Rightarrow> 'r \<Rightarrow> bool"

sublocale guard_chain \<subseteq> chained: middleware_guard "\<lambda>n. outer_mw (inner_mw n)" "\<lambda>r r'. \<exists>rm. outer_adm r rm \<and> inner_adm rm r'"
  by unfold_locales (rule outer.guard, rule inner.guard, blast)

text \<open>What each middleware passes on.\<close>

definition origin_admits :: "OriginConfig \<Rightarrow> http_request \<Rightarrow> http_request \<Rightarrow> bool" where
  "origin_admits cfg r r' =
     (r' = r \<and> (let origin = header_Get (r_Header r) ''Origin''
                in origin = [] \<or> origin \<in> set (oc_Allowed cfg) \<or> oc_AllowLoopback cfg \<and> isLoopbackOrigin origin))"

definition bearer_admits ::
  "(string list \<Rightarrow> string \<Rightarrow> bool) \<Rightarrow> BearerConfig \<Rightarrow> gotime \<Rightarrow> http_request \<Rightarrow> http_request \<Rightarrow> bool" where
  "bearer_admits args_Has cfg now r r' =
     (if bc_Introspector cfg = None \<and> bc_TokenValidator cfg = None \<and> bc_AllowUnauthenticated cfg
      then IsAuthDisabled (r_Ctx r')
      else extractBearerToken r \<noteq> [] \<and>
        ((\<exists>result. pat_credential cfg (extractBearerToken r) (r_Ctx r') result) \<or>
         (\<exists>request. oauth_credential args_Has cfg now (extractBearerToken r) (r_Ctx r') request)))"

interpretation origin_guard: middleware_guard "Origin oc" "origin_admits oc" for oc
  by unfold_locales (auto simp: Origin_def origin_admits_def Let_def)

lemma bearer_admits_pat:
  assumes "bc_TokenValidator cfg = Some v" "validatePAT v (extractBearerToken r) = Some result" "extractBearerToken r \<noteq> []"
  shows "bearer_admits args_Has cfg now r (r_WithContext r (contextWithPAT (r_Ctx r) result))"
  using assms by (auto simp: bearer_admits_def pat_credential_def validatePAT_def ctx_defs split: sum.splits)

lemma bearer_admits_oauth:
  assumes "bc_Introspector cfg = Some i" "i (extractBearerToken r) = Inr request" "extractBearerToken r \<noteq> []"
    and "bc_ExpectedAudience cfg = [] \<or> args_Has (ar_GrantedAudience request) (bc_ExpectedAudience cfg)"
    and "ar_ExpiresAt request = 0 \<or> now \<le> ar_ExpiresAt request"
  shows "bearer_admits args_Has cfg now r (r_WithContext r (contextWithOAuth (r_Ctx r) request))"
proof -
  have "oauth_credential args_Has cfg now (extractBearerToken r) (r_Ctx (r_WithContext r (contextWithOAuth (r_Ctx r) request))) request"
    using assms unfolding oauth_credential_def by (auto simp: ctx_defs)
  with assms(1,3) show ?thesis unfolding bearer_admits_def by auto
qed

interpretation bearer_guard: middleware_guard "Bearer args_Has cfg capacity now" "bearer_admits args_Has cfg now"
  for args_Has cfg capacity now
proof unfold_locales
  fix r and n1 n2 :: handler and t :: "usage \<times> writer"
  assume agree: "\<And>r' s. bearer_admits args_Has cfg now r r' \<Longrightarrow> n1 r' s = n2 r' s"
  show "Bearer args_Has cfg capacity now n1 r t = Bearer args_Has cfg capacity now n2 r t"
  proof (cases "bc_Introspector cfg = None \<and> bc_TokenValidator cfg = None \<and> bc_AllowUnauthenticated cfg")
    case True
    then have "bearer_admits args_Has cfg now r (r_WithContext r (WithAuthDisabled (r_Ctx r)))"
      by (simp add: bearer_admits_def WithAuthDisabled_def ctx_defs)
    with agree True show ?thesis by (simp add: Bearer_def split: prod.splits)
  next
    case False
    then show ?thesis
      using agree bearer_admits_pat bearer_admits_oauth
      by (auto intro!: agree bearer_admits_pat bearer_admits_oauth
          simp: Bearer_def Let_def time_IsZero_def time_Before_def split: option.splits sum.splits prod.splits)
  qed
qed

interpretation server_guard: guard_chain "Origin oc" "origin_admits oc" "Bearer args_Has cfg capacity now" "bearer_admits args_Has cfg now"
  for oc args_Has cfg capacity now
  by unfold_locales

definition server_origins :: "server_config \<Rightarrow> OriginConfig" where
  "server_origins cfg = \<lparr>oc_Allowed = mc_AllowedOrigins cfg, oc_AllowLoopback = mc_AllowLoopback cfg, oc_OnDeny = None\<rparr>"

text \<open>
  C1 (who reaches the SDK handler). A server with a token source, or with unauthenticated access not
  allowed, shows its SDK handler only requests with an accepted Origin whose bearer token is a valid
  personal access token or a live introspected token for this audience: two SDK handlers that agree on
  those give the same answers to all requests. A request with another Origin is answered 403 and
  nothing is recorded of its token.\<close>

theorem server_access_control:
  assumes "bc_Introspector (server_bearer cfg) \<noteq> None \<or> bc_TokenValidator (server_bearer cfg) \<noteq> None \<or>
      \<not> bc_AllowUnauthenticated (server_bearer cfg)"
    and "server_New args_Has js (cfg\<lparr>mc_Handler := Some h1\<rparr>) = Some (Inr s1)"
    and "server_New args_Has js (cfg\<lparr>mc_Handler := Some h2\<rparr>) = Some (Inr s2)"
    and "\<And>r' stream'. origin_admits (server_origins cfg) r r \<Longrightarrow> extractBearerToken r \<noteq> [] \<Longrightarrow>
      (\<exists>result. pat_credential (server_bearer cfg) (extractBearerToken r) (r_Ctx r') result) \<or>
      (\<exists>request. oauth_credential args_Has (server_bearer cfg) now (extractBearerToken r) (r_Ctx r') request) \<Longrightarrow>
      h1 r' stream' = h2 r' stream'"
  shows "s1 now stream r (u, w) = s2 now stream r (u, w) \<and>
    (\<not> origin_admits (server_origins cfg) r r \<longrightarrow> s1 now stream r (u, w) = (u, http_Error ''origin not allowed'' 403 w))"
proof -
  have b: "server_bearer (cfg\<lparr>mc_Handler := h\<rparr>) = server_bearer cfg" for h by (simp add: server_bearer_def)
  obtain capacity where cap: "usage_capacity (server_bearer cfg) = Some capacity"
    using assms(2) by (auto simp: server_New_def b split: option.splits)
  let ?chain = "\<lambda>h. Origin (server_origins cfg) (Bearer args_Has (server_bearer cfg) capacity now (envelope js h stream)) r (u, w)"
  have s: "s1 now stream r (u, w) = ?chain h1" "s2 now stream r (u, w) = ?chain h2"
    using assms(2,3) cap by (auto simp: server_New_def b server_origins_def)
  have "envelope js h1 stream r' w' = envelope js h2 stream r' w'"
    if "\<exists>rm. origin_admits (server_origins cfg) r rm \<and> bearer_admits args_Has (server_bearer cfg) now rm r'" for r' w'
  proof -
    from that have "h1 r' st = h2 r' st" for st
      by (intro assms(4)) (use assms(1) in \<open>auto simp: origin_admits_def bearer_admits_def split: if_splits\<close>)
    then show ?thesis by (simp add: envelope_def cong: option.case_cong)
  qed
  then have "?chain h1 = ?chain h2" by (rule server_guard.chained.guard)
  moreover have "\<not> origin_admits (server_origins cfg) r r \<Longrightarrow> ?chain h1 = (u, http_Error ''origin not allowed'' 403 w)"
    by (auto simp: Origin_def Let_def origin_admits_def server_origins_def)
  ultimately show ?thesis by (simp add: s)
qed

section \<open>Witnesses\<close>

definition sample_json :: json_lib where
  "sample_json = \<lparr>js_Marshal = (\<lambda>_. Inr ''E''), js_ID = (\<lambda>_. Inr ''7'')\<rparr>"

definition sample_sdk :: sdk_handler where
  "sample_sdk r stream =
     (if rs_bytes stream = ''ok'' then [CallSet ''Content-Type'' ''text/event-stream'', CallWriteHeader 200, CallFlush, CallWrite ''data'']
      else [CallSet ''Content-Type'' ''text/plain; charset=utf-8'', CallWriteHeader 400, CallWrite ''malformed payload: x''])"

definition sample_post :: http_request where
  "sample_post = \<lparr>r_Method = ''POST'', r_Header = [], r_Ctx = context_Background\<rparr>"



definition sample_server :: server_config where
  "sample_server = \<lparr>mc_Handler = None, mc_Bearer = ex_bearer, mc_Validator = None,
     mc_AllowedOrigins = [''https://app''], mc_AllowLoopback = False\<rparr>"

theorem server_access_control_witness:
  "case (server_New ex_has sample_json (sample_server\<lparr>mc_Handler := Some (\<lambda>r st. [])\<rparr>),
         server_New ex_has sample_json (sample_server\<lparr>mc_Handler := Some (\<lambda>r st. [CallWrite ''secret''])\<rparr>)) of
     (Some (Inr s1), Some (Inr s2)) \<Rightarrow>
       s1 60 \<lparr>rs_bytes = [], rs_err = None\<rparr> sample_post ([], new_writer) = s2 60 \<lparr>rs_bytes = [], rs_err = None\<rparr> sample_post ([], new_writer)
   | _ \<Rightarrow> False"
proof -
  have t: "extractBearerToken sample_post = []" by code_simp
  have cap: "usage_capacity (server_bearer (sample_server\<lparr>mc_Handler := h\<rparr>)) = Some 32" for h
    by (simp add: usage_capacity_def server_bearer_def sample_server_def ex_bearer_def)
  have b: "bc_Introspector (server_bearer sample_server) \<noteq> None" by (simp add: server_bearer_def sample_server_def ex_bearer_def)
  obtain s1 s2 where s: "server_New ex_has sample_json (sample_server\<lparr>mc_Handler := Some (\<lambda>r st. [])\<rparr>) = Some (Inr s1)"
      "server_New ex_has sample_json (sample_server\<lparr>mc_Handler := Some (\<lambda>r st. [CallWrite ''secret''])\<rparr>) = Some (Inr s2)"
    by (simp add: server_New_def cap)
  have "s1 60 st sample_post (u, w) = s2 60 st sample_post (u, w)" for st u w
    using server_access_control [OF _ s, of sample_post 60 st u w] b t by simp
  with s show ?thesis by simp
qed

section \<open>Further facts\<close>

text \<open>Header values that an outer middleware put into the response are lost when the handler adds to the same header.\<close>

lemma envelope_drops_outer_values:
  "let w = w_header (header_Set ''Vary'' ''Origin'') new_writer;
       h = (\<lambda>r st. [CallAdd ''Vary'' ''Accept'', CallWriteHeader 200])
   in w_sent (fold direct_call (h sample_post \<lparr>rs_bytes = [], rs_err = None\<rparr>) w) = [(''Vary'', [''Origin'', ''Accept''])] \<and>
      w_sent (envelope sample_json h \<lparr>rs_bytes = [], rs_err = None\<rparr> sample_post w) = [(''Vary'', [''Accept''])]"
  by code_simp

text \<open>A cached result is private and its lifetime in milliseconds never exceeds the one asked for.\<close>

lemma PrivateCache_bounds:
  assumes "0 \<le> ttl"
  shows "ca_CacheScope (PrivateCache ttl c) = ''private''" "ca_TTLMs (PrivateCache ttl c) * 1000000 \<le> ttl"
    "ttl - 1000000 < ca_TTLMs (PrivateCache ttl c) * 1000000"
  using assms by (auto simp: PrivateCache_def cacheScopePrivate_def)

text \<open>Loopback is decided on the parsed address: a name that only starts like one is not loopback.\<close>

lemma loopback_origins:
  "isLoopbackOrigin ''http://127.4.5.6''" "\<not> isLoopbackOrigin ''http://127.0.0.1.a''" "isLoopbackOrigin ''http://[::1]''"
  by code_simp+

end
