(* ===== verification/LoginClassify.thy ===== *)
theory LoginClassify
  imports GoPrelude
begin

text \<open>
  The classification of account errors (\<^verbatim>\<open>oauth/login_classify.go\<close>) into the fixed vocabularies that
  logs and metrics use. An error is absent or a wrapped chain; \<open>ErrNotFound\<close> is the sentinel of
  \<^verbatim>\<open>userstore/store.go\<close>.
\<close>

definition ErrNotFound :: string where "ErrNotFound = ''userstore: user not found''"
definition ErrInvalidCredentials :: string where "ErrInvalidCredentials = ''userstore: invalid credentials''"

definition contains_any :: "string \<Rightarrow> string list \<Rightarrow> bool" where
  "contains_any msg texts = list_ex (go_Contains msg) texts"

definition ClassifyLoginError :: "goerr option \<Rightarrow> string" where
  "ClassifyLoginError e =
     (case e of
        None \<Rightarrow> ''ok''
      | Some err \<Rightarrow>
          if errors_is err ErrNotFound then ''bad_credentials''
          else
            (let msg = err_text err
             in if contains_any msg [''verify password'', ''find user'', ''not found''] then ''bad_credentials''
                else if contains_any msg [''locked'', ''disabled'', ''inactive''] then ''locked''
                else ''unknown''))"

definition ClassifyResetError :: "goerr option \<Rightarrow> string" where
  "ClassifyResetError e =
     (case e of
        None \<Rightarrow> ''ok''
      | Some err \<Rightarrow>
          if errors_is err ErrNotFound then ''not_found''
          else
            (let msg = err_text err
             in if contains_any msg [''expired''] then ''expired''
                else if contains_any msg [''invalid token'', ''token mismatch''] then ''invalid_token''
                else if contains_any msg [''send email'', ''smtp''] then ''smtp_failed''
                else if contains_any msg [''weak password'', ''password too short''] then ''weak_password''
                else ''unknown''))"

definition ClassifyVerifyError :: "goerr option \<Rightarrow> string" where
  "ClassifyVerifyError e =
     (case e of
        None \<Rightarrow> ''ok''
      | Some err \<Rightarrow>
          if errors_is err ErrNotFound then ''not_found''
          else
            (let msg = err_text err
             in if contains_any msg [''expired''] then ''expired''
                else if contains_any msg [''already verified''] then ''already_verified''
                else if contains_any msg [''invalid token'', ''token mismatch''] then ''invalid_token''
                else ''unknown''))"

definition ClassifySignupError :: "goerr option \<Rightarrow> string" where
  "ClassifySignupError e =
     (case e of
        None \<Rightarrow> ''ok''
      | Some err \<Rightarrow>
          (let msg = err_text err
           in if contains_any msg [''email already registered'', ''already registered''] then ''duplicate_email''
              else if contains_any msg [''username already taken''] then ''duplicate_username''
              else if contains_any msg [''username must be'', ''username is reserved'', ''invalid username''] then ''invalid_username''
              else if contains_any msg [''password is required'', ''password too short'', ''weak password''] then ''weak_password''
              else if contains_any msg [''email is required'', ''invalid email''] then ''invalid_email''
              else ''unknown''))"

section \<open>What the labels tell\<close>

text \<open>Only the absence of an error is labelled as success.\<close>

lemma ok_only_without_error:
  "ClassifyLoginError e = ''ok'' \<longleftrightarrow> e = None" "ClassifyResetError e = ''ok'' \<longleftrightarrow> e = None"
  "ClassifyVerifyError e = ''ok'' \<longleftrightarrow> e = None" "ClassifySignupError e = ''ok'' \<longleftrightarrow> e = None"
  by (auto simp: ClassifyLoginError_def ClassifyResetError_def ClassifyVerifyError_def ClassifySignupError_def Let_def
      split: option.splits)

text \<open>An unknown user and a wrong password get the same login label, however the errors are wrapped.\<close>

lemma contains_wrapped: "go_Contains (err_text err) t \<Longrightarrow> go_Contains (err_text (Wrap msg err)) t"
proof -
  assume "go_Contains (err_text err) t"
  then obtain a b where "err_text err = a @ t @ b" by (auto simp: go_Contains_iff)
  then have "err_text (Wrap msg err) = (msg @ '': '' @ a) @ t @ b" by simp
  then show ?thesis unfolding go_Contains_iff by blast
qed

lemma login_label_hides_user:
  "ClassifyLoginError (Some (Wrap msg (Sentinel ErrNotFound))) = ''bad_credentials''"
  "go_Contains (err_text err) ''verify password'' \<Longrightarrow> ClassifyLoginError (Some (Wrap msg err)) = ''bad_credentials''"
  using contains_wrapped [of err "''verify password''" msg]
  by (simp_all add: ClassifyLoginError_def contains_any_def Let_def)

text \<open>The user store's own sentinel for a wrong email or password is not recognised.\<close>

lemma invalid_credentials_unknown: "ClassifyLoginError (Some (Sentinel ErrInvalidCredentials)) = ''unknown''"
  by code_simp

end
