(* ===== verification/ProviderSetup.thy ===== *)
theory ProviderSetup
  imports TokenEndpoint SigningKeys
begin

text \<open>
  The construction of the OAuth provider (\<^verbatim>\<open>New\<close>, \<^verbatim>\<open>OAuth2Provider\<close> and \<^verbatim>\<open>RegisterHandler\<close> of
  \<^verbatim>\<open>oauth/provider.go\<close>): what the fosite engine is configured with, which of its features are switched on,
  and the policies that dynamic registration and client metadata documents get. \<^verbatim>\<open>compose.Compose\<close> is a
  parameter: a function of the configuration, the metadata resolver of the storage, the token strategies
  and the list of factories.
\<close>

record fositeConfig =
  fc_GlobalSecret :: string
  fc_AccessTokenLifespan :: duration
  fc_RefreshTokenLifespan :: duration
  fc_AuthorizeCodeLifespan :: duration
  fc_IDTokenLifespan :: duration
  fc_IDTokenIssuer :: string
  fc_EnforcePKCEForPublicClients :: bool
  fc_MinParameterEntropy :: int
  fc_RefreshTokenScopes :: "string list"

datatype factory =
    OAuth2AuthorizeExplicitFactory
  | OAuth2RefreshTokenGrantFactory
  | OpenIDConnectExplicitFactory
  | OpenIDConnectRefreshFactory
  | OAuth2TokenIntrospectionFactory
  | OAuth2TokenRevocationFactory
  | OAuth2PKCEFactory

text \<open>The key the engine signs with, read from the key manager for each signature.\<close>

definition provider_keyGetter :: "'s KeyStore \<Rightarrow> ('k, 'p) key_codec \<Rightarrow> 's \<Rightarrow> 'k result" where
  "provider_keyGetter ops kc s =
     (case GetActivePrivateKey ops kc s of
        Inl err \<Rightarrow> Inl (Wrap ''get active signing key'' err)
      | Inr (privateKey, _) \<Rightarrow> Inr privateKey)"

definition provider_fositeConfig :: "int \<Rightarrow> Config \<Rightarrow> fositeConfig" where
  "provider_fositeConfig minEntropy cfg =
     \<lparr>fc_GlobalSecret = cf_Secret cfg, fc_AccessTokenLifespan = cf_AccessTokenLifespan cfg,
      fc_RefreshTokenLifespan = cf_RefreshTokenLifespan cfg, fc_AuthorizeCodeLifespan = cf_AuthorizeCodeLifespan cfg,
      fc_IDTokenLifespan = cf_IDTokenLifespan cfg, fc_IDTokenIssuer = cf_Issuer cfg, fc_EnforcePKCEForPublicClients = True,
      fc_MinParameterEntropy = minEntropy, fc_RefreshTokenScopes = []\<rparr>"

definition provider_factories :: "factory list" where
  "provider_factories =
     [OAuth2AuthorizeExplicitFactory, OAuth2RefreshTokenGrantFactory, OpenIDConnectExplicitFactory, OpenIDConnectRefreshFactory,
      OAuth2TokenIntrospectionFactory, OAuth2TokenRevocationFactory, OAuth2PKCEFactory]"

text \<open>
  The token strategies: the core one and the one of OpenID Connect read the configuration, and the ID
  token strategy and the signer share the key getter.
\<close>

record 'g CommonStrategy =
  st_CoreStrategy :: fositeConfig
  st_OpenIDConnectTokenStrategy :: "'g \<times> fositeConfig"
  st_Signer :: 'g

definition provider_strategy :: "'g \<Rightarrow> fositeConfig \<Rightarrow> 'g CommonStrategy" where
  "provider_strategy keyGetter fc =
     \<lparr>st_CoreStrategy = fc, st_OpenIDConnectTokenStrategy = (keyGetter, fc), st_Signer = keyGetter\<rparr>"

text \<open>The provider as it is built: the engine, the fields the handlers read, and the policy of registration.\<close>

record 'e built_provider =
  bp_oauth :: 'e
  bp_fields :: Provider
  bp_allowedScopes :: "string list"
  bp_defaultScopes :: "string list"
  bp_allowedScope :: "string list"
  bp_replayCache :: replay_cache

definition newRefreshReplayCache :: replay_cache where "newRefreshReplayCache = []"

definition provider_New ::
  "'s KeyStore \<Rightarrow> ('k, 'p) key_codec \<Rightarrow> int \<Rightarrow>
   (fositeConfig \<Rightarrow> fetcher option \<Rightarrow> ('s \<Rightarrow> 'k result) CommonStrategy \<Rightarrow> factory list \<Rightarrow> 'e) \<Rightarrow>
   string result \<Rightarrow> Config \<Rightarrow> 'e built_provider result" where
  "provider_New ops kc minEntropy compose rand_bytes cfg0 =
     (case config_applyDefaults rand_bytes cfg0 of
        Inl err \<Rightarrow> Inl err
      | Inr cfg \<Rightarrow>
          Inr \<lparr>bp_oauth = compose (provider_fositeConfig minEntropy cfg) (newOAuthStorage cfg)
                            (provider_strategy (provider_keyGetter ops kc) (provider_fositeConfig minEntropy cfg)) provider_factories,
               bp_fields = \<lparr>pv_issuer = cf_Issuer cfg, pv_audience = cf_Audience cfg, pv_auditEmitter = cf_AuditEmitter cfg,
                            pv_replayWindow = cf_RefreshReplayWindow cfg\<rparr>,
               bp_allowedScopes = cf_AllowedScopes cfg, bp_defaultScopes = cf_DefaultScopes cfg,
               bp_allowedScope = scopeSet (cf_AllowedScopes cfg), bp_replayCache = newRefreshReplayCache\<rparr>)"

definition OAuth2Provider :: "'e built_provider \<Rightarrow> 'e" where "OAuth2Provider p = bp_oauth p"

text \<open>What \<^verbatim>\<open>RegisterHandler\<close> passes to the registration handler.\<close>

definition RegisterHandler_config :: "'e built_provider \<Rightarrow> RegistrationConfig" where
  "RegisterHandler_config p =
     \<lparr>rg_AllowedScopes = bp_allowedScopes p, rg_DefaultScopes = bp_defaultScopes p, rg_Audience = pv_audience (bp_fields p),
      rg_DefaultTokenEndpointAuthMethod = [], rg_DefaultGrantTypes = [], rg_DefaultResponseTypes = [], rg_ClientIDPrefix = []\<rparr>"

section \<open>What a provider is configured with\<close>

definition config_complete :: "string result \<Rightarrow> Config \<Rightarrow> bool" where
  "config_complete rand_bytes cfg =
     ((if cf_Secret cfg = [] then (\<exists>bytes. rand_bytes = Inr bytes \<and> length bytes = 32) else length (cf_Secret cfg) = 32) \<and>
      cf_Issuer cfg \<noteq> [] \<and> cf_HasStore cfg \<and> cf_HasKeyManager cfg)"

lemma applyDefaults_cases:
  "case config_applyDefaults rand_bytes cfg of
     Inl _ \<Rightarrow> \<not> config_complete rand_bytes cfg
   | Inr c \<Rightarrow>
       config_complete rand_bytes cfg \<and> length (cf_Secret c) = 32 \<and> cf_Issuer c = cf_Issuer cfg \<and> cf_Audience c \<noteq> [] \<and>
       cf_AccessTokenLifespan c \<noteq> 0 \<and> cf_RefreshTokenLifespan c \<noteq> 0 \<and> cf_AuthorizeCodeLifespan c \<noteq> 0 \<and> cf_IDTokenLifespan c \<noteq> 0 \<and>
       cf_AuditEmitter c \<noteq> None \<and> cf_AllowedScopes c = cf_AllowedScopes cfg \<and> cf_DefaultScopes c = cf_DefaultScopes cfg \<and>
       cf_MetadataDisabled c = cf_MetadataDisabled cfg \<and> cf_MetadataAllowLoopback c = cf_MetadataAllowLoopback cfg \<and>
       cf_MetadataCacheTTL c = cf_MetadataCacheTTL cfg \<and> cf_RefreshReplayWindow c = cf_RefreshReplayWindow cfg \<and>
       (cf_Audience cfg \<noteq> [] \<longrightarrow> cf_Audience c = cf_Audience cfg)"
proof -
  have d: "DefaultAccessTokenLifespan \<noteq> 0" "DefaultRefreshTokenLifespan \<noteq> 0" "time_Minute \<noteq> (0 :: int)" "time_Hour \<noteq> (0 :: int)"
    by (simp_all add: DefaultAccessTokenLifespan_def DefaultRefreshTokenLifespan_def time_defs)
  show ?thesis
    by (cases rand_bytes; cases "cf_AuditEmitter cfg")
       (auto simp: config_applyDefaults_def config_complete_def or_default_def bind_res_def Let_def d split: if_splits)
qed


end
