(* ===== verification/ExampleServer.thy ===== *)
theory ExampleServer
  imports McpServer Discovery ProviderSetup GoJson
begin

text \<open>
  The assembled server: the OAuth routes of a provider (\<^verbatim>\<open>RegisterRoutes\<close> of \<^verbatim>\<open>oauth/handlers.go\<close>) and the
  example that mounts discovery, OAuth and the protected MCP handler on one route table
  (\<^verbatim>\<open>_examples/minimal-server/main.go\<close>). The MCP SDK is a function of the options given to it, the engine
  and its token introspection are parameters.
\<close>

section \<open>Routes\<close>

text \<open>
  A route is the handler that serves it, with what it was built from: the OAuth handlers also
  take the engine and the stores, which a route table does not fix.
\<close>

datatype route =
    DiscoveryRoute handler
  | AuthorizeRoute Provider "Subject result"
  | TokenRoute Provider
  | RevokeRoute
  | RegisterRoute RegistrationConfig
  | McpRoute server

definition provider_RegisterRoutes :: "'e built_provider \<Rightarrow> string \<Rightarrow> Subject result \<Rightarrow> route gomap option \<Rightarrow> route gomap option" where
  "provider_RegisterRoutes p prefix0 resolve m =
     (let prefix = (if prefix0 = [] then ''/oauth'' else prefix0);
          m1 = mux_Handle (prefix @ ''/authorize'') (AuthorizeRoute (bp_fields p) resolve) m;
          m2 = mux_Handle (prefix @ ''/token'') (TokenRoute (bp_fields p)) m1;
          m3 = mux_Handle (prefix @ ''/revoke'') RevokeRoute m2
      in mux_Handle (prefix @ ''/register'') (RegisterRoute (RegisterHandler_config p)) m3)"

section \<open>The example\<close>

definition defaultIssuer :: string where "defaultIssuer = ''http://localhost:8080''"

definition issuerURL :: "(string \<Rightarrow> string) \<Rightarrow> string" where
  "issuerURL getenv =
     (let value = go_TrimRight (getenv ''MCP_KIT_EXAMPLE_ISSUER'') (CHR ''/'')
      in if value \<noteq> [] then value else defaultIssuer)"

definition listenAddr :: "(string \<Rightarrow> string) \<Rightarrow> string" where
  "listenAddr getenv =
     (let value = getenv ''MCP_KIT_EXAMPLE_ADDR'' in if value \<noteq> [] then value else '':8080'')"

text \<open>\<^verbatim>\<open>strings.EqualFold\<close> with an ASCII text: letters fold, and so do the two other characters with an ASCII lower case.\<close>

definition static_ValidateAndResolve :: pat_validate where
  "static_ValidateAndResolve rawToken =
     (if fold_name rawToken \<noteq> fold_name ''example-token'' then Inl (Plain ''invalid token'')
      else Inr (Some \<lparr>pr_UserID = ''example-user'', pr_TokenID = ''example-token'', pr_ScopeType = [], pr_ScopeTarget = [],
                      pr_Scopes = [''mcp.read'']\<rparr>))"

definition example_subject :: Subject where
  "example_subject = \<lparr>sj_ID = ''example-user'', sj_Email = ''example@example.com'', sj_GrantedScopes = [''openid'', ''mcp.read''], sj_Extra = []\<rparr>"

text \<open>What the example sets of the SDK's server and its HTTP handler: identity, the explicitly empty
  capabilities, versions, cache policy, tools and their results.\<close>

record sdk_options =
  so_Name :: string
  so_Version :: string
  so_Capabilities :: "string list option"
  so_SupportedProtocolVersions :: "string list"
  so_SetCacheable :: "Cacheable \<Rightarrow> Cacheable"
  so_Tools :: "(string \<times> string \<times> string) list"
  so_Stateless :: bool

definition example_sdk :: sdk_options where
  "example_sdk =
     \<lparr>so_Name = ''minimal-server'', so_Version = ''0.0.0-example'', so_Capabilities = Some [], so_SupportedProtocolVersions = [ProtocolVersion],
      so_SetCacheable = PrivateCache DefaultCacheTTL, so_Tools = [(''hello_world'', ''Return a greeting.'', ''hello world'')],
      so_Stateless = True\<rparr>"

definition example_config :: "string \<Rightarrow> Config" where
  "example_config issuer =
     \<lparr>cf_Secret = [], cf_Issuer = issuer, cf_Audience = issuer @ ''/mcp'', cf_HasStore = True, cf_HasKeyManager = True,
      cf_AllowedScopes = [''openid'', ''mcp.read''], cf_DefaultScopes = [], cf_AccessTokenLifespan = 0, cf_RefreshTokenLifespan = 0,
      cf_AuthorizeCodeLifespan = 0, cf_IDTokenLifespan = 0, cf_AuditEmitter = None, cf_RefreshReplayWindow = 0,
      cf_MetadataDisabled = False, cf_MetadataAllowLoopback = False, cf_MetadataCacheTTL = 0\<rparr>"

text \<open>
  The environment of the process: variables, key generation and its clock, random bytes, and the
  libraries. \<open>xe_introspect\<close> is token introspection of the engine.
\<close>

record ('k, 'p, 'e) example_env =
  xe_getenv :: "string \<Rightarrow> string"
  xe_codec :: "('k, 'p) key_codec"
  xe_keygen :: "'k keygen"
  xe_start :: gotime
  xe_rand :: "string result"
  xe_minEntropy :: int
  xe_compose :: "fositeConfig \<Rightarrow> fetcher option \<Rightarrow> (key_memory \<Rightarrow> 'k result) CommonStrategy \<Rightarrow> factory list \<Rightarrow> 'e"
  xe_introspect :: "'e \<Rightarrow> string \<Rightarrow> AccessRequester result"
  xe_encode :: "'p JSONWebKey list \<Rightarrow> json"
  xe_sdk :: "sdk_options \<Rightarrow> sdk_handler"
  xe_args_Has :: "string list \<Rightarrow> string \<Rightarrow> bool"
  xe_json :: json_lib

definition newExampleOAuth :: "('k, 'p, 'e) example_env \<Rightarrow> ('e built_provider \<times> key_memory) result" where
  "newExampleOAuth env =
     (case EnsureSigningKey memory_KeyStore (xe_codec env) (xe_keygen env) (xe_start env) NewMemoryStore_keys of
        (Inl err, _) \<Rightarrow> Inl err
      | (Inr _, ks) \<Rightarrow>
          (case provider_New memory_KeyStore (xe_codec env) (xe_minEntropy env) (xe_compose env) (xe_rand env)
                  (example_config (issuerURL (xe_getenv env))) of
             Inl err \<Rightarrow> Inl err
           | Inr p \<Rightarrow> Inr (p, ks)))"

definition example_bearer :: "(string \<Rightarrow> AccessRequester result) \<Rightarrow> string \<Rightarrow> string \<Rightarrow> BearerConfig" where
  "example_bearer introspect resourceURL metadataURL =
     \<lparr>bc_Introspector = Some introspect, bc_ResourceMetadataURL = metadataURL, bc_RequiredScopes = [''mcp.read''],
      bc_TokenValidator = Some static_ValidateAndResolve, bc_MaxUsageRecorders = 0, bc_AllowUnauthenticated = False,
      bc_ExpectedAudience = resourceURL\<rparr>"

definition example_mcp :: "('k, 'p, 'e) example_env \<Rightarrow> 'e built_provider \<Rightarrow> string \<Rightarrow> string \<Rightarrow> server_config" where
  "example_mcp env p resourceURL metadataURL =
     \<lparr>mc_Handler = Some (xe_sdk env example_sdk), mc_Bearer = example_bearer (xe_introspect env (OAuth2Provider p)) resourceURL metadataURL,
      mc_Validator = None, mc_AllowedOrigins = [''http://localhost:8080''], mc_AllowLoopback = True\<rparr>"

text \<open>
  The route table for requests at time \<open>now\<close>; the key store no longer changes once the server is built.
  The outer \<^term>\<open>None\<close> is a panic.
\<close>

definition newHandler :: "('k, 'p, 'e) example_env \<Rightarrow> gotime \<Rightarrow> route gomap result option" where
  "newHandler env now =
     (case newExampleOAuth env of
        Inl err \<Rightarrow> Some (Inl err)
      | Inr (oauthProvider, ks) \<Rightarrow>
          (let resourceURL = issuerURL (xe_getenv env) @ ''/mcp''
           in (case ProtectedResourceMetadataURLFor resourceURL of
                 Inl err \<Rightarrow> Some (Inl err)
               | Inr metadataURL \<Rightarrow>
                   (case server_New (xe_args_Has env) (xe_json env) (example_mcp env oauthProvider resourceURL metadataURL) of
                      None \<Rightarrow> None
                    | Some (Inl err) \<Rightarrow> Some (Inl err)
                    | Some (Inr kitServer) \<Rightarrow>
                        (let discovery = NewDiscoveryConfig (issuerURL (xe_getenv env)) [''mcp.read''];
                             routes = RegisterRoutes discovery
                               \<lparr>rc_ResourceURL = resourceURL, rc_ResourceName = [],
                                rc_JWKS = Some (JWKSHandler (xe_encode env) (JWKS memory_KeyStore (xe_codec env) now ks))\<rparr> [];
                             m1 = map_option (map (map_prod id DiscoveryRoute)) routes;
                             m2 = provider_RegisterRoutes oauthProvider ''/oauth'' (Inr example_subject) m1
                         in map_option Inr (mux_Handle ''/mcp'' (McpRoute kitServer) m2))))))"

section \<open>The assembled server\<close>

text \<open>What the example needs of its environment: a key pair, 32 random bytes, and an issuer that makes a resource URL.\<close>

definition example_ready :: "('k, 'p, 'e) example_env \<Rightarrow> bool" where
  "example_ready env =
     ((case generateSigningKey (xe_codec env) (xe_keygen env) (xe_start env) of Inl _ \<Rightarrow> False | Inr _ \<Rightarrow> True) \<and>
      (case xe_rand env of Inl _ \<Rightarrow> False | Inr bytes \<Rightarrow> length bytes = 32) \<and>
      (case ProtectedResourceMetadataURLFor (issuerURL (xe_getenv env) @ ''/mcp'') of Inl _ \<Rightarrow> False | Inr _ \<Rightarrow> True))"

lemma gm_get_map: "gm_get (map (map_prod id f) m) k = map_option f (gm_get m k)"
  by (induction m) (auto simp: gm_get_def)

lemma issuerURL_trimmed:
  "issuerURL getenv \<noteq> []" "go_TrimRight (issuerURL getenv) (CHR ''/'') = issuerURL getenv"
  by (auto simp: issuerURL_def go_TrimRight_def dropWhile_idem defaultIssuer_def Let_def)

lemma resource_trimmed: "go_TrimRight (i @ ''/mcp'') (CHR ''/'') = i @ ''/mcp''"
  by (simp add: go_TrimRight_def)

text \<open>The example's provider exists exactly when there is a key and a secret; its store then has an active key.\<close>

lemma newExampleOAuth_cases:
  "case newExampleOAuth env of
     Inl _ \<Rightarrow> \<not> example_ready env
   | Inr (p, ks) \<Rightarrow>
       (\<exists>key. generateSigningKey (xe_codec env) (xe_keygen env) (xe_start env) = Inr key \<and> FindActiveSigningKey ks = Inr key) \<and>
       (\<exists>bytes. xe_rand env = Inr bytes \<and> length bytes = 32) \<and>
       pv_issuer (bp_fields p) = issuerURL (xe_getenv env) \<and> pv_audience (bp_fields p) = issuerURL (xe_getenv env) @ ''/mcp'' \<and>
       rg_Audience (RegisterHandler_config p) = issuerURL (xe_getenv env) @ ''/mcp'' \<and>
       rg_AllowedScopes (RegisterHandler_config p) = [''openid'', ''mcp.read'']"
proof (cases "generateSigningKey (xe_codec env) (xe_keygen env) (xe_start env)")
  case (Inl e)
  then show ?thesis
    by (simp add: newExampleOAuth_def EnsureSigningKey_def memory_KeyStore_def NewMemoryStore_keys_def example_ready_def)
next
  case (Inr key)
  then have act: "sk_IsActive key" by (auto simp: generateSigningKey_def split: sum.splits)
  have ens: "EnsureSigningKey memory_KeyStore (xe_codec env) (xe_keygen env) (xe_start env) NewMemoryStore_keys = (Inr key, [key])"
    using Inr by (simp add: EnsureSigningKey_def memory_KeyStore_def NewMemoryStore_keys_def EnsureSigningKey_mem_def)
  let ?cfg = "example_config (issuerURL (xe_getenv env))"
  have complete: "config_complete (xe_rand env) ?cfg \<longleftrightarrow> (\<exists>bytes. xe_rand env = Inr bytes \<and> length bytes = 32)"
    using issuerURL_trimmed(1) by (simp add: config_complete_def example_config_def)
  show ?thesis
  proof (cases "config_applyDefaults (xe_rand env) ?cfg")
    case (Inl e)
    then have "\<not> config_complete (xe_rand env) ?cfg" using applyDefaults_cases [of "xe_rand env" ?cfg] by simp
    with Inl show ?thesis by (auto simp: newExampleOAuth_def ens provider_New_def complete example_ready_def split: sum.splits)
  next
    case (Inr c)
    with applyDefaults_cases [of "xe_rand env" ?cfg] complete act \<open>generateSigningKey _ _ _ = Inr key\<close> show ?thesis
      by (simp add: newExampleOAuth_def ens provider_New_def RegisterHandler_config_def) (simp add: example_config_def)
  qed
qed

text \<open>The four OAuth routes and the MCP route on a table that holds only well-known paths.\<close>

lemma example_table:
  assumes "\<And>k. \<not> go_HasPrefix k ''/.well-known/'' \<Longrightarrow> gm_get m k = None"
  obtains t where "mux_Handle ''/mcp'' (McpRoute srv)
      (provider_RegisterRoutes p ''/oauth'' resolve (Some (map (map_prod id DiscoveryRoute) m))) = Some t"
    "gm_get t ''/mcp'' = Some (McpRoute srv)" "gm_get t ''/oauth/authorize'' = Some (AuthorizeRoute (bp_fields p) resolve)"
    "gm_get t ''/oauth/token'' = Some (TokenRoute (bp_fields p))" "gm_get t ''/oauth/revoke'' = Some RevokeRoute"
    "gm_get t ''/oauth/register'' = Some (RegisterRoute (RegisterHandler_config p))"
    "\<And>k h. gm_get m k = Some h \<Longrightarrow> gm_get t k = Some (DiscoveryRoute h)"
proof -
  have free: "gm_get m ''/mcp'' = None" "gm_get m ''/oauth/authorize'' = None" "gm_get m ''/oauth/token'' = None"
    "gm_get m ''/oauth/revoke'' = None" "gm_get m ''/oauth/register'' = None"
    by (rule assms, simp add: go_HasPrefix_def)+
  let ?t = "gm_put ''/mcp'' (McpRoute srv) (gm_put ''/oauth/register'' (RegisterRoute (RegisterHandler_config p))
      (gm_put ''/oauth/revoke'' RevokeRoute (gm_put ''/oauth/token'' (TokenRoute (bp_fields p))
        (gm_put ''/oauth/authorize'' (AuthorizeRoute (bp_fields p) resolve) (map (map_prod id DiscoveryRoute) m)))))"
  show thesis
  proof (rule that)
    show "mux_Handle ''/mcp'' (McpRoute srv)
        (provider_RegisterRoutes p ''/oauth'' resolve (Some (map (map_prod id DiscoveryRoute) m))) = Some ?t"
      using free by (simp add: provider_RegisterRoutes_def gm_get_map)
    show "gm_get ?t k = Some (DiscoveryRoute h)" if "gm_get m k = Some h" for k h
    proof -
      have "k \<noteq> ''/mcp''" "k \<noteq> ''/oauth/authorize''" "k \<noteq> ''/oauth/token''" "k \<noteq> ''/oauth/revoke''" "k \<noteq> ''/oauth/register''"
        using free that by auto
      with that show ?thesis by (simp add: gm_get_map)
    qed
  qed simp_all
qed

text \<open>The MCP server of the example refuses a request without any header and names its metadata URL.\<close>

lemma example_refuses:
  "\<exists>srv. server_New (xe_args_Has env) (xe_json env) (example_mcp env p resourceURL url) = Some (Inr srv) \<and>
     srv now stream \<lparr>r_Method = meth, r_Header = [], r_Ctx = ctx\<rparr> (u, w) = (u, writeBearerChallenge url ''mcp.read'' 401 w)"
proof -
  have b: "server_bearer (example_mcp env p resourceURL url) = example_bearer (xe_introspect env (OAuth2Provider p)) resourceURL url"
    by (simp add: server_bearer_def example_mcp_def example_bearer_def)
  have h: "header_Get [] k = []" for k by (simp add: header_Get_def gm_get_def)
  then have tok: "extractBearerToken \<lparr>r_Method = meth, r_Header = [], r_Ctx = ctx\<rparr> = []" by (simp add: extractBearerToken_def)
  have hint: "challengeScopeHint [''mcp.read''] = ''mcp.read''" by code_simp
  have cap: "usage_capacity (example_bearer i resourceURL url) = Some 32" for i by (simp add: usage_capacity_def example_bearer_def)
  have "Bearer (xe_args_Has env) (example_bearer i resourceURL url) 32 now n \<lparr>r_Method = meth, r_Header = [], r_Ctx = ctx\<rparr> (u, w) =
      (u, writeBearerChallenge url ''mcp.read'' 401 w)" for i n
    using tok hint by (simp add: Bearer_def example_bearer_def StatusUnauthorized_def)
  then have "Origin oc (Bearer (xe_args_Has env) (example_bearer i resourceURL url) 32 now n) \<lparr>r_Method = meth, r_Header = [], r_Ctx = ctx\<rparr> (u, w) =
      (u, writeBearerChallenge url ''mcp.read'' 401 w)" for oc i n
    by (simp add: Origin_def h)
  moreover have "mc_Handler (example_mcp env p resourceURL url) = Some (xe_sdk env example_sdk)" by (simp add: example_mcp_def)
  ultimately show ?thesis by (simp add: server_New_def b cap)
qed

text \<open>The documents of the example's discovery configuration.\<close>

lemma example_documents:
  fixes i :: string and cfg :: RouteConfig
  assumes "go_TrimRight i (CHR ''/'') = i" "rc_ResourceName cfg = []"
  shows "ProtectedResourceHandler (route_config (NewDiscoveryConfig i scopes) cfg) (i @ ''/mcp'') =
      jsonHandler (protectedResourceMetadata (i @ ''/mcp'') [] [i] scopes)"
    and "gm_get (AuthorizationServerMetadata (route_config (NewDiscoveryConfig i scopes) cfg)) ''issuer'' = Some (JStr i)"
    and "gm_get (AuthorizationServerMetadata (route_config (NewDiscoveryConfig i scopes) cfg)) ''authorization_endpoint'' = Some (JStr (i @ ''/oauth/authorize''))"
    and "gm_get (AuthorizationServerMetadata (route_config (NewDiscoveryConfig i scopes) cfg)) ''token_endpoint'' = Some (JStr (i @ ''/oauth/token''))"
    and "gm_get (AuthorizationServerMetadata (route_config (NewDiscoveryConfig i scopes) cfg)) ''revocation_endpoint'' = Some (JStr (i @ ''/oauth/revoke''))"
    and "gm_get (AuthorizationServerMetadata (route_config (NewDiscoveryConfig i scopes) cfg)) ''registration_endpoint'' = Some (JStr (i @ ''/oauth/register''))"
proof -
  let ?d = "route_config (NewDiscoveryConfig i scopes) cfg"
  have rc: "dc_Issuer ?d = i" "dc_ResourceName ?d = []" "dc_ScopesSupported ?d = scopes" "dc_AuthorizationEndpoint ?d = i @ ''/oauth/authorize''"
    "dc_TokenEndpoint ?d = i @ ''/oauth/token''" "dc_RevocationEndpoint ?d = i @ ''/oauth/revoke''" "dc_RegistrationEndpoint ?d = i @ ''/oauth/register''"
    using assms by (simp_all add: route_config_def NewDiscoveryConfig_def Let_def split: sum.splits)
  show "ProtectedResourceHandler ?d (i @ ''/mcp'') = jsonHandler (protectedResourceMetadata (i @ ''/mcp'') [] [i] scopes)"
    by (simp add: ProtectedResourceHandler_def discovery_ProtectedResourceMetadata_def resource_trimmed rc)
qed (use assms in \<open>simp_all add: AuthorizationServerMetadata_def gm_get_OpenIDConfiguration route_config_def NewDiscoveryConfig_def Let_def split: sum.splits\<close>)

text \<open>Without an issuer in its environment the example uses its default one, which gives a resource URL.\<close>

lemma default_issuer_ready:
  assumes "xe_getenv env ''MCP_KIT_EXAMPLE_ISSUER'' = []" "xe_rand env = Inr bytes" "length bytes = 32"
    and "generateSigningKey (xe_codec env) (xe_keygen env) (xe_start env) = Inr key"
  shows "example_ready env"
proof -
  have "issuerURL (xe_getenv env) @ ''/mcp'' = ''http://localhost:8080/mcp''"
    using assms(1) by (simp add: issuerURL_def go_TrimRight_def defaultIssuer_def)
  moreover have "ProtectedResourceMetadataURLFor ''http://localhost:8080/mcp'' = Inr ''http://localhost:8080/.well-known/oauth-protected-resource/mcp''"
    by code_simp
  ultimately show ?thesis using assms(2-4) by (simp add: example_ready_def)
qed

text \<open>
  C28 (the assembled server). Building the example's handler never panics, and it succeeds exactly when a
  key pair and 32 random bytes can be made and the issuer gives a resource URL. A request without
  credentials to \<^verbatim>\<open>/mcp\<close> is then refused with a challenge that names a URL whose path is routed to the
  metadata of this very resource and its issuer; the authorization server metadata is routed and every
  OAuth endpoint it names is the issuer followed by a path that is routed to that endpoint's handler;
  the key set is served from the store that holds the active signing key; and the
  audience of the provider and of registered clients is the one the bearer check expects.\<close>

theorem example_server_assembled:
  "case newHandler env now of
     None \<Rightarrow> False
   | Some (Inl _) \<Rightarrow> \<not> example_ready env
   | Some (Inr t) \<Rightarrow> example_ready env \<and>
       (\<exists>p ks key parsed path srv doc.
          let issuer = issuerURL (xe_getenv env); resource = issuer @ ''/mcp''; url = u_Scheme parsed @ ''://'' @ u_Host parsed @ path
          in newExampleOAuth env = Inr (p, ks) \<and> FindActiveSigningKey ks = Inr key \<and>
             gm_get t ''/.well-known/jwks.json'' = Some (DiscoveryRoute (JWKSHandler (xe_encode env) (JWKS memory_KeyStore (xe_codec env) now ks))) \<and>
             url_Parse (go_TrimSpace resource) = Inr parsed \<and>
             gm_get t path = Some (DiscoveryRoute (jsonHandler (protectedResourceMetadata resource [] [issuer] [''mcp.read'']))) \<and>
             gm_get t ''/mcp'' = Some (McpRoute srv) \<and>
             srv now stream \<lparr>r_Method = meth, r_Header = [], r_Ctx = ctx\<rparr> (u, w) = (u, writeBearerChallenge url ''mcp.read'' 401 w) \<and>
             server_New (xe_args_Has env) (xe_json env) (example_mcp env p resource url) = Some (Inr srv) \<and>
             bc_ExpectedAudience (mc_Bearer (example_mcp env p resource url)) = pv_audience (bp_fields p) \<and>
             gm_get t ''/.well-known/oauth-authorization-server'' = Some (DiscoveryRoute (jsonHandler (json_of_map doc))) \<and>
             gm_get doc ''issuer'' = Some (JStr (pv_issuer (bp_fields p))) \<and>
             gm_get doc ''authorization_endpoint'' = Some (JStr (issuer @ ''/oauth/authorize'')) \<and>
             gm_get t ''/oauth/authorize'' = Some (AuthorizeRoute (bp_fields p) (Inr example_subject)) \<and>
             gm_get doc ''token_endpoint'' = Some (JStr (issuer @ ''/oauth/token'')) \<and>
             gm_get t ''/oauth/token'' = Some (TokenRoute (bp_fields p)) \<and>
             gm_get doc ''revocation_endpoint'' = Some (JStr (issuer @ ''/oauth/revoke'')) \<and>
             gm_get t ''/oauth/revoke'' = Some RevokeRoute \<and>
             gm_get doc ''registration_endpoint'' = Some (JStr (issuer @ ''/oauth/register'')) \<and>
             (\<exists>reg. gm_get t ''/oauth/register'' = Some (RegisterRoute reg) \<and> rg_Audience reg = pv_audience (bp_fields p)))"
proof (cases "newExampleOAuth env")
  case (Inl e)
  with newExampleOAuth_cases [of env] show ?thesis by (simp add: newHandler_def)
next
  case (Inr pk)
  obtain p ks where pk: "pk = (p, ks)" by fastforce
  let ?i = "issuerURL (xe_getenv env)"
  let ?cfg = "\<lparr>rc_ResourceURL = ?i @ ''/mcp'', rc_ResourceName = [],
      rc_JWKS = Some (JWKSHandler (xe_encode env) (JWKS memory_KeyStore (xe_codec env) now ks))\<rparr>"
  let ?d = "NewDiscoveryConfig ?i [''mcp.read'']"
  note oauth = newExampleOAuth_cases [of env, unfolded Inr pk, simplified]
  have res: "route_resource ?d ?cfg = ?i @ ''/mcp''" by (simp add: route_resource_def resource_trimmed)
  show ?thesis
  proof (cases "ProtectedResourceMetadataURLFor (?i @ ''/mcp'')")
    case (Inl e)
    with Inr pk show ?thesis by (simp add: newHandler_def Let_def example_ready_def)
  next
    case url: (Inr url)
    then obtain parsed path where p: "url_Parse (go_TrimSpace (?i @ ''/mcp'')) = Inr parsed"
        "ProtectedResourceMetadataPathFor (route_resource ?d ?cfg) = Inr path" "url = u_Scheme parsed @ ''://'' @ u_Host parsed @ path"
      by (auto simp: ProtectedResourceMetadataURLFor_def res split: sum.splits)
    obtain m where m: "RegisterRoutes ?d ?cfg [] = Some m"
      "gm_get m path = Some (ProtectedResourceHandler (route_config ?d ?cfg) (?i @ ''/mcp''))"
      "gm_get m ''/.well-known/oauth-authorization-server'' = Some (AuthorizationServerHandler (route_config ?d ?cfg))"
      "gm_get m ''/.well-known/jwks.json'' = Some (JWKSHandler (xe_encode env) (JWKS memory_KeyStore (xe_codec env) now ks))"
      and free: "\<And>k. \<not> go_HasPrefix k ''/.well-known/'' \<Longrightarrow> gm_get m k = None"
      by (rule RegisterRoutes_table [OF p(2), unfolded res]) simp
    obtain srv where srv: "server_New (xe_args_Has env) (xe_json env) (example_mcp env p (?i @ ''/mcp'') url) = Some (Inr srv)"
      "srv now stream \<lparr>r_Method = meth, r_Header = [], r_Ctx = ctx\<rparr> (u, w) = (u, writeBearerChallenge url ''mcp.read'' 401 w)"
      using example_refuses by blast
    obtain t where t: "mux_Handle ''/mcp'' (McpRoute srv)
        (provider_RegisterRoutes p ''/oauth'' (Inr example_subject) (Some (map (map_prod id DiscoveryRoute) m))) = Some t"
      and get: "gm_get t ''/mcp'' = Some (McpRoute srv)" "gm_get t ''/oauth/authorize'' = Some (AuthorizeRoute (bp_fields p) (Inr example_subject))"
        "gm_get t ''/oauth/token'' = Some (TokenRoute (bp_fields p))" "gm_get t ''/oauth/revoke'' = Some RevokeRoute"
        "gm_get t ''/oauth/register'' = Some (RegisterRoute (RegisterHandler_config p))"
      and lift: "\<And>k h. gm_get m k = Some h \<Longrightarrow> gm_get t k = Some (DiscoveryRoute h)"
      by (rule example_table [OF free, of srv p "Inr example_subject"]) blast+
    have handler: "newHandler env now = Some (Inr t)" using Inr pk url srv m(1) t by (simp add: newHandler_def Let_def)
    note docs = example_documents [OF issuerURL_trimmed(2), of ?cfg, simplified]
    have meta: "gm_get t path = Some (DiscoveryRoute (jsonHandler (protectedResourceMetadata (?i @ ''/mcp'') [] [?i] [''mcp.read''])))"
      using lift [OF m(2)] by (simp only: docs)
    obtain key where key: "FindActiveSigningKey ks = Inr key" using oauth by blast
    have ready: "example_ready env" using oauth url by (auto simp: example_ready_def)
    have aud: "bc_ExpectedAudience (mc_Bearer (example_mcp env p (?i @ ''/mcp'') url)) = pv_audience (bp_fields p)"
      "rg_Audience (RegisterHandler_config p) = pv_audience (bp_fields p)"
      using oauth by (simp_all add: example_mcp_def example_bearer_def)
    let ?doc = "AuthorizationServerMetadata (route_config ?d ?cfg)"
    have iss: "gm_get ?doc ''issuer'' = Some (JStr (pv_issuer (bp_fields p)))" using oauth by (simp only: docs)
    note facts = Inr [unfolded pk] key lift [OF m(4)] p(1) meta get srv [unfolded p(3)] aud [unfolded p(3)] iss docs(3-6)
      lift [OF m(3), unfolded AuthorizationServerHandler_def]
    show ?thesis
      unfolding handler option.case sum.case Let_def
      by (intro conjI ready exI [of _ p] exI [of _ ks] exI [of _ key] exI [of _ parsed] exI [of _ path] exI [of _ srv]
          exI [of _ ?doc] exI [of _ "RegisterHandler_config p"]) (rule facts)+
  qed
qed

end
