(* ===== verification/TestKit.thy ===== *)
theory TestKit
  imports McpServer GoJson LoginClassify
begin

text \<open>
  The test support package that consumers use (\<^verbatim>\<open>testkit/token.go\<close>, \<^verbatim>\<open>testkit/userstore.go\<close>,
  \<^verbatim>\<open>testkit/server.go\<close>, \<^verbatim>\<open>testkit/discover.go\<close>, \<^verbatim>\<open>testkit/coverage.go\<close>, \<^verbatim>\<open>testkit/util.go\<close>) and the permissive
  authorization stub (\<^verbatim>\<open>authz/authz.go\<close>). HMAC is a parameter; random bytes and clock readings are
  arguments, and a failed test is an error.
\<close>

section \<open>Tokens\<close>

definition testTokenKey :: string where "testTokenKey = ''mcp-kit-test-token-key-v1''"

record tokenClaims =
  tc_UserID :: string
  tc_TokenID :: string
  tc_Scopes :: "string list"
  tc_ExpiresAt :: int

definition claims_tree :: "tokenClaims \<Rightarrow> jtree" where
  "claims_tree c =
     TObj [(''uid'', json_string (tc_UserID c)), (''tid'', json_string (tc_TokenID c)),
           (''scp'', TArr (map json_string (tc_Scopes c))), (''exp'', TNum (FormatInt (tc_ExpiresAt c)))]"

definition claims_field :: "string \<Rightarrow> jtree \<Rightarrow> tokenClaims \<Rightarrow> tokenClaims result" where
  "claims_field k t c =
     (if is_field ''uid'' k then map_sum id (\<lambda>s. c\<lparr>tc_UserID := s\<rparr>) (dec_string t (tc_UserID c))
      else if is_field ''tid'' k then map_sum id (\<lambda>s. c\<lparr>tc_TokenID := s\<rparr>) (dec_string t (tc_TokenID c))
      else if is_field ''scp'' k then map_sum id (\<lambda>ss. c\<lparr>tc_Scopes := ss\<rparr>) (dec_strings t)
      else if is_field ''exp'' k then map_sum id (\<lambda>n. c\<lparr>tc_ExpiresAt := n\<rparr>) (dec_int t (tc_ExpiresAt c))
      else Inr c)"

definition decode_claims :: "string \<Rightarrow> tokenClaims result" where
  "decode_claims payload =
     (case json_parse payload of
        Inl err \<Rightarrow> Inl err
      | Inr t \<Rightarrow> dec_struct claims_field t \<lparr>tc_UserID = [], tc_TokenID = [], tc_Scopes = [], tc_ExpiresAt = 0\<rparr>)"

definition randomID :: "string result \<Rightarrow> string result" where
  "randomID rand = (case rand of Inl err \<Rightarrow> Inl (Wrap ''generate random ID'' err) | Inr buf \<Rightarrow> Inr (RawURL_EncodeToString buf))"

definition MintToken :: "(string \<Rightarrow> string \<Rightarrow> string) \<Rightarrow> gotime \<Rightarrow> string result \<Rightarrow> string list \<Rightarrow> string result" where
  "MintToken hmac now rand scopes0 =
     (let scopes = (if scopes0 = [] then [''mcp.read''] else scopes0)
      in (case randomID rand of
            Inl err \<Rightarrow> Inl err
          | Inr tokenID \<Rightarrow>
              (let claims = \<lparr>tc_UserID = ''test-user'', tc_TokenID = tokenID, tc_Scopes = scopes,
                             tc_ExpiresAt = time_Unix (time_Add now time_Hour)\<rparr>;
                   body = RawURL_EncodeToString (compact (claims_tree claims));
                   sig = RawURL_EncodeToString (hmac testTokenKey body)
               in Inr (body @ ''.'' @ sig))))"

definition parseToken :: "(string \<Rightarrow> string \<Rightarrow> string) \<Rightarrow> string \<Rightarrow> tokenClaims result" where
  "parseToken hmac rawToken =
     (case go_Cut rawToken (CHR ''.'') of
        None \<Rightarrow> Inl (Plain ''invalid test token'')
      | Some (body, sig) \<Rightarrow>
          (let want = hmac testTokenKey body
           in (case RawURL_DecodeString sig of
                 Inl _ \<Rightarrow> Inl (Plain ''invalid test token signature'')
               | Inr got \<Rightarrow>
                   if got \<noteq> want then Inl (Plain ''invalid test token signature'')
                   else (case RawURL_DecodeString body of
                           Inl _ \<Rightarrow> Inl (Plain ''invalid test token payload'')
                         | Inr payload \<Rightarrow>
                             (case decode_claims payload of
                                Inl _ \<Rightarrow> Inl (Plain ''invalid test token claims'')
                              | Inr claims \<Rightarrow> Inr claims)))))"

definition tokenValidator_ValidateAndResolve :: "(string \<Rightarrow> string \<Rightarrow> string) \<Rightarrow> gotime \<Rightarrow> pat_validate" where
  "tokenValidator_ValidateAndResolve hmac now rawToken =
     (case parseToken hmac rawToken of
        Inl err \<Rightarrow> Inl err
      | Inr claims \<Rightarrow>
          if time_Unix now \<ge> tc_ExpiresAt claims then Inl (Plain ''test token expired'')
          else Inr (Some \<lparr>pr_UserID = tc_UserID claims, pr_TokenID = tc_TokenID claims, pr_ScopeType = [], pr_ScopeTarget = [],
                          pr_Scopes = tc_Scopes claims\<rparr>))"

section \<open>The in-memory user store\<close>

record User =
  us_ID :: string
  us_Email :: string
  us_PasswordHash :: string
  us_Active :: bool
  us_Scopes :: "string list"

record UserStore =
  ut_byID :: "User gomap"
  ut_byEmail :: "string gomap"

definition user_Add :: "User \<Rightarrow> UserStore \<Rightarrow> UserStore" where
  "user_Add user s =
     s\<lparr>ut_byID := gm_put (us_ID user) user (ut_byID s), ut_byEmail := gm_put (go_ToLower (us_Email user)) (us_ID user) (ut_byEmail s)\<rparr>"

definition NewUserStore :: "string \<Rightarrow> string list \<Rightarrow> UserStore" where
  "NewUserStore uuid scopes0 =
     (let scopes = (if scopes0 = [] then [''mcp.read''] else scopes0);
          user = \<lparr>us_ID = uuid, us_Email = ''test@example.com'', us_PasswordHash = [], us_Active = True, us_Scopes = scopes\<rparr>
      in user_Add user \<lparr>ut_byID = [], ut_byEmail = []\<rparr>)"

definition zero_User :: User where
  "zero_User = \<lparr>us_ID = replicate 16 (CHR 0x00), us_Email = [], us_PasswordHash = [], us_Active = False, us_Scopes = []\<rparr>"

definition user_FindByEmail :: "string \<Rightarrow> UserStore \<Rightarrow> User result" where
  "user_FindByEmail email s =
     (case gm_get (ut_byEmail s) (go_ToLower email) of
        None \<Rightarrow> Inl (Sentinel ErrNotFound)
      | Some uid \<Rightarrow> Inr (case gm_get (ut_byID s) uid of Some u \<Rightarrow> u | None \<Rightarrow> zero_User))"

definition user_FindByID :: "string \<Rightarrow> UserStore \<Rightarrow> User result" where
  "user_FindByID uid s = (case gm_get (ut_byID s) uid of None \<Rightarrow> Inl (Sentinel ErrNotFound) | Some u \<Rightarrow> Inr u)"

section \<open>The test server, responses and checklists\<close>

definition testkit_config :: "(string \<Rightarrow> string \<Rightarrow> string) \<Rightarrow> gotime \<Rightarrow> sdk_handler \<Rightarrow> server_config" where
  "testkit_config hmac now sdk =
     \<lparr>mc_Handler = Some sdk,
      mc_Bearer = \<lparr>bc_Introspector = None, bc_ResourceMetadataURL = [], bc_RequiredScopes = [],
                   bc_TokenValidator = Some (tokenValidator_ValidateAndResolve hmac now), bc_MaxUsageRecorders = 0,
                   bc_AllowUnauthenticated = False, bc_ExpectedAudience = []\<rparr>,
      mc_Validator = None, mc_AllowedOrigins = [], mc_AllowLoopback = True\<rparr>"

record Wire =
  wi_StatusCode :: int
  wi_Header :: header
  wi_Body :: string

definition trim_cr :: "string \<Rightarrow> string" where
  "trim_cr line = (if line \<noteq> [] \<and> last line = CHR 0x0D then butlast line else line)"

fun sse_data :: "string list \<Rightarrow> string list" where
  "sse_data [] = []"
| "sse_data (line # ls) =
     (case go_CutPrefix (trim_cr line) ''data:'' of
        None \<Rightarrow> sse_data ls
      | Some v \<Rightarrow> go_TrimSpace v # sse_data ls)"

definition wire_JSON :: "Wire \<Rightarrow> string" where
  "wire_JSON w =
     (if \<not> go_HasPrefix (header_Get (wi_Header w) ''Content-Type'') ''text/event-stream'' then wi_Body w
      else go_Join (sse_data (go_Split (wi_Body w) (CHR 0x0A))) [CHR 0x0A])"

definition AssertChecklistCoverage :: "string list \<Rightarrow> string list \<Rightarrow> goerr option" where
  "AssertChecklistCoverage registered checklist =
     (case find (\<lambda>want. want \<notin> set registered) checklist of
        None \<Rightarrow> None
      | Some want \<Rightarrow> Some (Plain (''checklist item '' @ go_Quote want @ '' is not registered; registered=['' @ go_Join registered '' '' @ '']'')))"

section \<open>The authorization stub\<close>

definition ErrForbidden :: string where "ErrForbidden = ''authz: forbidden''"

definition AlwaysAllow_Check :: "string \<Rightarrow> string \<Rightarrow> goerr option" where
  "AlwaysAllow_Check userID permission = None"

section \<open>A minted token is accepted\<close>

lemma claim_names [simp]:
  "unquote ''uid'' = ''uid''" "unquote ''tid'' = ''tid''" "unquote ''scp'' = ''scp''" "unquote ''exp'' = ''exp''"
  "body_ok ''uid''" "body_ok ''tid''" "body_ok ''scp''" "body_ok ''exp''"
  by (rule plain_unquote plain_body, simp add: bs_def)+

lemma claims_roundtrip:
  assumes "in_int64 (tc_ExpiresAt c)" "utf8_valid (tc_UserID c)" "utf8_valid (tc_TokenID c)" "\<forall>s \<in> set (tc_Scopes c). utf8_valid s"
  shows "decode_claims (compact (claims_tree c)) = Inr c"
proof -
  have "map utf8_clean (tc_Scopes c) = tc_Scopes c" using assms(4) by (simp add: utf8_valid_def map_idI)
  moreover have "tree_ok (claims_tree c)" by (simp add: claims_tree_def FormatInt_number)
  moreover have "tree_depth (claims_tree c) \<le> 10000"
  proof -
    have "(\<lambda>x. 0 :: nat) ` set (tc_Scopes c) \<subseteq> {0}" by auto
    then have "Max (insert 0 ((\<lambda>x. 0 :: nat) ` set (tc_Scopes c))) = 0" by (intro Max_eqI) auto
    then show ?thesis by (simp add: claims_tree_def json_string_def)
  qed
  ultimately show ?thesis using assms(1-3)
    by (cases c) (simp add: decode_claims_def json_parse_compact, simp add: claims_tree_def dec_struct_def claims_field_def is_field_def lower_char_def dec_int_def
        ParseInt64_FormatInt utf8_valid_def)
qed

text \<open>What a mint puts into the token.\<close>

lemma minted_parses:
  assumes "MintToken hmac now rand scopes = Inr tok" "in_int64 (time_Unix (time_Add now time_Hour))" "\<forall>s \<in> set scopes. utf8_valid s"
  shows "\<exists>buf. rand = Inr buf \<and> parseToken hmac tok =
    Inr \<lparr>tc_UserID = ''test-user'', tc_TokenID = RawURL_EncodeToString buf, tc_Scopes = (if scopes = [] then [''mcp.read''] else scopes),
         tc_ExpiresAt = time_Unix (time_Add now time_Hour)\<rparr>"
proof -
  from assms(1) obtain buf where buf: "rand = Inr buf" by (auto simp: MintToken_def randomID_def Let_def split: sum.splits)
  let ?c = "\<lparr>tc_UserID = ''test-user'', tc_TokenID = RawURL_EncodeToString buf, tc_Scopes = (if scopes = [] then [''mcp.read''] else scopes),
         tc_ExpiresAt = time_Unix (time_Add now time_Hour)\<rparr>"
  let ?b = "RawURL_EncodeToString (compact (claims_tree ?c))"
  have tok: "tok = ?b @ CHR ''.'' # RawURL_EncodeToString (hmac testTokenKey ?b)"
    using assms(1) buf by (simp add: MintToken_def randomID_def Let_def)
  have cut: "go_Cut tok (CHR ''.'') = Some (?b, RawURL_EncodeToString (hmac testTokenKey ?b))"
    unfolding tok by (rule go_Cut_append) (use RawURL_graph(3) in blast)
  note RawURL_valid [of buf]
  moreover have "utf8_valid ''mcp.read''" "utf8_valid ''test-user''" by (rule ascii_valid, simp)+
  ultimately have "decode_claims (compact (claims_tree ?c)) = Inr ?c" using assms(2,3) by (intro claims_roundtrip) auto
  with cut buf show ?thesis by (simp add: parseToken_def Let_def)
qed

lemma minted_no_blank:
  assumes "MintToken hmac now rand scopes = Inr tok"
  shows "tok \<noteq> []" "go_TrimSpace tok = tok"
proof -
  from assms obtain b g where t: "tok = RawURL_EncodeToString b @ CHR ''.'' # RawURL_EncodeToString g"
    by (auto simp: MintToken_def Let_def split: sum.splits)
  have "graph_char c" if "c \<in> set tok" for c
  proof (cases "c = CHR ''.''")
    case False
    with that t obtain x where "c \<in> set (RawURL_EncodeToString x)" by auto
    from RawURL_graph(1,2) [OF this] show ?thesis by (simp add: graph_char_def)
  qed (simp add: graph_char_def)
  moreover show "tok \<noteq> []" by (simp add: t)
  ultimately show "go_TrimSpace tok = tok" by simp
qed

text \<open>
  A minted token opens the test server until it expires. The server of the test package admits a
  request without Origin that carries a token minted before, for as long as its hour lasts in whole
  seconds, and shows the SDK handler the test user with exactly the minted scopes; after that the same
  request is answered 401.\<close>

lemma minted_token_admitted:
  assumes "MintToken hmac minted rand scopes = Inr tok" "\<forall>s \<in> set scopes. utf8_valid s"
    and "in_int64 (time_Unix (time_Add minted time_Hour))"
    and "header_Get (r_Header r) ''Origin'' = []" "header_Get (r_Header r) ''Authorization'' = ''Bearer '' @ tok"
    and "unsent w"
  shows "\<exists>srv. server_New args_Has js (testkit_config hmac now sdk) = Some (Inr srv) \<and>
    (if time_Unix now < time_Unix (time_Add minted time_Hour)
     then \<exists>u' ctx. srv now stream r (u, w) = (u', envelope js sdk stream (r_WithContext r ctx) w) \<and>
            GetUserID ctx = ''test-user'' \<and> GetScopes ctx = (if scopes = [] then [''mcp.read''] else scopes) \<and>
            cx_auth_disabled ctx = cx_auth_disabled (r_Ctx r)
     else w_status (snd (srv now stream r (u, w))) = 401)"
proof -
  let ?cfg = "testkit_config hmac now sdk"
  obtain srv where srv: "server_New args_Has js ?cfg = Some (Inr srv)"
    "srv = (\<lambda>now stream. Origin \<lparr>oc_Allowed = [], oc_AllowLoopback = True, oc_OnDeny = None\<rparr>
       (Bearer args_Has (server_bearer ?cfg) 32 now (envelope js sdk stream)))"
    by (simp add: server_New_def testkit_config_def server_bearer_def usage_capacity_def)
  obtain buf where p: "parseToken hmac tok =
    Inr \<lparr>tc_UserID = ''test-user'', tc_TokenID = RawURL_EncodeToString buf, tc_Scopes = (if scopes = [] then [''mcp.read''] else scopes),
         tc_ExpiresAt = time_Unix (time_Add minted time_Hour)\<rparr>"
    using minted_parses [OF assms(1,3,2)] by blast
  have tk: "extractBearerToken r = tok" "tok \<noteq> []"
    using minted_no_blank [OF assms(1)] assms(5) by (simp_all add: extractBearerToken_def go_EqualFold_def)
  have v: "bc_TokenValidator (server_bearer ?cfg) = Some (tokenValidator_ValidateAndResolve hmac now)" "bc_Introspector (server_bearer ?cfg) = None"
    by (simp_all add: server_bearer_def testkit_config_def)
  have "srv now stream r (u, w) = Bearer args_Has (server_bearer ?cfg) 32 now (envelope js sdk stream) r (u, w)"
    using assms(4) by (simp add: srv(2) Origin_def)
  then have b: "srv now stream r (u, w) =
      (case validatePAT (tokenValidator_ValidateAndResolve hmac now) tok of
         Some result \<Rightarrow> (recordPATUsage (pr_TokenID result) 32 u, envelope js sdk stream (r_WithContext r (contextWithPAT (r_Ctx r) result)) w)
       | None \<Rightarrow> (u, writeBearerChallenge (bc_ResourceMetadataURL (server_bearer ?cfg))
                        (challengeScopeHint (bc_RequiredScopes (server_bearer ?cfg))) StatusUnauthorized w))"
    by (simp add: Bearer_def tk v split: option.splits)
  have "w_status (writeBearerChallenge url sc StatusUnauthorized w) = 401" for url sc
    using writeBearerChallenge_unsent(1) [OF assms(6), of StatusUnauthorized url sc] by (simp add: StatusUnauthorized_def)
  with srv(1) b p show ?thesis
    by (auto simp: validatePAT_def tokenValidator_ValidateAndResolve_def contextWithPAT_def WithScopes_def GetUserID_def GetScopes_def ctx_string_def)
qed

definition sample_bearer :: "string \<Rightarrow> http_request" where
  "sample_bearer tok = \<lparr>r_Method = ''POST'', r_Header = [(''Authorization'', [''Bearer '' @ tok])], r_Ctx = context_Background\<rparr>"

lemma minted_token_expires_sample:
  "\<exists>tok srv. MintToken (\<lambda>k m. k) 0 (Inr ''0123456789abcdef'') [] = Inr tok \<and>
     server_New ex_has sample_json (testkit_config (\<lambda>k m. k) 3600000000000 sample_sdk) = Some (Inr srv) \<and>
     w_status (snd (srv 3600000000000 \<lparr>rs_bytes = [], rs_err = None\<rparr> (sample_bearer tok) ([], new_writer))) = 401"
proof -
  obtain tok where t: "MintToken (\<lambda>k m. k) 0 (Inr ''0123456789abcdef'') [] = Inr tok" by (simp add: MintToken_def randomID_def Let_def)
  have k: "canonical_key ''Origin'' = ''Origin''" "canonical_key ''Authorization'' = ''Authorization''" by code_simp+
  have "header_Get (r_Header (sample_bearer tok)) ''Origin'' = []" "header_Get (r_Header (sample_bearer tok)) ''Authorization'' = ''Bearer '' @ tok"
    by (simp_all add: sample_bearer_def header_Get_def k gm_get_def)
  from minted_token_admitted [OF t _ _ this unsent_new, where args_Has = ex_has and js = sample_json and sdk = sample_sdk and now = 3600000000000
      and stream = "\<lparr>rs_bytes = [], rs_err = None\<rparr>" and u = "[]"] t show ?thesis
    by (auto simp: time_Unix_def time_Add_def time_defs in_int64_def wrap64_def)
qed

section \<open>Forged tokens and users\<close>

text \<open>A token is accepted only with the MAC of its payload under the test key.\<close>

lemma parseToken_signed:
  assumes "parseToken hmac tok = Inr c"
  shows "\<exists>body sig. tok = body @ CHR ''.'' # sig \<and> RawURL_DecodeString sig = Inr (hmac testTokenKey body)"
  using assms go_Cut_Some [of tok "CHR ''.''"]
  by (fastforce simp: parseToken_def Let_def split: option.splits sum.splits if_splits)

lemma user_Add_found:
  "user_FindByID uid (user_Add u s) = (if uid = us_ID u then Inr u else user_FindByID uid s)"
  "go_ToLower email = go_ToLower (us_Email u) \<Longrightarrow> user_FindByEmail email (user_Add u s) = Inr u"
  by (simp_all add: user_FindByID_def user_FindByEmail_def user_Add_def)

text \<open>Replacing a user under a new address keeps the old address pointing at it.\<close>

lemma user_Add_stale_email:
  assumes "us_ID u' = us_ID u"
  shows "user_FindByEmail (us_Email u) (user_Add u' (user_Add u s)) = Inr u'"
  using assms by (simp add: user_FindByEmail_def user_Add_def)

text \<open>A lookup of an unknown address is reported as bad credentials.\<close>

lemma unknown_user_classified:
  assumes "gm_get (ut_byEmail s) (go_ToLower email) = None"
  shows "\<exists>err. user_FindByEmail email s = Inl err \<and> ClassifyLoginError (Some err) = ''bad_credentials''"
  using assms by (simp add: user_FindByEmail_def ClassifyLoginError_def)

lemma checklist_covered: "AssertChecklistCoverage registered checklist = None \<longleftrightarrow> set checklist \<subseteq> set registered"
  by (fastforce simp: AssertChecklistCoverage_def find_None_iff find_Some_iff split: option.splits)

end
