(* ===== verification/EntSchema.thy ===== *)
theory EntSchema
  imports Registration
begin

text \<open>
  The database schema mixins (\<^verbatim>\<open>entschema\<close>) and the code generated for them in the fixture
  \<^verbatim>\<open>entschema/_test\<close>: the migration tables and the initialisation that reads defaults and validators out
  of the schema by position. A field is what its descriptor says after the calls of the ent builder; the
  validators that \<^verbatim>\<open>NotEmpty\<close> and \<^verbatim>\<open>MaxLen\<close> install are ent's and therefore parameters.
\<close>

section \<open>Field descriptors\<close>

datatype go_type = TyString | TyStrings | TyBool | TyInt | TyTime | TyObject

datatype go_value = GString string | GStrings "string list" | GBool bool | GInt int | GTime gotime | GObject json_map | GNil

fun type_of_value :: "go_value \<Rightarrow> go_type option" where
  "type_of_value (GString _) = Some TyString"
| "type_of_value (GStrings _) = Some TyStrings"
| "type_of_value (GBool _) = Some TyBool"
| "type_of_value (GInt _) = Some TyInt"
| "type_of_value (GTime _) = Some TyTime"
| "type_of_value (GObject _) = Some TyObject"
| "type_of_value GNil = None"

type_synonym validator = "string \<Rightarrow> goerr option"

record ent_lib =
  el_NotEmpty :: validator
  el_MaxLen :: "nat \<Rightarrow> validator"

text \<open>What ent documents of its validators.\<close>

definition ent_lib_ok :: "ent_lib \<Rightarrow> bool" where
  "ent_lib_ok lib = ((\<forall>s. el_NotEmpty lib s = None \<longleftrightarrow> s \<noteq> []) \<and> (\<forall>n s. el_MaxLen lib n s = None \<longleftrightarrow> length s \<le> n))"

record descriptor =
  fd_Name :: string
  fd_Type :: go_type
  fd_Size :: "nat option"
  fd_Unique :: bool
  fd_Optional :: bool
  fd_Nillable :: bool
  fd_Sensitive :: bool
  fd_Default :: "go_value option"
  fd_Validators :: "validator list"

definition ent_field :: "go_type \<Rightarrow> string \<Rightarrow> descriptor" where
  "ent_field t name =
     \<lparr>fd_Name = name, fd_Type = t, fd_Size = None, fd_Unique = False, fd_Optional = False, fd_Nillable = False,
      fd_Sensitive = False, fd_Default = None, fd_Validators = []\<rparr>"

definition ent_text :: "string \<Rightarrow> descriptor" where
  "ent_text name = (ent_field TyString name)\<lparr>fd_Size := Some 2147483647\<rparr>"

text \<open>The calls of the builder, applied from left to right.\<close>

datatype field_call =
    Unique
  | NotEmpty
  | MaxLen nat
  | Validate validator
  | Sensitive
  | Optional
  | Nillable
  | Default go_value

fun field_apply :: "ent_lib \<Rightarrow> field_call \<Rightarrow> descriptor \<Rightarrow> descriptor" where
  "field_apply lib Unique d = d\<lparr>fd_Unique := True\<rparr>"
| "field_apply lib NotEmpty d = d\<lparr>fd_Validators := fd_Validators d @ [el_NotEmpty lib]\<rparr>"
| "field_apply lib (MaxLen n) d = d\<lparr>fd_Size := Some n, fd_Validators := fd_Validators d @ [el_MaxLen lib n]\<rparr>"
| "field_apply lib (Validate f) d = d\<lparr>fd_Validators := fd_Validators d @ [f]\<rparr>"
| "field_apply lib Sensitive d = d\<lparr>fd_Sensitive := True\<rparr>"
| "field_apply lib Optional d = d\<lparr>fd_Optional := True\<rparr>"
| "field_apply lib Nillable d = d\<lparr>fd_Nillable := True\<rparr>"
| "field_apply lib (Default v) d = d\<lparr>fd_Default := Some v\<rparr>"

definition field_calls :: "ent_lib \<Rightarrow> descriptor \<Rightarrow> field_call list \<Rightarrow> descriptor" where
  "field_calls lib d calls = fold (field_apply lib) calls d"

record ent_index =
  ix_Fields :: "string list"
  ix_Unique :: bool

definition index_Fields :: "string list \<Rightarrow> ent_index" where
  "index_Fields cols = \<lparr>ix_Fields = cols, ix_Unique = False\<rparr>"

record ent_mixin =
  mx_Fields :: "descriptor list"
  mx_Indexes :: "ent_index list"

section \<open>The mixins\<close>

definition OAuthClient_Fields :: "ent_lib \<Rightarrow> descriptor list" where
  "OAuthClient_Fields lib =
     [field_calls lib (ent_field TyString ''client_id'') [Unique, NotEmpty, MaxLen 255],
      field_calls lib (ent_field TyString ''client_secret_hash'') [Default (GString []), Sensitive],
      field_calls lib (ent_field TyStrings ''redirect_uris'') [Default (GStrings [])],
      field_calls lib (ent_field TyStrings ''grant_types'') [Default (GStrings [])],
      field_calls lib (ent_field TyStrings ''response_types'') [Default (GStrings [])],
      field_calls lib (ent_field TyString ''scopes'') [Default (GString []), MaxLen 1000],
      field_calls lib (ent_field TyStrings ''audience'') [Default (GStrings [])],
      field_calls lib (ent_field TyBool ''is_public'') [Default (GBool False)],
      field_calls lib (ent_field TyString ''name'') [NotEmpty, MaxLen 200],
      field_calls lib (ent_field TyInt ''workspace_id'') [Optional, Nillable]]"

definition OAuthClient_Indexes :: "ent_index list" where
  "OAuthClient_Indexes = [index_Fields [''client_id''], index_Fields [''workspace_id'']]"

definition validateSessionType :: validator where
  "validateSessionType stype =
     (if stype \<in> {''authorization_code'', ''access_token'', ''refresh_token'', ''pkce'', ''oidc''} then None
      else Some (Plain (''invalid session_type '' @ go_Quote stype)))"

definition oauthSession_Fields :: "ent_lib \<Rightarrow> descriptor list" where
  "oauthSession_Fields lib =
     [field_calls lib (ent_field TyString ''session_type'') [MaxLen 32, Validate validateSessionType],
      field_calls lib (ent_field TyString ''signature'') [NotEmpty, MaxLen 512],
      field_calls lib (ent_field TyString ''client_id'') [NotEmpty, MaxLen 255],
      field_calls lib (ent_field TyInt ''user_id'') [Optional, Nillable],
      field_calls lib (ent_field TyString ''request_id'') [Default (GString []), MaxLen 255],
      field_calls lib (ent_field TyString ''scopes'') [Default (GString []), MaxLen 1000],
      field_calls lib (ent_field TyObject ''session_data'') [Default (GObject [])],
      field_calls lib (ent_field TyBool ''active'') [Default (GBool True)],
      field_calls lib (ent_field TyTime ''expires_at'') [Optional, Nillable]]"

definition oauthSession_Indexes :: "ent_index list" where
  "oauthSession_Indexes =
     [(index_Fields [''session_type'', ''signature''])\<lparr>ix_Unique := True\<rparr>, index_Fields [''client_id''],
      index_Fields [''user_id''], index_Fields [''request_id''], index_Fields [''session_type'', ''active'']]"

definition OAuthSigningKey_Fields :: "ent_lib \<Rightarrow> descriptor list" where
  "OAuthSigningKey_Fields lib =
     [field_calls lib (ent_field TyString ''kid'') [Unique, NotEmpty, MaxLen 255],
      field_calls lib (ent_field TyString ''algorithm'') [Default (GString ''RS256''), MaxLen 32],
      field_calls lib (ent_text ''private_key_pem'') [Sensitive],
      field_calls lib (ent_text ''public_key_pem'') [],
      field_calls lib (ent_field TyBool ''is_active'') [Default (GBool True)],
      field_calls lib (ent_field TyTime ''expires_at'') [Optional, Nillable],
      field_calls lib (ent_field TyTime ''retired_at'') [Optional, Nillable]]"

definition OAuthSigningKey_Indexes :: "ent_index list" where
  "OAuthSigningKey_Indexes = [index_Fields [''kid''], index_Fields [''is_active'']]"

definition PersonalAccessToken_Fields :: "ent_lib \<Rightarrow> descriptor list" where
  "PersonalAccessToken_Fields lib =
     [field_calls lib (ent_field TyInt ''user_id'') [],
      field_calls lib (ent_field TyString ''name'') [NotEmpty, MaxLen 200],
      field_calls lib (ent_field TyString ''token_hash'') [NotEmpty, MaxLen 64, Unique],
      field_calls lib (ent_field TyString ''token_prefix'') [NotEmpty, MaxLen 20],
      field_calls lib (ent_field TyTime ''last_used_at'') [Optional, Nillable],
      field_calls lib (ent_field TyTime ''expires_at'') [Optional, Nillable]]"

definition PersonalAccessToken_Indexes :: "ent_index list" where
  "PersonalAccessToken_Indexes = [index_Fields [''token_prefix''], index_Fields [''user_id'']]"

text \<open>The three session types embed \<^verbatim>\<open>oauthSession\<close>.\<close>

definition OAuthAccessToken :: "ent_lib \<Rightarrow> ent_mixin" where
  "OAuthAccessToken lib = \<lparr>mx_Fields = oauthSession_Fields lib, mx_Indexes = oauthSession_Indexes\<rparr>"

definition OAuthAuthorizationCode :: "ent_lib \<Rightarrow> ent_mixin" where
  "OAuthAuthorizationCode lib = \<lparr>mx_Fields = oauthSession_Fields lib, mx_Indexes = oauthSession_Indexes\<rparr>"

definition OAuthRefreshToken :: "ent_lib \<Rightarrow> ent_mixin" where
  "OAuthRefreshToken lib = \<lparr>mx_Fields = oauthSession_Fields lib, mx_Indexes = oauthSession_Indexes\<rparr>"

definition OAuthClient_mixin :: "ent_lib \<Rightarrow> ent_mixin" where
  "OAuthClient_mixin lib = \<lparr>mx_Fields = OAuthClient_Fields lib, mx_Indexes = OAuthClient_Indexes\<rparr>"

definition OAuthSigningKey_mixin :: "ent_lib \<Rightarrow> ent_mixin" where
  "OAuthSigningKey_mixin lib = \<lparr>mx_Fields = OAuthSigningKey_Fields lib, mx_Indexes = OAuthSigningKey_Indexes\<rparr>"

definition PersonalAccessToken_mixin :: "ent_lib \<Rightarrow> ent_mixin" where
  "PersonalAccessToken_mixin lib = \<lparr>mx_Fields = PersonalAccessToken_Fields lib, mx_Indexes = PersonalAccessToken_Indexes\<rparr>"

section \<open>The generated migration\<close>

record column =
  co_Name :: string
  co_Type :: go_type
  co_Unique :: bool
  co_Nullable :: bool
  co_Size :: "nat option"
  co_Default :: "go_value option"
  co_Increment :: bool

definition plain_column :: "string \<Rightarrow> go_type \<Rightarrow> column" where
  "plain_column name t =
     \<lparr>co_Name = name, co_Type = t, co_Unique = False, co_Nullable = False, co_Size = None, co_Default = None, co_Increment = False\<rparr>"

definition id_column :: column where "id_column = (plain_column ''id'' TyInt)\<lparr>co_Increment := True\<rparr>"

definition sized_column :: "string \<Rightarrow> nat \<Rightarrow> column" where
  "sized_column name n = (plain_column name TyString)\<lparr>co_Size := Some n\<rparr>"

definition nullable_column :: "string \<Rightarrow> go_type \<Rightarrow> column" where
  "nullable_column name t = (plain_column name t)\<lparr>co_Nullable := True\<rparr>"

definition defaulted :: "go_value \<Rightarrow> column \<Rightarrow> column" where "defaulted v c = c\<lparr>co_Default := Some v\<rparr>"

text \<open>A column of type JSON keeps no Go type; indexes name their columns by position.\<close>

record table =
  tb_Name :: string
  tb_Columns :: "column list"
  tb_Indexes :: "(bool \<times> nat list) list"

definition OauthAccessTokensColumns :: "column list" where
  "OauthAccessTokensColumns =
     [id_column, sized_column ''session_type'' 32, sized_column ''signature'' 512, sized_column ''client_id'' 255,
      nullable_column ''user_id'' TyInt, defaulted (GString []) (sized_column ''request_id'' 255),
      defaulted (GString []) (sized_column ''scopes'' 1000), plain_column ''session_data'' TyObject,
      defaulted (GBool True) (plain_column ''active'' TyBool), nullable_column ''expires_at'' TyTime,
      nullable_column ''requested_at'' TyTime]"

definition OauthAccessTokensTable :: table where
  "OauthAccessTokensTable =
     \<lparr>tb_Name = ''oauth_access_tokens'', tb_Columns = OauthAccessTokensColumns,
      tb_Indexes = [(True, [1, 2]), (False, [3]), (False, [4]), (False, [5]), (False, [1, 8])]\<rparr>"

definition OauthAuthorizationCodesColumns :: "column list" where
  "OauthAuthorizationCodesColumns =
     [id_column, sized_column ''session_type'' 32, sized_column ''signature'' 512, sized_column ''client_id'' 255,
      nullable_column ''user_id'' TyInt, defaulted (GString []) (sized_column ''request_id'' 255),
      defaulted (GString []) (sized_column ''scopes'' 1000), plain_column ''session_data'' TyObject,
      defaulted (GBool True) (plain_column ''active'' TyBool), nullable_column ''expires_at'' TyTime,
      nullable_column ''requested_at'' TyTime]"

definition OauthAuthorizationCodesTable :: table where
  "OauthAuthorizationCodesTable =
     \<lparr>tb_Name = ''oauth_authorization_codes'', tb_Columns = OauthAuthorizationCodesColumns,
      tb_Indexes = [(True, [1, 2]), (False, [3]), (False, [4]), (False, [5]), (False, [1, 8])]\<rparr>"

definition OauthClientsColumns :: "column list" where
  "OauthClientsColumns =
     [id_column, (sized_column ''client_id'' 255)\<lparr>co_Unique := True\<rparr>,
      defaulted (GString []) (plain_column ''client_secret_hash'' TyString), plain_column ''redirect_uris'' TyStrings,
      plain_column ''grant_types'' TyStrings, plain_column ''response_types'' TyStrings,
      defaulted (GString []) (sized_column ''scopes'' 1000), defaulted (GBool False) (plain_column ''is_public'' TyBool),
      sized_column ''name'' 200, nullable_column ''workspace_id'' TyInt]"

definition OauthClientsTable :: table where
  "OauthClientsTable =
     \<lparr>tb_Name = ''oauth_clients'', tb_Columns = OauthClientsColumns, tb_Indexes = [(False, [1]), (False, [9])]\<rparr>"

definition OauthRefreshTokensColumns :: "column list" where
  "OauthRefreshTokensColumns =
     [id_column, sized_column ''session_type'' 32, sized_column ''signature'' 512, sized_column ''client_id'' 255,
      nullable_column ''user_id'' TyInt, defaulted (GString []) (sized_column ''request_id'' 255),
      defaulted (GString []) (sized_column ''scopes'' 1000), plain_column ''session_data'' TyObject,
      defaulted (GBool True) (plain_column ''active'' TyBool), nullable_column ''expires_at'' TyTime,
      nullable_column ''requested_at'' TyTime]"

definition OauthRefreshTokensTable :: table where
  "OauthRefreshTokensTable =
     \<lparr>tb_Name = ''oauth_refresh_tokens'', tb_Columns = OauthRefreshTokensColumns,
      tb_Indexes = [(True, [1, 2]), (False, [3]), (False, [4]), (False, [5]), (False, [1, 8])]\<rparr>"

definition OauthSigningKeysColumns :: "column list" where
  "OauthSigningKeysColumns =
     [id_column, (sized_column ''kid'' 255)\<lparr>co_Unique := True\<rparr>, defaulted (GString ''RS256'') (sized_column ''algorithm'' 32),
      sized_column ''private_key_pem'' 2147483647, sized_column ''public_key_pem'' 2147483647,
      defaulted (GBool True) (plain_column ''is_active'' TyBool), nullable_column ''expires_at'' TyTime,
      nullable_column ''retired_at'' TyTime]"

definition OauthSigningKeysTable :: table where
  "OauthSigningKeysTable =
     \<lparr>tb_Name = ''oauth_signing_keys'', tb_Columns = OauthSigningKeysColumns, tb_Indexes = [(False, [1]), (False, [5])]\<rparr>"

definition PersonalAccessTokensColumns :: "column list" where
  "PersonalAccessTokensColumns =
     [id_column, plain_column ''user_id'' TyInt, sized_column ''name'' 200, (sized_column ''token_hash'' 64)\<lparr>co_Unique := True\<rparr>,
      sized_column ''token_prefix'' 20, nullable_column ''last_used_at'' TyTime, nullable_column ''expires_at'' TyTime]"

definition PersonalAccessTokensTable :: table where
  "PersonalAccessTokensTable =
     \<lparr>tb_Name = ''personal_access_tokens'', tb_Columns = PersonalAccessTokensColumns, tb_Indexes = [(False, [4]), (False, [1])]\<rparr>"

definition migrate_Tables :: "table list" where
  "migrate_Tables =
     [OauthAccessTokensTable, OauthAuthorizationCodesTable, OauthClientsTable, OauthRefreshTokensTable, OauthSigningKeysTable,
      PersonalAccessTokensTable]"

section \<open>The generated initialisation\<close>

text \<open>
  The package variables one generated package gets, and the statements that fill them: a default is
  asserted to its static type, and a validator runs the first validators of the descriptor in order. A
  position or a type that does not fit is a panic.
\<close>

record pkg_vars =
  gv_Default :: "go_value gomap"
  gv_Validator :: "validator gomap"

datatype init_stmt = InitDefault string nat go_type | InitValidators string nat nat

fun go_type_name :: "go_type \<Rightarrow> string" where
  "go_type_name TyString = ''string''"
| "go_type_name TyStrings = ''[]string''"
| "go_type_name TyBool = ''bool''"
| "go_type_name TyInt = ''int''"
| "go_type_name TyTime = ''time.Time''"
| "go_type_name TyObject = ''map[string]interface {}''"

definition type_assert :: "go_type \<Rightarrow> go_value option \<Rightarrow> go_value result" where
  "type_assert t v =
     (case Option.bind v type_of_value of
        None \<Rightarrow> Inl (Plain (''interface conversion: interface {} is nil, not '' @ go_type_name t))
      | Some t' \<Rightarrow>
          if t' = t then Inr (the v)
          else Inl (Plain (''interface conversion: interface {} is '' @ go_type_name t' @ '', not '' @ go_type_name t)))"

fun run_validators :: "validator list \<Rightarrow> validator" where
  "run_validators [] v = None"
| "run_validators (fn # fns) v = (case fn v of Some err \<Rightarrow> Some err | None \<Rightarrow> run_validators fns v)"

fun init_run :: "descriptor list \<Rightarrow> init_stmt \<Rightarrow> pkg_vars \<Rightarrow> pkg_vars result" where
  "init_run mixinFields (InitDefault var i t) vars =
     (if length mixinFields \<le> i then Inl (Plain ''index out of range'')
      else bind_res (type_assert t (fd_Default (mixinFields ! i)))
             (\<lambda>v. Inr (vars\<lparr>gv_Default := gm_put var v (gv_Default vars)\<rparr>)))"
| "init_run mixinFields (InitValidators var i n) vars =
     (if length mixinFields \<le> i \<or> length (fd_Validators (mixinFields ! i)) < n then Inl (Plain ''index out of range'')
      else Inr (vars\<lparr>gv_Validator := gm_put var (run_validators (take n (fd_Validators (mixinFields ! i)))) (gv_Validator vars)\<rparr>))"

fun init_block :: "descriptor list \<Rightarrow> init_stmt list \<Rightarrow> pkg_vars \<Rightarrow> pkg_vars result" where
  "init_block mixinFields [] vars = Inr vars"
| "init_block mixinFields (stmt # stmts) vars = bind_res (init_run mixinFields stmt vars) (init_block mixinFields stmts)"

definition no_vars :: pkg_vars where "no_vars = \<lparr>gv_Default = [], gv_Validator = []\<rparr>"

definition oauthaccesstoken_init :: "init_stmt list" where
  "oauthaccesstoken_init =
     [InitValidators ''session_type'' 0 2, InitValidators ''signature'' 1 2, InitValidators ''client_id'' 2 2,
      InitDefault ''request_id'' 4 TyString, InitValidators ''request_id'' 4 1,
      InitDefault ''scopes'' 5 TyString, InitValidators ''scopes'' 5 1,
      InitDefault ''session_data'' 6 TyObject, InitDefault ''active'' 7 TyBool]"

definition oauthauthorizationcode_init :: "init_stmt list" where
  "oauthauthorizationcode_init =
     [InitValidators ''session_type'' 0 2, InitValidators ''signature'' 1 2, InitValidators ''client_id'' 2 2,
      InitDefault ''request_id'' 4 TyString, InitValidators ''request_id'' 4 1,
      InitDefault ''scopes'' 5 TyString, InitValidators ''scopes'' 5 1,
      InitDefault ''session_data'' 6 TyObject, InitDefault ''active'' 7 TyBool]"

definition oauthclient_init :: "init_stmt list" where
  "oauthclient_init =
     [InitValidators ''client_id'' 0 2, InitDefault ''client_secret_hash'' 1 TyString, InitDefault ''redirect_uris'' 2 TyStrings,
      InitDefault ''grant_types'' 3 TyStrings, InitDefault ''response_types'' 4 TyStrings, InitDefault ''scopes'' 5 TyString,
      InitValidators ''scopes'' 5 1, InitDefault ''is_public'' 6 TyBool, InitValidators ''name'' 7 2]"

definition oauthrefreshtoken_init :: "init_stmt list" where
  "oauthrefreshtoken_init =
     [InitValidators ''session_type'' 0 2, InitValidators ''signature'' 1 2, InitValidators ''client_id'' 2 2,
      InitDefault ''request_id'' 4 TyString, InitValidators ''request_id'' 4 1,
      InitDefault ''scopes'' 5 TyString, InitValidators ''scopes'' 5 1,
      InitDefault ''session_data'' 6 TyObject, InitDefault ''active'' 7 TyBool]"

definition oauthsigningkey_init :: "init_stmt list" where
  "oauthsigningkey_init =
     [InitValidators ''kid'' 0 2, InitDefault ''algorithm'' 1 TyString, InitValidators ''algorithm'' 1 1, InitDefault ''is_active'' 4 TyBool]"

definition personalaccesstoken_init :: "init_stmt list" where
  "personalaccesstoken_init =
     [InitValidators ''name'' 1 2, InitValidators ''token_hash'' 2 2, InitValidators ''token_prefix'' 3 2]"

definition runtime_init :: "ent_lib \<Rightarrow> pkg_vars list result" where
  "runtime_init lib =
     bind_res (init_block (mx_Fields (OAuthAccessToken lib)) oauthaccesstoken_init no_vars) (\<lambda>accesstoken.
     bind_res (init_block (mx_Fields (OAuthAuthorizationCode lib)) oauthauthorizationcode_init no_vars) (\<lambda>authorizationcode.
     bind_res (init_block (mx_Fields (OAuthClient_mixin lib)) oauthclient_init no_vars) (\<lambda>client.
     bind_res (init_block (mx_Fields (OAuthRefreshToken lib)) oauthrefreshtoken_init no_vars) (\<lambda>refreshtoken.
     bind_res (init_block (mx_Fields (OAuthSigningKey_mixin lib)) oauthsigningkey_init no_vars) (\<lambda>signingkey.
     bind_res (init_block (mx_Fields (PersonalAccessToken_mixin lib)) personalaccesstoken_init no_vars) (\<lambda>pat.
       Inr [accesstoken, authorizationcode, client, refreshtoken, signingkey, pat]))))))"

section \<open>The schema is consistent\<close>

lemmas schema_simps = field_calls_def ent_field_def ent_text_def index_Fields_def OAuthClient_Fields_def OAuthClient_Indexes_def
  oauthSession_Fields_def oauthSession_Indexes_def OAuthSigningKey_Fields_def OAuthSigningKey_Indexes_def
  PersonalAccessToken_Fields_def PersonalAccessToken_Indexes_def OAuthAccessToken_def OAuthAuthorizationCode_def
  OAuthRefreshToken_def OAuthClient_mixin_def OAuthSigningKey_mixin_def PersonalAccessToken_mixin_def

lemmas column_simps = plain_column_def id_column_def sized_column_def nullable_column_def defaulted_def
  OauthAccessTokensColumns_def OauthAuthorizationCodesColumns_def OauthClientsColumns_def OauthRefreshTokensColumns_def
  OauthSigningKeysColumns_def PersonalAccessTokensColumns_def

lemmas table_simps = OauthAccessTokensTable_def OauthAuthorizationCodesTable_def OauthClientsTable_def OauthRefreshTokensTable_def
  OauthSigningKeysTable_def PersonalAccessTokensTable_def migrate_Tables_def

definition kit_mixins :: "ent_lib \<Rightarrow> ent_mixin list" where
  "kit_mixins lib =
     [OAuthAccessToken lib, OAuthAuthorizationCode lib, OAuthClient_mixin lib, OAuthRefreshToken lib, OAuthSigningKey_mixin lib,
      PersonalAccessToken_mixin lib]"

text \<open>The column a migration needs for a field: JSON columns and columns without a constant default have none.\<close>

definition field_column :: "descriptor \<Rightarrow> column" where
  "field_column d =
     \<lparr>co_Name = fd_Name d, co_Type = fd_Type d, co_Unique = fd_Unique d, co_Nullable = fd_Optional d, co_Size = fd_Size d,
      co_Default = (if fd_Type d \<in> {TyStrings, TyObject} then None else fd_Default d), co_Increment = False\<rparr>"

definition index_names :: "table \<Rightarrow> ent_index list" where
  "index_names t = map (\<lambda>(u, cols). \<lparr>ix_Fields = map (\<lambda>i. co_Name (tb_Columns t ! i)) cols, ix_Unique = u\<rparr>) (tb_Indexes t)"

text \<open>A mixin as its fields and indexes have to be: distinct names, defaults of the type of the field, indexes over its own fields.\<close>

definition mixin_ok :: "ent_mixin \<Rightarrow> bool" where
  "mixin_ok m =
     (distinct (map fd_Name (mx_Fields m)) \<and>
      (\<forall>d \<in> set (mx_Fields m).
         (\<forall>v. fd_Default d = Some v \<longrightarrow> type_of_value v = Some (fd_Type d)) \<and>
         (fd_Validators d \<noteq> [] \<longrightarrow> fd_Type d = TyString) \<and> (fd_Optional d \<longleftrightarrow> fd_Nillable d)) \<and>
      (\<forall>ix \<in> set (mx_Indexes m). set (ix_Fields ix) \<subseteq> set (map fd_Name (mx_Fields m))))"

lemma kit_mixins_ok: "list_all mixin_ok (kit_mixins lib)"
  by (simp add: kit_mixins_def mixin_ok_def schema_simps)

definition requested_at :: column where "requested_at = nullable_column ''requested_at'' TyTime"

text \<open>
  C26 (the generated migration). Every table of the fixture has an ID column followed by exactly the
  columns its mixin declares, with size, uniqueness, nullability and default, and the indexes of the
  mixin, with two exceptions: the session tables have a further column that no mixin declares, and the
  clients' table lacks the audience.\<close>

theorem migration_matches_mixins:
  "map tb_Columns migrate_Tables =
     map (\<lambda>(m, extra). id_column # map field_column (filter (\<lambda>d. fd_Name d \<noteq> ''audience'') (mx_Fields m)) @ extra)
       (zip (kit_mixins lib) [[requested_at], [requested_at], [], [requested_at], [], []]) \<and>
   map index_names migrate_Tables = map mx_Indexes (kit_mixins lib) \<and>
   filter (\<lambda>d. fd_Name d = ''audience'') (concat (map mx_Fields (kit_mixins lib))) = [OAuthClient_Fields lib ! 6]"
proof (intro conjI)
  show "map tb_Columns migrate_Tables =
     map (\<lambda>(m, extra). id_column # map field_column (filter (\<lambda>d. fd_Name d \<noteq> ''audience'') (mx_Fields m)) @ extra)
       (zip (kit_mixins lib) [[requested_at], [requested_at], [], [requested_at], [], []])"
    by (simp add: table_simps column_simps kit_mixins_def schema_simps field_column_def requested_at_def)
  show "map index_names migrate_Tables = map mx_Indexes (kit_mixins lib)"
    by (simp add: table_simps column_simps kit_mixins_def schema_simps index_names_def)
  show "filter (\<lambda>d. fd_Name d = ''audience'') (concat (map mx_Fields (kit_mixins lib))) = [OAuthClient_Fields lib ! 6]"
    by (simp add: kit_mixins_def schema_simps)
qed

section \<open>The generated initialisation fails\<close>

text \<open>A statement reads the descriptor of the field it is generated for.\<close>

fun stitched :: "descriptor list \<Rightarrow> init_stmt \<Rightarrow> bool" where
  "stitched ds (InitDefault var i t) = (i < length ds \<and> fd_Name (ds ! i) = var)"
| "stitched ds (InitValidators var i n) = (i < length ds \<and> fd_Name (ds ! i) = var \<and> n = length (fd_Validators (ds ! i)))"

lemmas init_simps = oauthaccesstoken_init_def oauthauthorizationcode_init_def oauthclient_init_def oauthrefreshtoken_init_def
  oauthsigningkey_init_def personalaccesstoken_init_def no_vars_def type_assert_def bind_res_def

lemma session_init_ok: "\<exists>vars. init_block (oauthSession_Fields lib) oauthaccesstoken_init no_vars = Inr vars"
  by (simp add: schema_simps init_simps)

lemma session_inits: "oauthauthorizationcode_init = oauthaccesstoken_init" "oauthrefreshtoken_init = oauthaccesstoken_init"
  by (simp_all add: init_simps)

lemma client_init_panics:
  "init_block (OAuthClient_Fields lib) oauthclient_init no_vars = Inl (Plain ''interface conversion: interface {} is []string, not bool'')"
  by (simp add: schema_simps init_simps)

text \<open>
  C25 (the fixture cannot be loaded). The generated initialisation panics when the package is loaded: it
  reads the default of the flag for public clients at the position where the mixin now has the audience
  list. All other packages read the fields they are meant to, and without the audience field the
  clients' package would as well.\<close>

theorem fixture_init_panics:
  "runtime_init lib = Inl (Plain ''interface conversion: interface {} is []string, not bool'') \<and>
   list_all (\<lambda>(ds, stmts). list_all (stitched ds) stmts \<and> (\<exists>vars. init_block ds stmts no_vars = Inr vars))
     [(oauthSession_Fields lib, oauthaccesstoken_init), (oauthSession_Fields lib, oauthauthorizationcode_init),
      (oauthSession_Fields lib, oauthrefreshtoken_init), (OAuthSigningKey_Fields lib, oauthsigningkey_init),
      (PersonalAccessToken_Fields lib, personalaccesstoken_init),
      (filter (\<lambda>d. fd_Name d \<noteq> ''audience'') (OAuthClient_Fields lib), oauthclient_init)]"
proof
  obtain vars where v: "init_block (oauthSession_Fields lib) oauthaccesstoken_init no_vars = Inr vars"
    using session_init_ok by blast
  show "runtime_init lib = Inl (Plain ''interface conversion: interface {} is []string, not bool'')"
    using v client_init_panics [of lib]
    by (simp add: runtime_init_def OAuthAccessToken_def OAuthAuthorizationCode_def OAuthClient_mixin_def session_inits bind_res_def)
  have "list_all (stitched (oauthSession_Fields lib)) oauthaccesstoken_init" by (simp add: schema_simps init_simps)
  moreover have "list_all (stitched (OAuthSigningKey_Fields lib)) oauthsigningkey_init \<and>
      (\<exists>vars. init_block (OAuthSigningKey_Fields lib) oauthsigningkey_init no_vars = Inr vars)" by (simp add: schema_simps init_simps)
  moreover have "list_all (stitched (PersonalAccessToken_Fields lib)) personalaccesstoken_init \<and>
      (\<exists>vars. init_block (PersonalAccessToken_Fields lib) personalaccesstoken_init no_vars = Inr vars)" by (simp add: schema_simps init_simps)
  moreover have "list_all (stitched (filter (\<lambda>d. fd_Name d \<noteq> ''audience'') (OAuthClient_Fields lib))) oauthclient_init \<and>
      (\<exists>vars. init_block (filter (\<lambda>d. fd_Name d \<noteq> ''audience'') (OAuthClient_Fields lib)) oauthclient_init no_vars = Inr vars)"
    by (simp add: schema_simps init_simps)
  ultimately show "list_all (\<lambda>(ds, stmts). list_all (stitched ds) stmts \<and> (\<exists>vars. init_block ds stmts no_vars = Inr vars))
     [(oauthSession_Fields lib, oauthaccesstoken_init), (oauthSession_Fields lib, oauthauthorizationcode_init),
      (oauthSession_Fields lib, oauthrefreshtoken_init), (OAuthSigningKey_Fields lib, oauthsigningkey_init),
      (PersonalAccessToken_Fields lib, personalaccesstoken_init),
      (filter (\<lambda>d. fd_Name d \<noteq> ''audience'') (OAuthClient_Fields lib), oauthclient_init)]"
    using v by (simp add: session_inits)
qed

section \<open>Registered clients as rows\<close>

text \<open>A row as ent accepts it: a value of the type of the field that passes its validators, or none where the field is optional.\<close>

definition value_valid :: "descriptor \<Rightarrow> go_value \<Rightarrow> bool" where
  "value_valid d v =
     (case v of
        GNil \<Rightarrow> fd_Optional d
      | GString s \<Rightarrow> fd_Type d = TyString \<and> run_validators (fd_Validators d) s = None
      | _ \<Rightarrow> type_of_value v = Some (fd_Type d))"

definition row_valid :: "descriptor list \<Rightarrow> (string \<Rightarrow> go_value) \<Rightarrow> bool" where
  "row_valid ds row = list_all (\<lambda>d. value_valid d (row (fd_Name d))) ds"

definition client_row :: "Client \<Rightarrow> string \<Rightarrow> go_value" where
  "client_row c name =
     (case map_of [(''client_id'', GString (cl_ID c)), (''client_secret_hash'', GString (cl_ClientSecretHash c)),
        (''redirect_uris'', GStrings (cl_RedirectURIs c)), (''grant_types'', GStrings (cl_GrantTypes c)),
        (''response_types'', GStrings (cl_ResponseTypes c)), (''scopes'', GString (go_Join (cl_Scopes c) '' '')),
        (''audience'', GStrings (cl_Audience c)), (''is_public'', GBool (cl_IsPublic c)), (''name'', GString (cl_Name c))] name of
        Some v \<Rightarrow> v
      | None \<Rightarrow> GNil)"

lemma client_row_valid:
  assumes "ent_lib_ok lib" "cl_ID c \<noteq> []" "client_policy cfg c"
  shows "row_valid (OAuthClient_Fields lib) (client_row c) \<longleftrightarrow>
    length (cl_ID c) \<le> 255 \<and> length (go_Join (cl_Scopes c) '' '') \<le> 1000"
proof -
  have v: "el_NotEmpty lib s = None \<longleftrightarrow> s \<noteq> []" "el_MaxLen lib n s = None \<longleftrightarrow> length s \<le> n" for s n
    using assms(1) by (simp_all add: ent_lib_ok_def)
  have r: "run_validators (fn # fns) s = None \<longleftrightarrow> fn s = None \<and> run_validators fns s = None" for fn fns s
    by (simp split: option.splits)
  have "cl_Name c \<noteq> []" "length (cl_Name c) \<le> 200" using assms(3) by (simp_all add: client_policy_def)
  with assms(2) show ?thesis
    by (simp add: row_valid_def value_valid_def client_row_def schema_simps v r del: run_validators.simps(2))
qed

text \<open>
  C27 (registered clients fit their table). The client that a registration stores makes a valid row of
  the clients' table exactly if its ID and its joined scopes fit the columns: name, secret, lists and
  flags always do.\<close>

theorem registered_client_fits_schema:
  assumes "ent_lib_ok lib" "process_registration memory_StoreOps cfg env req s = (Inr resp, s')" "re_id_bytes env \<noteq> []"
  shows "\<exists>client. mem_GetClient (rs_ClientID resp) s' = Inr client \<and>
    (row_valid (OAuthClient_Fields lib) (client_row client) \<longleftrightarrow> length (rs_ClientID resp) \<le> 255 \<and> length (rs_Scope resp) \<le> 1000)"
proof (rule process_registration_Inr [OF assms(2)])
  fix client secret scopeString
  assume reg: "register_client memory_StoreOps env client secret scopeString s = (Inr resp, s')"
    and policy: "client_policy cfg client" and str: "scopeString = go_Join (cl_Scopes client) '' ''"
    and cid: "cl_ID client = rg_ClientIDPrefix cfg @ RawURL_EncodeToString (re_id_bytes env)"
  from reg have r: "rs_ClientID resp = cl_ID client" "rs_Scope resp = scopeString"
    "s' = s\<lparr>ms_clients := gm_put (cl_ID client) client (ms_clients s)\<rparr>"
    by (auto simp: register_client_def memory_StoreOps_def mem_SaveClient_def)
  have "0 < length (re_id_bytes env)" using assms(3) by simp
  then have "0 < length (RawURL_EncodeToString (re_id_bytes env))" unfolding RawURL_length by presburger
  then have "cl_ID client \<noteq> []" using cid by auto
  with client_row_valid [OF assms(1) _ policy] r str show ?thesis by (simp add: mem_GetClient_def)
qed

definition sample_ent :: ent_lib where
  "sample_ent =
     \<lparr>el_NotEmpty = (\<lambda>s. if s = [] then Some (Plain ''value is less than the required length'') else None),
      el_MaxLen = (\<lambda>n s. if n < length s then Some (Plain ''value is greater than the required length'') else None)\<rparr>"

theorem registered_client_fits_schema_witness:
  "\<exists>resp s' client. process_registration memory_StoreOps ex_reg_cfg ex_reg_env ex_reg_req NewMemoryStore_oauth = (Inr resp, s') \<and>
     mem_GetClient (rs_ClientID resp) s' = Inr client \<and> row_valid (OAuthClient_Fields sample_ent) (client_row client)"
proof -
  obtain resp s' where r: "process_registration memory_StoreOps ex_reg_cfg ex_reg_env ex_reg_req NewMemoryStore_oauth = (Inr resp, s')"
    "rs_ClientID resp = ''dcr-'' @ RawURL_EncodeToString ''abc''" "rs_Scope resp = ''read''" using ex_registers by blast
  have "ent_lib_ok sample_ent" by (simp add: ent_lib_ok_def sample_ent_def)
  from registered_client_fits_schema [OF this r(1)] obtain client where
    c: "mem_GetClient (rs_ClientID resp) s' = Inr client"
    "row_valid (OAuthClient_Fields sample_ent) (client_row client) \<longleftrightarrow> length (rs_ClientID resp) \<le> 255 \<and> length (rs_Scope resp) \<le> 1000"
    by (auto simp: ex_reg_env_def)
  have "length (RawURL_EncodeToString ''abc'') = 4" by code_simp
  with c r show ?thesis by auto
qed

text \<open>
  A request may repeat an allowed scope: it is stored as often as it is sent, so that a client of the
  example policy outgrows its column although only one scope of four letters is granted.
\<close>

definition repeated_scope :: "nat \<Rightarrow> string" where
  "repeated_scope n = go_Join (replicate (Suc n) ''read'') '' ''"

lemma repeated_scope_Suc: "repeated_scope (Suc n) = ''read '' @ repeated_scope n" "repeated_scope 0 = ''read''"
  by (simp_all add: repeated_scope_def)

lemma repeated_scope_fields: "go_Fields (repeated_scope n) = replicate (Suc n) ''read''"
  by (induction n) (simp_all add: repeated_scope_Suc go_Fields_def fields_aux_ascii graph_char_def)

lemma repeated_scope_trim: "go_TrimSpace (repeated_scope n) \<noteq> []"
proof -
  have "repeated_scope n \<noteq> [] \<and> hd (repeated_scope n) = CHR ''r'' \<and> last (repeated_scope n) = CHR ''d''"
    by (induction n) (simp_all add: repeated_scope_Suc)
  then show ?thesis using go_TrimSpace_graph [of "repeated_scope n"] by (simp add: graph_char_def)
qed

lemma repeated_scope_length: "length (repeated_scope n) = 5 * n + 4"
  by (induction n) (simp_all add: repeated_scope_Suc)

lemma repeated_scopes_stored:
  "\<exists>resp s'. process_registration memory_StoreOps ex_reg_cfg ex_reg_env (ex_reg_req\<lparr>rr_Scope := repeated_scope n\<rparr>) NewMemoryStore_oauth =
       (Inr resp, s') \<and> length (rs_Scope resp) = 5 * n + 4"
proof -
  have "check_scopes ''scope '' [''read'', ''write''] (replicate (Suc n) ''read'') = Inr ()"
    by (simp add: check_scopes_Inr del: replicate.simps)
  then have "normalizeScopesWithDefault (repeated_scope n) (rg_DefaultScopes ex_reg_cfg) (rg_AllowedScopes ex_reg_cfg)
      (scopeSet (rg_AllowedScopes ex_reg_cfg)) = Inr (replicate (Suc n) ''read'', repeated_scope n)"
    using repeated_scope_trim [of n]
    by (simp add: normalizeScopesWithDefault_def normalizeScopes_def repeated_scope_fields Let_def scopeSet_def ex_reg_cfg_def
        repeated_scope_def [symmetric] del: replicate.simps)
  then show ?thesis using repeated_scope_length [of n]
    by (simp add: process_registration_def ex_reg_env_def ex_reg_req_def ex_redirect_valid
      normalizeGrantTypes_def normalizeResponseTypes_def normalizeAuthMethod_def check_supported_def ex_reg_cfg_def
      supportedGrantTypes_def supportedResponseTypes_def supportedAuthMethods_def defaultAuthMethod_def
      validateLogoURI_def Let_def
      authMethodNone_def authMethodClientSecretBasic_def authMethodClientSecretPost_def HashSecret_def
      ex_bcrypt_def register_client_def memory_StoreOps_def mem_SaveClient_def registration_client_def
      generateRandomURLValue_def del: replicate.simps)
qed

end
