(* ===== verification/Spec2Isabelle.thy ===== *)
theory Spec2Isabelle
  imports ConsentFlow CliSetup CliServer Discovery McpServer LoginClassify ProviderSetup ExampleServer TestKit EntSchema
begin

text \<open>
  This development verifies mcp-kit, a Go library that turns an MCP server into an OAuth 2.1
  protected resource with its own authorization server. Paths below are relative to \<^verbatim>\<open>src/\<close>.

  \<^bold>\<open>The parts and how they interact.\<close> A server built by \<^verbatim>\<open>mcpkit.New\<close> passes a request through the
  Origin allowlist (\<^verbatim>\<open>mcpmw\<close>), the bearer middleware (\<^verbatim>\<open>oauth/middleware.go\<close>) and the JSON-RPC envelope to
  the SDK handler. Tokens come from the provider (\<^verbatim>\<open>oauth/handlers.go\<close>, \<^verbatim>\<open>oauth/provider.go\<close>), which drives
  the fosite engine over a storage adapter (\<^verbatim>\<open>oauth/storage\<close>). Clients register dynamically
  (\<^verbatim>\<open>oauth/register.go\<close>) or are described by a fetched metadata document (\<^verbatim>\<open>oauth/cimd.go\<close>). Users approve a
  client in the consent handler (\<^verbatim>\<open>oauth/consent\<close>), which hands out approval tokens from one of two stores.
  Signing keys are created, rotated and published by \<^verbatim>\<open>oauth/keys\<close>. Discovery documents (\<^verbatim>\<open>oidc\<close>,
  \<^verbatim>\<open>oauth/metadata.go\<close>) tell clients where everything is; the command-line client (\<^verbatim>\<open>cliauth\<close>) uses them
  to log in and keeps its tokens in a file. Schema mixins (\<^verbatim>\<open>entschema\<close>) describe the tables a consumer
  can keep clients, sessions, keys and tokens in, and \<^verbatim>\<open>testkit\<close> offers stand-ins for tests.

  \<^bold>\<open>Theories.\<close>
  \<^item> \<open>GoPrelude\<close>, \<open>GoHttp\<close>, \<open>GoUrl\<close>, \<open>GoEncoding\<close>: the Go vocabulary. Errors are chains of wrapped
    messages and sentinels, results are sums, times are integers in nanoseconds, 64-bit wrap-around is
    written out, maps are association lists with distinct keys, strings are byte lists. \<open>GoUrl\<close> follows
    \<^verbatim>\<open>net/url\<close> function by function, \<open>GoEncoding\<close> holds base64 and decimal integers with their round trips.
  \<^item> \<open>GoJson\<close>: \<^verbatim>\<open>encoding/json\<close> on bytes: UTF-8, quoting, printing, a parser that reads back what is printed, and
    decoding into structs and maps with the case folding of member names.
  \<^item> \<open>AuditEvents\<close> (\<^verbatim>\<open>audit\<close>): the event record and the discarding emitter.
  \<^item> \<open>SigningKeys\<close> (\<^verbatim>\<open>oauth/keys\<close>): store, manager and rotator. The locale \<open>signing_key_store\<close> states
    what a store promises; the in-memory store is its interpretation. A rotated key stays published
    until its grace period ends, the rotator keeps one active key that can sign, timers are bounded.
  \<^item> \<open>OAuthStorage\<close> (\<^verbatim>\<open>oauth/storage\<close>): locale \<open>oauth_store\<close>, interpreted by the in-memory store. Codes are
    single use, sessions round-trip, no secret is stored, rotation removes exactly one grant's tokens.
  \<^item> \<open>BearerAuth\<close> (\<^verbatim>\<open>oauth/middleware.go\<close>, \<^verbatim>\<open>pat.go\<close>, \<^verbatim>\<open>token_validator.go\<close>, \<^verbatim>\<open>verify.go\<close>, \<^verbatim>\<open>error.go\<close>): who reaches a
    protected handler, how others are refused, and that challenge parameters cannot be broken out of.
  \<^item> \<open>Registration\<close>, \<open>RegistrationJson\<close> (\<^verbatim>\<open>oauth/register.go\<close>): a stored client meets the policy, and its secret
    verifies; the second theory reads the request from its bytes and shows that the answer can be read.
  \<^item> \<open>ClientMetadata\<close> (\<^verbatim>\<open>oauth/cimd.go\<close>, \<^verbatim>\<open>cimd_transport.go\<close>): no internal address is dialled, resolved clients
    and the cache stay within bounds, and only fresh documents are served from it.
  \<^item> \<open>TokenEndpoint\<close> (\<^verbatim>\<open>oauth/handlers.go\<close>, \<^verbatim>\<open>provider.go\<close>, \<^verbatim>\<open>config.go\<close>, \<^verbatim>\<open>session.go\<close>, \<^verbatim>\<open>pkce.go\<close>): a refresh is
    answered once per replay window, codes are issued only behind state, PKCE and a resolved subject.
  \<^item> \<open>ProviderSetup\<close> (\<^verbatim>\<open>oauth/provider.go\<close>): what \<^verbatim>\<open>New\<close> configures the fosite engine and the registration with.
  \<^item> \<open>ApprovalStores\<close> (\<^verbatim>\<open>oauth/consent/params.go\<close>, \<^verbatim>\<open>default_store.go\<close>, \<^verbatim>\<open>hmacstore\<close>, \<^verbatim>\<open>sessionstore\<close>): locale
    \<open>approval_tokens\<close>, interpreted by the signed and by the session store: tokens are single use,
    bound to subject and parameters, and usable until they expire.
  \<^item> \<open>ConsentFlow\<close> (the rest of \<^verbatim>\<open>oauth/consent\<close>): locale \<open>consent_flow\<close> extends \<open>approval_tokens\<close> and is
    interpreted for both stores: codes only after consent, a given consent completes, a denied one
    does not, credentials never reappear in a page.
  \<^item> \<open>CredJson\<close>, \<open>CredStore\<close> (\<^verbatim>\<open>cliauth/credstore.go\<close>): the bytes of the credentials file and its operations; the
    file refines an abstract map with a current host (locale \<open>cred_map\<close>), whatever file operation fails.
  \<^item> \<open>LoginJson\<close>, \<open>CliLogin\<close> (\<^verbatim>\<open>cliauth/login.go\<close>, \<^verbatim>\<open>login_http.go\<close>, \<^verbatim>\<open>discovery.go\<close>, \<^verbatim>\<open>pkce.go\<close>): the client talks to
    its issuer only, accepts only the answer to its own request, hands out only current tokens.
  \<^item> \<open>CliSetup\<close> (\<^verbatim>\<open>cliauth/login.go\<close>, \<^verbatim>\<open>credstore.go\<close>, \<^verbatim>\<open>login_http.go\<close>, \<^verbatim>\<open>browser.go\<close>): construction of the client, its
    default file per issuer, the callback pages and the browser command.
  \<^item> \<open>CliServer\<close>: client and registration handler over one network of bytes: the client registers.
  \<^item> \<open>McpServer\<close> (\<^verbatim>\<open>mcpmw\<close>, \<^verbatim>\<open>mcpkit\<close>): locale \<open>middleware_guard\<close> and its composition \<open>guard_chain\<close>, interpreted by
    Origin, bearer middleware and the server; the envelope is transparent except for SDK errors.
  \<^item> \<open>Discovery\<close> (\<^verbatim>\<open>oidc\<close>, \<^verbatim>\<open>oauth/metadata.go\<close>, \<^verbatim>\<open>oauth/metadata_url.go\<close>): what is advertised is served.
  \<^item> \<open>ExampleServer\<close> (\<^verbatim>\<open>RegisterRoutes\<close> of \<^verbatim>\<open>oauth/handlers.go\<close>, \<^verbatim>\<open>_examples/minimal-server\<close>): all parts on one route table;
    challenge, documents and routes agree.
  \<^item> \<open>LoginClassify\<close> (\<^verbatim>\<open>oauth/login_classify.go\<close>): error labels.
  \<^item> \<open>TestKit\<close> (\<^verbatim>\<open>testkit\<close>, \<^verbatim>\<open>authz\<close>): minted test tokens are admitted, the user store, the reading of responses.
  \<^item> \<open>EntSchema\<close> (\<^verbatim>\<open>entschema\<close>): the schema mixins, the migration and the initialisation generated for them.
  \<^item> this theory: the client accepts the documents the server publishes.

  \<^bold>\<open>Conventions.\<close> Structs are records whose fields carry a short prefix, operations are functions named
  as in the code, state is passed explicitly. A handler maps a writer to a writer. Clock readings,
  random bytes and the outcome of each file system call are arguments, so a statement about all
  arguments covers every run. Code outside the repository (fosite, ent, cryptography, the HTTP client,
  consumers' callbacks) is a parameter, with what is relied on in named predicates such as \<open>codec_ok\<close>,
  \<open>time_codec_ok\<close> or \<open>ent_lib_ok\<close>; each is shown satisfiable by a witness. That something does not happen
  is stated by comparing two runs: handlers, engines or networks that agree on the permitted requests
  lead to the same result. All functions are total. Only the JSON parser uses fuel, \<open>json_fuel\<close>, twice the
  length of the text and one; \<open>json_fuel_enough\<close> shows that more never changes its result.

  \<^bold>\<open>Not modelled.\<close> Locks and goroutine scheduling: operations are atomic steps, and the shared
  in-flight refresh is modelled as leader and followers. Request contexts beyond the values the code
  stores, logging, HTML templates, the listener of the loopback login, the interface \<^verbatim>\<open>userstore\<close> that
  consumers implement, the query builders and mutations that ent generates in \<^verbatim>\<open>entschema/_test\<close> (by
  \<open>fixture_init_panics\<close> that package stops when it is loaded, so none of them ever runs), the HTTP servers
  and assertion suites of the test support, and the example command-line program.
\<close>

section \<open>The command-line client against the discovery documents\<close>

definition discovered_endpoints :: "DiscoveryConfig \<Rightarrow> Endpoints" where
  "discovered_endpoints d =
     \<lparr>ep_Authorization = dc_AuthorizationEndpoint d, ep_Token = dc_TokenEndpoint d, ep_Revocation = dc_RevocationEndpoint d,
      ep_Registration = dc_RegistrationEndpoint d\<rparr>"

text \<open>An issuer as the documents are meant for: absolute, without query and fragment, HTTPS or loopback HTTP.\<close>

definition proper_issuer :: "string \<Rightarrow> bool" where
  "proper_issuer issuer =
     (CHR ''#'' \<notin> set issuer \<and> CHR ''?'' \<notin> set issuer \<and>
      (case url_Parse issuer of
         Inl _ \<Rightarrow> False
       | Inr u \<Rightarrow> u_Host u \<noteq> [] \<and> (u_Scheme u = ''https'' \<or> u_Scheme u = ''http'' \<and> isLoopbackEndpointHost (url_Hostname u))))"

lemma TrimRight_idem: "go_TrimRight (go_TrimRight s c) c = go_TrimRight s c"
  by (simp add: go_TrimRight_def dropWhile_idem)

lemma issuer_endpoint_valid:
  assumes "proper_issuer issuer" "go_TrimRight issuer (CHR ''/'') = issuer" "plain_path p"
  shows "validateEndpoint issuer (issuer @ p) = None" "\<exists>u. url_Parse (issuer @ p) = Inr u"
proof -
  obtain u where u: "url_Parse issuer = Inr u" "u_Host u \<noteq> []" "u_Scheme u = ''https'' \<or> u_Scheme u = ''http'' \<and> isLoopbackEndpointHost (url_Hostname u)"
      "CHR ''#'' \<notin> set issuer" "CHR ''?'' \<notin> set issuer"
    using assms(1) by (auto simp: proper_issuer_def split: sum.splits)
  from u(3) have "u_Scheme u \<noteq> []" by auto
  from url_Parse_append [OF u(1,4,5) this u(2) assms(3)] obtain u2 where
    u2: "url_Parse (issuer @ p) = Inr u2" "u_Scheme u2 = u_Scheme u" "u_Host u2 = u_Host u" "u_Fragment u2 = []" by blast
  have "url_Hostname u2 = url_Hostname u" using u2(3) by (simp add: url_Hostname_def)
  with u u2 assms(2) show "validateEndpoint issuer (issuer @ p) = None"
    by (auto simp: validateEndpoint_def url_IsAbs_def go_EqualFold_def)
  show "\<exists>u. url_Parse (issuer @ p) = Inr u" using u2(1) by blast
qed

lemma endpoint_paths:
  "plain_path ''/oauth/authorize''" "plain_path ''/oauth/token''" "plain_path ''/oauth/revoke''" "plain_path ''/oauth/register''"
  "plain_path ''/.well-known/oauth-authorization-server''"
  by code_simp+

lemma route_config_endpoints:
  "discovered_endpoints (route_config d cfg) = discovered_endpoints d"
  by (auto simp: route_config_def Let_def discovered_endpoints_def split: sum.splits)

text \<open>The served document, member by member: strings, lists of strings and a flag, under ASCII names.\<close>

lemma gm_put_subset: "set (gm_put k v m) \<subseteq> insert (k, v) (set m)"
  unfolding gm_put_def by (induction m) auto

definition simple_value :: "json \<Rightarrow> bool" where
  "simple_value v = (\<exists>s ss. v = JStr s \<or> v = jstrings ss \<or> v = JBool True)"

definition simple_tree :: "json \<Rightarrow> jtree" where "simple_tree v = (case json_tree v of Some t \<Rightarrow> t | None \<Rightarrow> TNull)"

lemma simple_value_tree:
  assumes "simple_value v"
  shows "json_tree v = Some (simple_tree v)" "tree_ok (simple_tree v)" "tree_depth (simple_tree v) \<le> 1"
proof -
  have ss: "all_some (map json_tree (map JStr ss)) = Some (map json_string ss)" for ss by (induction ss) simp_all
  have mx: "Max (insert 0 ((\<lambda>x. 0 :: nat) ` set ss)) = 0" for ss :: "string list" by (cases ss) (simp_all add: image_constant_conv)
  have "json_tree v = Some (simple_tree v) \<and> tree_ok (simple_tree v) \<and> tree_depth (simple_tree v) \<le> 1"
    using assms ss mx by (auto simp: simple_value_def simple_tree_def jstrings_def)
  then show "json_tree v = Some (simple_tree v)" "tree_ok (simple_tree v)" "tree_depth (simple_tree v) \<le> 1" by blast+
qed

definition document_names :: "string list" where
  "document_names =
     metadata_names @ [''issuer'', ''jwks_uri'', ''response_types_supported'', ''response_modes_supported'', ''grant_types_supported'',
       ''subject_types_supported'', ''id_token_signing_alg_values_supported'', ''scopes_supported'', ''token_endpoint_auth_methods_supported'',
       ''code_challenge_methods_supported'', ''resource'', ''resource_metadata'', ''client_id_metadata_document_supported'']"

lemma document_members:
  assumes "(k, v) \<in> set (OpenIDConfiguration d)"
  shows "k \<in> set document_names \<and> simple_value v"
proof -
  define P where "P m \<longleftrightarrow> (\<forall>(k, v) \<in> set m. k \<in> set document_names \<and> simple_value v)" for m :: "json gomap"
  have st: "simple_value (JStr s)" "simple_value (jstrings ss)" "simple_value (JBool True)" for s ss by (auto simp: simple_value_def)
  have put: "P m \<Longrightarrow> k \<in> set document_names \<Longrightarrow> simple_value v \<Longrightarrow> P (gm_put k v m)" for k v m
    using gm_put_subset [of k v m] by (auto simp: P_def)
  have choose: "P m \<Longrightarrow> P m' \<Longrightarrow> P (if c then m else m')" for m m' c by simp
  have base: "P [] " "k \<in> set document_names \<Longrightarrow> simple_value v \<Longrightarrow> P m \<Longrightarrow> P ((k, v) # m)" for k v m by (auto simp: P_def)
  have "P (OpenIDConfiguration d)" unfolding OpenIDConfiguration_def Let_def
    by (intro choose put base st) (simp_all add: document_names_def metadata_names_def)
  with assms show ?thesis by (auto simp: P_def)
qed

lemma document_names_field: "\<forall>k \<in> set document_names. utf8_valid k \<and> (\<forall>name \<in> set metadata_names. is_field name k \<longrightarrow> k = name)"
proof -
  have a: "\<forall>k \<in> set document_names. \<forall>c \<in> set k. code_of c < 128" by (simp add: document_names_def metadata_names_def)
  have f: "map fold_name document_names = document_names"
    by (simp add: document_names_def metadata_names_def lower_char_def)
  have "fold_name k = k" if "k \<in> set document_names" for k using f that by (metis list.map_ident map_eq_conv)
  moreover have "set metadata_names \<subseteq> set document_names" by (auto simp: document_names_def)
  ultimately have "\<forall>k \<in> set document_names. \<forall>name \<in> set metadata_names. is_field name k \<longrightarrow> k = name"
    by (auto simp: is_field_def)
  with a show ?thesis by (auto intro: ascii_valid)
qed

lemma OpenIDConfiguration_wf: "gm_wf (OpenIDConfiguration d)"
proof -
  have "gm_wf [(''issuer'', a), (''authorization_endpoint'', b), (''token_endpoint'', c), (''jwks_uri'', e), (''revocation_endpoint'', f),
      (''registration_endpoint'', g), (''response_types_supported'', h), (''response_modes_supported'', i), (''grant_types_supported'', j),
      (''subject_types_supported'', k), (''id_token_signing_alg_values_supported'', l), (''scopes_supported'', m),
      (''token_endpoint_auth_methods_supported'', n), (''code_challenge_methods_supported'', p)]" for a b c e f g h i j k l m n p :: json
    by (simp add: gm_wf_def)
  then show ?thesis by (simp add: OpenIDConfiguration_def Let_def)
qed

text \<open>What a client reads from the document the server sends.\<close>

lemma served_document_decodes:
  "\<exists>body. json_body (json_of_map (AuthorizationServerMetadata d)) = Some body \<and> decode_metadata body =
    Inr \<lparr>mr_AuthorizationEndpoint = utf8_clean (dc_AuthorizationEndpoint d), mr_TokenEndpoint = utf8_clean (dc_TokenEndpoint d),
         mr_RevocationEndpoint = utf8_clean (dc_RevocationEndpoint d), mr_RegistrationEndpoint = utf8_clean (dc_RegistrationEndpoint d)\<rparr>"
proof -
  define doc where "doc = OpenIDConfiguration d"
  define ks where "ks = sort_strings (map fst doc)"
  define tree where "tree k = simple_tree (case gm_get doc k of Some v \<Rightarrow> v | None \<Rightarrow> JNull)" for k
  have mem: "\<exists>v. gm_get doc k = Some v \<and> k \<in> set document_names \<and> simple_value v" if "k \<in> set ks" for k
  proof -
    from that obtain v where v: "(k, v) \<in> set doc" by (auto simp: ks_def)
    then have "gm_get doc k = Some v" using OpenIDConfiguration_wf [of d] gm_get_in_set [of doc k v] by (simp add: doc_def)
    with v document_members [of k v d] show ?thesis by (auto simp: doc_def)
  qed
  have js: "json_tree (json_of_map doc) = Some (TObj (map (\<lambda>k. (quote k, tree k)) ks))"
  proof -
    have "all_some (map (\<lambda>m. map_option (Pair (quote (fst m))) (json_tree (snd m))) (map (\<lambda>k. (k, case gm_get doc k of Some v \<Rightarrow> v | None \<Rightarrow> JNull)) ks)) =
        Some (map (\<lambda>k. (quote k, tree k)) ks)"
      unfolding map_map by (rule all_some_map) (use mem simple_value_tree(1) in \<open>fastforce simp: tree_def\<close>)
    then show ?thesis by (simp add: json_of_map_def ks_def)
  qed
  have ok: "tree_ok (tree k)" "tree_depth (tree k) \<le> 1" if "k \<in> set ks" for k
    using mem [OF that] simple_value_tree(2,3) by (auto simp: tree_def)
  have t1: "tree_ok (TObj (map (\<lambda>k. (quote k, tree k)) ks))" using ok(1) by auto
  have "tree_depth (TObj (map (\<lambda>k. (quote k, tree k)) ks)) \<le> Suc 1" by (rule tree_depth_obj) (use ok(2) in auto)
  then have t2: "tree_depth (TObj (map (\<lambda>k. (quote k, tree k)) ks)) \<le> 10000" by linarith
  let ?val = "\<lambda>name. case gm_get doc name of Some (JStr v) \<Rightarrow> v | _ \<Rightarrow> []"
  note get = gm_get_OpenIDConfiguration [of d, folded doc_def]
  have val: "\<forall>name \<in> set metadata_names. tree name = json_string (?val name)"
    by (simp add: metadata_names_def tree_def simple_tree_def get)
  have "name \<in> set ks" if "gm_get doc name \<noteq> None" for name using that gm_get_None [of doc name] by (simp add: ks_def)
  then have names: "set metadata_names \<subseteq> set ks" by (simp add: metadata_names_def get)
  have k: "\<forall>k \<in> set ks. utf8_valid k \<and> (\<forall>name \<in> set metadata_names. is_field name k \<longrightarrow> k = name)"
    using mem document_names_field by blast
  let ?body = "compact (TObj (map (\<lambda>k. (quote k, tree k)) ks)) @ [CHR 0x0A]"
  have "json_body (json_of_map (AuthorizationServerMetadata d)) = Some ?body"
    using js by (simp add: json_body_def AuthorizationServerMetadata_def doc_def)
  moreover have "num_end [CHR 0x0A]" by (simp add: is_digit_def)
  then have "decode_metadata ?body =
    Inr \<lparr>mr_AuthorizationEndpoint = utf8_clean (dc_AuthorizationEndpoint d), mr_TokenEndpoint = utf8_clean (dc_TokenEndpoint d),
         mr_RevocationEndpoint = utf8_clean (dc_RevocationEndpoint d), mr_RegistrationEndpoint = utf8_clean (dc_RegistrationEndpoint d)\<rparr>"
    using names gm_get_OpenIDConfiguration [of d]
    by (simp add: decode_metadata_def decode_compact [OF t1 t2] metadata_members [OF k val] metadata_names_def doc_def)
  ultimately show ?thesis by blast
qed

text \<open>A response carries what a handler wrote for a request.\<close>

definition answers :: "handler \<Rightarrow> http_resp \<Rightarrow> bool" where
  "answers h resp =
     (let w = h \<lparr>r_Method = ''GET'', r_Header = [(''Accept'', [''application/json''])], r_Ctx = context_Background\<rparr> new_writer
      in rsp_StatusCode resp = w_status w \<and>
         (case w_body w of [JsonDoc doc] \<Rightarrow> json_body doc = Some (rsp_Body resp) | _ \<Rightarrow> False))"

text \<open>
  C18 (the client accepts what the server publishes). For an issuer that is an HTTPS or loopback URL
  in UTF-8 without query and fragment, a client whose metadata request is answered with the bytes that
  the authorization server metadata handler of that issuer writes ends up with exactly the server's
  endpoints, all of them validated against the issuer.\<close>

theorem cli_accepts_served_metadata:
  assumes "NewLogin pe opts = Inr l" "proper_issuer (lg_Issuer l)" "utf8_valid (lg_Issuer l)"
    and "ls_Endpoints s = zero_Endpoints"
    and "nt_Do nt \<lparr>hr_Method = ''GET'', hr_URL = lg_Issuer l @ ''/.well-known/oauth-authorization-server'',
           hr_Header = [(''Accept'', [''application/json''])], hr_Body = NoBody\<rparr> (ls_net s) = (Inr resp, n)"
    and "answers (AuthorizationServerHandler (route_config (NewDiscoveryConfig (lo_Issuer opts) scopes) cfg)) resp"
  shows "login_endpoints nt (lg_Issuer l) s =
    (Inr (discovered_endpoints (NewDiscoveryConfig (lo_Issuer opts) scopes)),
     s\<lparr>ls_net := n, ls_Endpoints := discovered_endpoints (NewDiscoveryConfig (lo_Issuer opts) scopes)\<rparr>)"
proof -
  let ?issuer = "lg_Issuer l" and ?d = "NewDiscoveryConfig (lo_Issuer opts) scopes"
  have i: "?issuer = go_TrimRight (lo_Issuer opts) (CHR ''/'')" by (rule NewLogin_issuer [OF assms(1)])
  then have idem: "go_TrimRight ?issuer (CHR ''/'') = ?issuer" by (simp add: TrimRight_idem)
  let ?e = "discovered_endpoints ?d"
  have e: "?e = \<lparr>ep_Authorization = ?issuer @ ''/oauth/authorize'', ep_Token = ?issuer @ ''/oauth/token'',
      ep_Revocation = ?issuer @ ''/oauth/revoke'', ep_Registration = ?issuer @ ''/oauth/register''\<rparr>"
    by (simp add: discovered_endpoints_def NewDiscoveryConfig_def Let_def i)
  have dc: "dc_AuthorizationEndpoint ?d = ?issuer @ ''/oauth/authorize''" "dc_TokenEndpoint ?d = ?issuer @ ''/oauth/token''"
      "dc_RevocationEndpoint ?d = ?issuer @ ''/oauth/revoke''" "dc_RegistrationEndpoint ?d = ?issuer @ ''/oauth/register''"
    using e by (simp_all add: discovered_endpoints_def)
  have cl: "utf8_clean (?issuer @ p) = ?issuer @ p" if "\<forall>c \<in> set p. code_of c < 128" for p
    using clean_append [OF assms(3), of p] ascii_valid [OF that] by (simp add: utf8_valid_def)
  have resp: "rsp_StatusCode resp = 200" "json_body (json_of_map (AuthorizationServerMetadata (route_config ?d cfg))) = Some (rsp_Body resp)"
    using assms(6) by (simp_all add: answers_def Let_def AuthorizationServerHandler_def served_by_jsonHandler)
  note valid = issuer_endpoint_valid [OF assms(2) idem]
  have "ep_validate ?issuer ?e = None" by (simp add: ep_validate_None e valid(1) endpoint_paths)
  moreover have "discoverEndpoints nt ?issuer (ls_net s) = (Inr ?e, n)"
    using valid(2) [OF endpoint_paths(5)] assms(5) resp(1) route_config_endpoints [of ?d cfg] served_document_decodes [of "route_config ?d cfg"] resp(2)
    by (auto simp: discoverEndpoints_def Let_def idem net_send_def discovered_endpoints_def dc cl)
  moreover have "ep_merge zero_Endpoints ?e = ?e" "ep_complete ?e" "\<not> ep_complete zero_Endpoints"
    by (simp_all add: e ep_merge_def ep_complete_def zero_Endpoints_def)
  ultimately show ?thesis by (simp add: login_endpoints_def assms(4) Let_def)
qed

definition sample_options :: "nat LoginOptions" where
  "sample_options = \<lparr>lo_Issuer = ''https://as/'', lo_CredPath = ''creds'', lo_Store = None, lo_HTTPClient = None, lo_OpenURL = None,
     lo_Endpoints = zero_Endpoints\<rparr>"

definition serving_net :: "string \<Rightarrow> nat net" where
  "serving_net body = \<lparr>nt_Do = (\<lambda>rq n. (Inr \<lparr>rsp_StatusCode = 200, rsp_Status = ''200 OK'', rsp_Body = body\<rparr>, n + 1))\<rparr>"

theorem cli_accepts_served_metadata_witness:
  "\<exists>nt :: nat net. fst (login_endpoints nt ''https://as'' fresh_login) = Inr (discovered_endpoints sample_discovery)"
proof -
  let ?h = "AuthorizationServerHandler (route_config (NewDiscoveryConfig ''https://as/'' [''read'']) sample_routes)"
  obtain body where b: "json_body (json_of_map (AuthorizationServerMetadata (route_config (NewDiscoveryConfig ''https://as/'' [''read'']) sample_routes))) = Some body"
    using served_document_decodes by blast
  have h: "case_sum (\<lambda>_. False) (\<lambda>_. True) (HostFromIssuer ''https://as/'')" "go_TrimRight ''https://as/'' (CHR ''/'') = ''https://as''" by code_simp+
  then obtain l where l: "NewLogin sample_paths sample_options = Inr l" "lg_Issuer l = ''https://as''"
    by (auto simp: NewLogin_def sample_options_def split: sum.splits)
  have p: "proper_issuer ''https://as''" by code_simp
  have v: "utf8_valid ''https://as''" by (rule ascii_valid) simp
  have a: "answers ?h \<lparr>rsp_StatusCode = 200, rsp_Status = ''200 OK'', rsp_Body = body\<rparr>"
    using b by (simp add: answers_def Let_def AuthorizationServerHandler_def served_by_jsonHandler)
  have o: "lo_Issuer sample_options = ''https://as/''" by (simp add: sample_options_def)
  have "login_endpoints (serving_net body) (lg_Issuer l) fresh_login = (Inr (discovered_endpoints (NewDiscoveryConfig (lo_Issuer sample_options) [''read''])),
      fresh_login\<lparr>ls_net := 1, ls_Endpoints := discovered_endpoints (NewDiscoveryConfig (lo_Issuer sample_options) [''read''])\<rparr>)"
    by (rule cli_accepts_served_metadata [OF l(1), of fresh_login "serving_net body" "\<lparr>rsp_StatusCode = 200, rsp_Status = ''200 OK'', rsp_Body = body\<rparr>"])
      (use l(2) p v a o in \<open>simp_all add: fresh_login_def serving_net_def\<close>)
  then show ?thesis using l(2) o by (auto simp: sample_discovery_def intro!: exI [of _ "serving_net body"])
qed

end
